theory Spec2Isabelle
  imports Main "HOL-Library.AList" "HOL-Library.Sublist"
begin

section \<open>Shared data\<close>

text \<open>
  The seven provider plugins registered in \<^verbatim>\<open>providers/plugins/index.ts\<close>
  (\<^verbatim>\<open>PROVIDERS\<close>), by their \<^verbatim>\<open>id\<close>.
\<close>

datatype provider_id = Whatsapp | Telegram | Discord | Slack | Signal | Imessage | Msteams

text \<open>
  A TypeScript field of type \<^verbatim>\<open>T | null\<close>. An optional key \<^verbatim>\<open>k?: T | null\<close> is an
  \<open>option\<close> of it: \<open>None\<close> is the absent key (\<^verbatim>\<open>undefined\<close>).
\<close>

datatype 'a nullable = Null | Val 'a

text \<open>A thrown value, or the reason of a rejected promise.\<close>

datatype js_error = JsError string

section \<open>Outbound delivery engine (\<^verbatim>\<open>infra/outbound/deliver.ts\<close>)\<close>

text \<open>
  \<^verbatim>\<open>NormalizedOutboundPayload\<close>: the text and the ordered media URLs of one reply unit.
  \<^verbatim>\<open>normalizeOutboundPayloads\<close> lives in \<^verbatim>\<open>payloads.ts\<close>, which is not part of the
  sources at hand; the engine is modelled from the normalised list on.
\<close>

record payload =
  payload_text :: string
  mediaUrls :: "string list"

type_synonym chunker = "string \<Rightarrow> int \<Rightarrow> string list"

text \<open>
  \<^verbatim>\<open>providerCaps\<close>. The two chunkers \<^verbatim>\<open>chunkText\<close> and \<^verbatim>\<open>chunkMarkdownText\<close> come from
  \<^verbatim>\<open>auto-reply/chunk.ts\<close> and are parameters here.
\<close>

definition providerCaps :: "chunker \<Rightarrow> chunker \<Rightarrow> provider_id \<Rightarrow> chunker option" where
  "providerCaps chunkText chunkMarkdownText p =
     (case p of
        Whatsapp \<Rightarrow> Some chunkText
      | Telegram \<Rightarrow> Some chunkMarkdownText
      | Discord \<Rightarrow> None
      | Slack \<Rightarrow> None
      | Signal \<Rightarrow> Some chunkText
      | Imessage \<Rightarrow> Some chunkText
      | Msteams \<Rightarrow> Some chunkMarkdownText)"

text \<open>
  A send is a network call: it reads and changes the outside world \<open>'w\<close> and either
  returns a delivery result \<open>'r\<close> or throws. \<^verbatim>\<open>ProviderHandler\<close>:
\<close>

record ('w, 'r) handler =
  chunker :: "chunker option"
  sendText :: "string \<Rightarrow> 'w \<Rightarrow> (js_error + 'r) \<times> 'w"
  sendMedia :: "string \<Rightarrow> string \<Rightarrow> 'w \<Rightarrow> (js_error + 'r) \<times> 'w"

text \<open>
  \<^verbatim>\<open>ProviderOutboundAdapter\<close>, the part the engine reads. \<^verbatim>\<open>chunker\<close> is an optional key
  whose value may be \<^verbatim>\<open>null\<close>; \<^verbatim>\<open>sendText\<close> and \<^verbatim>\<open>sendMedia\<close> are optional. The context
  object a plugin's send receives (\<^verbatim>\<open>cfg\<close>, \<^verbatim>\<open>to\<close>, \<^verbatim>\<open>accountId\<close>, \<^verbatim>\<open>deps\<close>) is fixed for
  one delivery and is closed over.
\<close>

record ('w, 'r) outbound_adapter =
  ob_chunker :: "chunker nullable option"
  ob_sendText :: "(string \<Rightarrow> 'w \<Rightarrow> (js_error + 'r) \<times> 'w) option"
  ob_sendMedia :: "(string \<Rightarrow> string \<Rightarrow> 'w \<Rightarrow> (js_error + 'r) \<times> 'w) option"

definition createPluginHandler ::
  "chunker \<Rightarrow> chunker \<Rightarrow> provider_id \<Rightarrow> ('w, 'r) outbound_adapter option \<Rightarrow> ('w, 'r) handler option" where
  "createPluginHandler chunkText chunkMarkdownText provider outbound =
     (case outbound of
        None \<Rightarrow> None
      | Some ob \<Rightarrow>
          (case (ob_sendText ob, ob_sendMedia ob) of
             (Some st, Some sm) \<Rightarrow>
               Some \<lparr> chunker =
                        (case ob_chunker ob of
                           None \<Rightarrow> providerCaps chunkText chunkMarkdownText provider
                         | Some Null \<Rightarrow> None
                         | Some (Val f) \<Rightarrow> Some f),
                      sendText = st,
                      sendMedia = sm \<rparr>
           | _ \<Rightarrow> None))"

text \<open>
  \<^verbatim>\<open>createProviderHandler\<close>: the plugin's handler when the plugin has both sends, else the
  built-in table \<^verbatim>\<open>handlers[provider]\<close>, whose sends go to \<^verbatim>\<open>deps.send...\<close> with or
  without a \<^verbatim>\<open>mediaUrl\<close>. \<open>deps\<close> stands for \<^verbatim>\<open>depsWithLimits\<close>.
\<close>

definition createProviderHandler ::
  "chunker \<Rightarrow> chunker \<Rightarrow> provider_id \<Rightarrow> ('w, 'r) outbound_adapter option \<Rightarrow>
   (provider_id \<Rightarrow> string \<Rightarrow> string option \<Rightarrow> 'w \<Rightarrow> (js_error + 'r) \<times> 'w) \<Rightarrow> ('w, 'r) handler" where
  "createProviderHandler chunkText chunkMarkdownText provider outbound deps =
     (case createPluginHandler chunkText chunkMarkdownText provider outbound of
        Some pluginHandler \<Rightarrow> pluginHandler
      | None \<Rightarrow>
          \<lparr> chunker = providerCaps chunkText chunkMarkdownText provider,
            sendText = (\<lambda>t. deps provider t None),
            sendMedia = (\<lambda>caption mediaUrl. deps provider caption (Some mediaUrl)) \<rparr>)"

text \<open>
  What the engine does that a caller can observe, in order: the sends, and the calls of
  the two optional callbacks \<^verbatim>\<open>onPayload\<close> and \<^verbatim>\<open>onError\<close>.
\<close>

datatype send_call =
    SendText string
  | SendMedia string string
  | OnPayload payload
  | OnError js_error payload

text \<open>
  The mutable state of one \<^verbatim>\<open>deliverOutboundPayloads\<close> call: the \<^verbatim>\<open>results\<close> array, the
  calls made so far, and the outside world.
\<close>

record ('w, 'r) dstate =
  results :: "'r list"
  calls :: "send_call list"
  world :: 'w

text \<open>
  The parameters that steer the loop: \<^verbatim>\<open>bestEffort\<close>, and whether the caller passed
  \<^verbatim>\<open>onError\<close> and \<^verbatim>\<open>onPayload\<close> (both are called with \<^verbatim>\<open>?.\<close>).
\<close>

record deliver_params =
  bestEffort :: bool
  onError :: bool
  onPayload :: bool

text \<open>\<^verbatim>\<open>results.push(await handler.sendText(text))\<close>: nothing is pushed when the send throws.\<close>

definition push_sendText :: "('w, 'r) handler \<Rightarrow> string \<Rightarrow> ('w, 'r) dstate \<Rightarrow> (js_error + unit) \<times> ('w, 'r) dstate" where
  "push_sendText h t st =
     (case sendText h t (world st) of
        (Inl e, w) \<Rightarrow> (Inl e, st\<lparr>calls := calls st @ [SendText t], world := w\<rparr>)
      | (Inr r, w) \<Rightarrow>
          (Inr (), st\<lparr>results := results st @ [r], calls := calls st @ [SendText t], world := w\<rparr>))"

definition push_sendMedia :: "('w, 'r) handler \<Rightarrow> string \<Rightarrow> string \<Rightarrow> ('w, 'r) dstate \<Rightarrow> (js_error + unit) \<times> ('w, 'r) dstate" where
  "push_sendMedia h caption url st =
     (case sendMedia h caption url (world st) of
        (Inl e, w) \<Rightarrow> (Inl e, st\<lparr>calls := calls st @ [SendMedia caption url], world := w\<rparr>)
      | (Inr r, w) \<Rightarrow>
          (Inr (), st\<lparr>results := results st @ [r], calls := calls st @ [SendMedia caption url], world := w\<rparr>))"

text \<open>The \<^verbatim>\<open>for (const chunk of handler.chunker(text, textLimit))\<close> loop; a throw leaves it.\<close>

fun sendChunks :: "('w, 'r) handler \<Rightarrow> string list \<Rightarrow> ('w, 'r) dstate \<Rightarrow> (js_error + unit) \<times> ('w, 'r) dstate" where
  "sendChunks h [] st = (Inr (), st)"
| "sendChunks h (c # cs) st =
     (case push_sendText h c st of
        (Inl e, st') \<Rightarrow> (Inl e, st')
      | (Inr u, st') \<Rightarrow> sendChunks h cs st')"

text \<open>
  \<^verbatim>\<open>textLimit\<close>: \<^verbatim>\<open>resolveTextChunkLimit\<close> (from \<^verbatim>\<open>auto-reply/chunk.ts\<close>) is consulted only
  when the handler has a chunker; its answer is the parameter \<open>rl\<close>.
\<close>

definition textLimit :: "('w, 'r) handler \<Rightarrow> int option \<Rightarrow> int option" where
  "textLimit h rl = (case chunker h of None \<Rightarrow> None | Some f \<Rightarrow> rl)"

definition sendTextChunks :: "('w, 'r) handler \<Rightarrow> int option \<Rightarrow> string \<Rightarrow> ('w, 'r) dstate \<Rightarrow> (js_error + unit) \<times> ('w, 'r) dstate" where
  "sendTextChunks h lim t st =
     (case (chunker h, lim) of
        (Some f, Some l) \<Rightarrow> sendChunks h (f t l) st
      | _ \<Rightarrow> push_sendText h t st)"

text \<open>The \<^verbatim>\<open>for (const url of payload.mediaUrls)\<close> loop with its \<^verbatim>\<open>first\<close> flag.\<close>

fun sendMediaLoop :: "('w, 'r) handler \<Rightarrow> string \<Rightarrow> bool \<Rightarrow> string list \<Rightarrow> ('w, 'r) dstate \<Rightarrow> (js_error + unit) \<times> ('w, 'r) dstate" where
  "sendMediaLoop h t first [] st = (Inr (), st)"
| "sendMediaLoop h t first (url # urls) st =
     (case push_sendMedia h (if first then t else '''') url st of
        (Inl e, st') \<Rightarrow> (Inl e, st')
      | (Inr u, st') \<Rightarrow> sendMediaLoop h t False urls st')"

text \<open>The body of the \<^verbatim>\<open>try\<close> block for one normalised payload.\<close>

definition deliver_payload ::
  "deliver_params \<Rightarrow> ('w, 'r) handler \<Rightarrow> int option \<Rightarrow> payload \<Rightarrow> ('w, 'r) dstate \<Rightarrow> (js_error + unit) \<times> ('w, 'r) dstate" where
  "deliver_payload prm h lim p st =
     (let st1 = (if onPayload prm then st\<lparr>calls := calls st @ [OnPayload p]\<rparr> else st)
      in if mediaUrls p = []
         then sendTextChunks h lim (payload_text p) st1
         else sendMediaLoop h (payload_text p) True (mediaUrls p) st1)"

text \<open>The \<^verbatim>\<open>catch\<close> block in best-effort mode: \<^verbatim>\<open>params.onError?.(err, payload)\<close>.\<close>

definition note_error :: "deliver_params \<Rightarrow> js_error \<Rightarrow> payload \<Rightarrow> ('w, 'r) dstate \<Rightarrow> ('w, 'r) dstate" where
  "note_error prm e p st = (if onError prm then st\<lparr>calls := calls st @ [OnError e p]\<rparr> else st)"

text \<open>The \<^verbatim>\<open>for (const payload of normalizedPayloads)\<close> loop with its \<^verbatim>\<open>try\<close>/\<^verbatim>\<open>catch\<close>.\<close>

fun deliver_loop ::
  "deliver_params \<Rightarrow> ('w, 'r) handler \<Rightarrow> int option \<Rightarrow> payload list \<Rightarrow> ('w, 'r) dstate \<Rightarrow> (js_error + unit) \<times> ('w, 'r) dstate" where
  "deliver_loop prm h lim [] st = (Inr (), st)"
| "deliver_loop prm h lim (p # ps) st =
     (case deliver_payload prm h lim p st of
        (Inr u, st') \<Rightarrow> deliver_loop prm h lim ps st'
      | (Inl e, st') \<Rightarrow>
          if \<not> bestEffort prm then (Inl e, st')
          else deliver_loop prm h lim ps (note_error prm e p st'))"

text \<open>
  \<^verbatim>\<open>deliverOutboundPayloads\<close>, from the handler on. The promise rejects with the error
  (\<open>Inl\<close>) or resolves with the \<^verbatim>\<open>results\<close> array (\<open>Inr\<close>); the final state is returned
  beside it so that the calls made can be observed.
\<close>

definition deliverOutboundPayloads ::
  "deliver_params \<Rightarrow> ('w, 'r) handler \<Rightarrow> int option \<Rightarrow> payload list \<Rightarrow> 'w \<Rightarrow> (js_error + 'r list) \<times> ('w, 'r) dstate" where
  "deliverOutboundPayloads prm h rl payloads w0 =
     (case deliver_loop prm h (textLimit h rl) payloads \<lparr>results = [], calls = [], world = w0\<rparr> of
        (Inl e, st) \<Rightarrow> (Inl e, st)
      | (Inr u, st) \<Rightarrow> (Inr (results st), st))"

text \<open>The sends among the observed calls.\<close>

fun is_send :: "send_call \<Rightarrow> bool" where
  "is_send (SendText t) = True"
| "is_send (SendMedia c u) = True"
| "is_send (OnPayload p) = False"
| "is_send (OnError e p) = False"

definition sends :: "send_call list \<Rightarrow> send_call list" where
  "sends cs = filter is_send cs"

text \<open>The calls of the error callback among the observed calls.\<close>

fun is_onError :: "send_call \<Rightarrow> bool" where
  "is_onError (OnError e p) = True"
| "is_onError c = False"

subsection \<open>What chunked delivery is measured against\<close>

text \<open>
  The chunker a provider declares, in the words of the plugin contract: the
  \<^verbatim>\<open>outbound.chunker\<close> of the provider's plugin, where \<^verbatim>\<open>null\<close> says that the provider takes a
  text of any length; a plugin that leaves the key out, or that does not send for itself,
  has the chunker of the provider's entry in the capability table.
\<close>

definition declared_chunker ::
  "chunker \<Rightarrow> chunker \<Rightarrow> provider_id \<Rightarrow> ('w, 'r) outbound_adapter option \<Rightarrow> chunker option" where
  "declared_chunker chunkText chunkMarkdownText provider outbound =
     (case outbound of
        None \<Rightarrow> providerCaps chunkText chunkMarkdownText provider
      | Some ob \<Rightarrow>
          if ob_sendText ob = None \<or> ob_sendMedia ob = None
          then providerCaps chunkText chunkMarkdownText provider
          else (case ob_chunker ob of
                  None \<Rightarrow> providerCaps chunkText chunkMarkdownText provider
                | Some Null \<Rightarrow> None
                | Some (Val f) \<Rightarrow> Some f))"

text \<open>
  The provider's text send: that of its plugin when the plugin sends for itself, else the
  provider's send function among \<^verbatim>\<open>deps\<close>, called without a media URL.
\<close>

definition provider_sendText ::
  "provider_id \<Rightarrow> ('w, 'r) outbound_adapter option \<Rightarrow>
   (provider_id \<Rightarrow> string \<Rightarrow> string option \<Rightarrow> 'w \<Rightarrow> (js_error + 'r) \<times> 'w) \<Rightarrow>
   string \<Rightarrow> 'w \<Rightarrow> (js_error + 'r) \<times> 'w" where
  "provider_sendText provider outbound deps =
     (case outbound of
        None \<Rightarrow> (\<lambda>t. deps provider t None)
      | Some ob \<Rightarrow>
          (case ob_sendText ob of
             None \<Rightarrow> (\<lambda>t. deps provider t None)
           | Some st \<Rightarrow> if ob_sendMedia ob = None then (\<lambda>t. deps provider t None) else st))"

text \<open>
  Texts sent sequentially: one send at a time, in the order of the list, each send made
  in the world the send before it has left; a send that throws ends the sequence. The
  outcome, the delivery results of the sends that returned, and the world afterwards.
\<close>

fun one_by_one ::
  "(string \<Rightarrow> 'w \<Rightarrow> (js_error + 'r) \<times> 'w) \<Rightarrow> string list \<Rightarrow> 'w \<Rightarrow> (js_error + unit) \<times> 'r list \<times> 'w" where
  "one_by_one send [] w = (Inr (), [], w)"
| "one_by_one send (t # ts) w =
     (case send t w of
        (Inl e, w1) \<Rightarrow> (Inl e, [], w1)
      | (Inr r, w1) \<Rightarrow> (case one_by_one send ts w1 of (x, rs, w2) \<Rightarrow> (x, r # rs, w2)))"

section \<open>Outbound target resolver (\<^verbatim>\<open>infra/outbound/targets.ts\<close> and the plugins' \<^verbatim>\<open>resolveTarget\<close>)\<close>

text \<open>
  A destination is a JavaScript string: a list of UTF-16 code units. \<^verbatim>\<open>String.prototype.trim\<close>
  strips the code points ECMAScript calls \<^verbatim>\<open>WhiteSpace\<close> and \<^verbatim>\<open>LineTerminator\<close> from both ends.
\<close>

type_synonym ustring = "nat list"

definition isWhiteSpace :: "nat \<Rightarrow> bool" where
  "isWhiteSpace c \<longleftrightarrow>
     c = 0x0009 \<or> c = 0x000A \<or> c = 0x000B \<or> c = 0x000C \<or> c = 0x000D \<or> c = 0x0020 \<or>
     c = 0x00A0 \<or> c = 0x1680 \<or> (0x2000 \<le> c \<and> c \<le> 0x200A) \<or> c = 0x2028 \<or> c = 0x2029 \<or>
     c = 0x202F \<or> c = 0x205F \<or> c = 0x3000 \<or> c = 0xFEFF"

definition trim :: "ustring \<Rightarrow> ustring" where
  "trim s = rev (dropWhile isWhiteSpace (rev (dropWhile isWhiteSpace s)))"

text \<open>
  \<^verbatim>\<open>to?.trim()\<close> used as a condition: \<^verbatim>\<open>undefined\<close> and the empty string are falsy, every
  other string is truthy.
\<close>

definition trimmed_truthy :: "ustring option \<Rightarrow> ustring option" where
  "trimmed_truthy s = (case s of None \<Rightarrow> None | Some x \<Rightarrow> if trim x = [] then None else Some (trim x))"

text \<open>\<^verbatim>\<open>allowFrom?.[0]\<close>.\<close>

definition first_allowFrom :: "ustring list option \<Rightarrow> ustring option" where
  "first_allowFrom allowFrom = (case allowFrom of None \<Rightarrow> None | Some [] \<Rightarrow> None | Some (x # xs) \<Rightarrow> Some x)"

text \<open>
  \<^verbatim>\<open>OutboundTargetResolution\<close>: \<open>Inr to\<close> is \<^verbatim>\<open>{ ok: true, to }\<close>, \<open>Inl (JsError m)\<close> is
  \<^verbatim>\<open>{ ok: false, error: new Error(m) }\<close>. A resolver gets \<^verbatim>\<open>to\<close> and \<^verbatim>\<open>allowFrom\<close> (no plugin
  reads \<^verbatim>\<open>cfg\<close>). It is a function of its arguments alone: it takes no world and returns
  none.
\<close>

type_synonym resolver = "ustring option \<Rightarrow> ustring list option \<Rightarrow> js_error + ustring"

text \<open>
  The WhatsApp plugin's \<^verbatim>\<open>outbound.resolveTarget\<close>. \<^verbatim>\<open>normalizeE164\<close> comes from
  \<^verbatim>\<open>utils.ts\<close> and is a parameter.
\<close>

definition whatsapp_resolveTarget :: "(ustring \<Rightarrow> ustring) \<Rightarrow> resolver" where
  "whatsapp_resolveTarget normalizeE164 to allowFrom =
     (case trimmed_truthy to of
        Some trimmed \<Rightarrow> Inr (normalizeE164 trimmed)
      | None \<Rightarrow>
          (case trimmed_truthy (first_allowFrom allowFrom) of
             Some fallback \<Rightarrow> Inr (normalizeE164 fallback)
           | None \<Rightarrow> Inl (JsError ''Delivering to WhatsApp requires --to <E.164> or whatsapp.allowFrom[0]'')))"

definition telegram_resolveTarget :: resolver where
  "telegram_resolveTarget to allowFrom =
     (case trimmed_truthy to of
        None \<Rightarrow> Inl (JsError ''Delivering to Telegram requires --to <chatId>'')
      | Some trimmed \<Rightarrow> Inr trimmed)"

definition discord_resolveTarget :: resolver where
  "discord_resolveTarget to allowFrom =
     (case trimmed_truthy to of
        None \<Rightarrow> Inl (JsError ''Delivering to Discord requires --to <channelId|user:ID|channel:ID>'')
      | Some trimmed \<Rightarrow> Inr trimmed)"

definition slack_resolveTarget :: resolver where
  "slack_resolveTarget to allowFrom =
     (case trimmed_truthy to of
        None \<Rightarrow> Inl (JsError ''Delivering to Slack requires --to <channelId|user:ID|channel:ID>'')
      | Some trimmed \<Rightarrow> Inr trimmed)"

definition signal_resolveTarget :: resolver where
  "signal_resolveTarget to allowFrom =
     (case trimmed_truthy to of
        None \<Rightarrow> Inl (JsError ''Delivering to Signal requires --to <E.164|group:ID|signal:group:ID|signal:+E.164>'')
      | Some trimmed \<Rightarrow> Inr trimmed)"

definition imessage_resolveTarget :: resolver where
  "imessage_resolveTarget to allowFrom =
     (case trimmed_truthy to of
        None \<Rightarrow> Inl (JsError ''Delivering to iMessage requires --to <handle|chat_id:ID>'')
      | Some trimmed \<Rightarrow> Inr trimmed)"

definition msteams_resolveTarget :: resolver where
  "msteams_resolveTarget to allowFrom =
     (case trimmed_truthy to of
        None \<Rightarrow> Inl (JsError ''Delivering to MS Teams requires --to <conversationId|user:ID|conversation:ID>'')
      | Some trimmed \<Rightarrow> Inr trimmed)"

text \<open>
  \<^verbatim>\<open>getProviderPlugin(id)?.outbound?.resolveTarget\<close> over the registered plugins: each of the
  seven has an \<^verbatim>\<open>outbound\<close> adapter with a \<^verbatim>\<open>resolveTarget\<close>.
\<close>

definition plugin_resolveTarget :: "(ustring \<Rightarrow> ustring) \<Rightarrow> provider_id \<Rightarrow> resolver option" where
  "plugin_resolveTarget normalizeE164 p =
     (case p of
        Telegram \<Rightarrow> Some telegram_resolveTarget
      | Whatsapp \<Rightarrow> Some (whatsapp_resolveTarget normalizeE164)
      | Discord \<Rightarrow> Some discord_resolveTarget
      | Slack \<Rightarrow> Some slack_resolveTarget
      | Signal \<Rightarrow> Some signal_resolveTarget
      | Imessage \<Rightarrow> Some imessage_resolveTarget
      | Msteams \<Rightarrow> Some msteams_resolveTarget)"

text \<open>The \<^verbatim>\<open>provider\<close> parameter of \<^verbatim>\<open>resolveOutboundTarget\<close>: a plugin id or \<^verbatim>\<open>"webchat"\<close>.\<close>

datatype target_provider = Provider provider_id | Webchat

text \<open>
  \<^verbatim>\<open>resolveOutboundTarget\<close> over a plugin lookup \<open>lookup\<close>: the plugin's resolver when there is
  one, else the built-in chain of \<^verbatim>\<open>if\<close>s.
\<close>

definition resolveOutboundTarget_with ::
  "(provider_id \<Rightarrow> resolver option) \<Rightarrow> (ustring \<Rightarrow> ustring) \<Rightarrow> target_provider \<Rightarrow> resolver" where
  "resolveOutboundTarget_with lookup normalizeE164 provider to allowFrom =
     (case (case provider of Webchat \<Rightarrow> None | Provider p \<Rightarrow> lookup p) of
        Some resolver \<Rightarrow> resolver to allowFrom
      | None \<Rightarrow>
          (let trimmed = (case trimmed_truthy to of None \<Rightarrow> [] | Some t \<Rightarrow> t) in
           if provider = Provider Whatsapp then
             (if trimmed \<noteq> [] then Inr (normalizeE164 trimmed)
              else (case trimmed_truthy (first_allowFrom allowFrom) of
                      Some fallback \<Rightarrow> Inr fallback
                    | None \<Rightarrow> Inl (JsError ''Delivering to WhatsApp requires --to <E.164> or whatsapp.allowFrom[0]'')))
           else if provider = Provider Telegram then
             (if trimmed = [] then Inl (JsError ''Delivering to Telegram requires --to <chatId>'')
              else Inr trimmed)
           else if provider = Provider Discord then
             (if trimmed = [] then Inl (JsError ''Delivering to Discord requires --to <channelId|user:ID|channel:ID>'')
              else Inr trimmed)
           else if provider = Provider Slack then
             (if trimmed = [] then Inl (JsError ''Delivering to Slack requires --to <channelId|user:ID|channel:ID>'')
              else Inr trimmed)
           else if provider = Provider Signal then
             (if trimmed = [] then Inl (JsError ''Delivering to Signal requires --to <E.164|group:ID|signal:group:ID|signal:+E.164>'')
              else Inr trimmed)
           else if provider = Provider Imessage then
             (if trimmed = [] then Inl (JsError ''Delivering to iMessage requires --to <handle|chat_id:ID>'')
              else Inr trimmed)
           else if provider = Provider Msteams then
             (if trimmed = [] then Inl (JsError ''Delivering to MS Teams requires --to <conversationId|user:ID|conversation:ID>'')
              else Inr trimmed)
           else Inl (JsError ''Delivering to WebChat is not supported via `clawdbot agent`; use WhatsApp/Telegram or run with --deliver=false.'')))"

definition resolveOutboundTarget :: "(ustring \<Rightarrow> ustring) \<Rightarrow> target_provider \<Rightarrow> resolver" where
  "resolveOutboundTarget normalizeE164 =
     resolveOutboundTarget_with (plugin_resolveTarget normalizeE164) normalizeE164"

text \<open>A destination that is absent, empty or made of white space only.\<close>

definition blank :: "ustring option \<Rightarrow> bool" where
  "blank to \<longleftrightarrow> (case to of None \<Rightarrow> True | Some s \<Rightarrow> trim s = [])"

section \<open>Process supervisor (\<^verbatim>\<open>runGatewayLoop\<close> in \<^verbatim>\<open>cli/gateway-cli.ts\<close>)\<close>

text \<open>\<^verbatim>\<open>GatewayRunSignalAction\<close>: SIGTERM and SIGINT ask for \<open>Stop\<close>, SIGUSR1 for \<open>Restart\<close>.\<close>

datatype action = Stop | Restart

text \<open>Where the \<^verbatim>\<open>while (true)\<close> loop is suspended, or that it was left by a throw.\<close>

datatype loop_point = AwaitStart | AwaitRestart | LoopEnded

text \<open>
  The variables of \<^verbatim>\<open>runGatewayLoop\<close> and what it has done to the process:
  \<^item> \<open>server\<close>: the variable \<^verbatim>\<open>server\<close>; servers are numbered in the order \<^verbatim>\<open>params.start()\<close>
    made them;
  \<^item> \<open>shuttingDown\<close>: the flag of that name;
  \<^item> \<open>closing\<close>: the \<^verbatim>\<open>server.close(...)\<close> the asynchronous block of \<^verbatim>\<open>request\<close> awaits, with
    the action that asked for it;
  \<^item> \<open>forceExitTimer\<close>: whether the 5000 ms timer is armed;
  \<^item> \<open>loop_at\<close>: the loop's position. \<^verbatim>\<open>restartResolver\<close> resolves the promise the loop
    awaits at \<open>AwaitRestart\<close>; at \<open>AwaitStart\<close> it is \<^verbatim>\<open>null\<close> or belongs to a promise that
    is already resolved, and calling it does nothing;
  \<^item> \<open>handlers\<close>: whether the three signal handlers are installed (\<^verbatim>\<open>cleanupSignals\<close>
    removes them);
  \<^item> \<open>exited\<close>: \<^verbatim>\<open>params.runtime.exit(0)\<close> was called;
  \<^item> \<open>started\<close>: how many servers \<^verbatim>\<open>params.start()\<close> has made;
  \<^item> \<open>closed\<close>: the servers whose \<^verbatim>\<open>close\<close> was called, in order.
\<close>

record supervisor =
  server :: "nat option"
  shuttingDown :: bool
  closing :: "action option"
  forceExitTimer :: bool
  loop_at :: loop_point
  handlers :: bool
  exited :: bool
  started :: nat
  closed :: "nat list"

text \<open>
  What can happen to the loop: a signal arrives, \<^verbatim>\<open>params.start()\<close> resolves or rejects,
  the awaited \<^verbatim>\<open>close\<close> settles (resolved or rejected: the \<^verbatim>\<open>finally\<close> block runs either
  way), or the 5000 ms of the timer have passed before \<^verbatim>\<open>clearTimeout\<close>.
\<close>

datatype sup_event = SignalReceived action | StartResolved | StartRejected | CloseSettled | TimerFired

text \<open>The state \<^verbatim>\<open>runGatewayLoop\<close> is in when it first awaits \<^verbatim>\<open>params.start()\<close>.\<close>

definition initial_supervisor :: supervisor where
  "initial_supervisor =
     \<lparr> server = None, shuttingDown = False, closing = None, forceExitTimer = False,
       loop_at = AwaitStart, handlers = True, exited = False, started = 0, closed = [] \<rparr>"

text \<open>The \<^verbatim>\<open>finally\<close> block of the asynchronous block in \<^verbatim>\<open>request\<close>.\<close>

definition finish_request :: "bool \<Rightarrow> supervisor \<Rightarrow> supervisor" where
  "finish_request isRestart s =
     (let s1 = s\<lparr>forceExitTimer := False, server := None, closing := None\<rparr> in
      if isRestart
      then s1\<lparr>shuttingDown := False,
              loop_at := (if loop_at s1 = AwaitRestart then AwaitStart else loop_at s1)\<rparr>
      else s1\<lparr>handlers := False, exited := True\<rparr>)"

text \<open>
  \<^verbatim>\<open>request(action, signal)\<close>. With no server, \<^verbatim>\<open>server?.close(...)\<close> is \<^verbatim>\<open>undefined\<close> and the
  \<^verbatim>\<open>finally\<close> block runs in the microtask that follows, before any other event.
\<close>

definition request :: "action \<Rightarrow> supervisor \<Rightarrow> supervisor" where
  "request a s =
     (if shuttingDown s then s
      else
        (let s1 = s\<lparr>shuttingDown := True, forceExitTimer := True\<rparr> in
         case server s1 of
           None \<Rightarrow> finish_request (a = Restart) s1
         | Some n \<Rightarrow> s1\<lparr>closing := Some a, closed := closed s1 @ [n]\<rparr>))"

text \<open>
  One event. \<^verbatim>\<open>exit\<close> ends the process, so after it nothing changes any more. An event that
  cannot happen in a state (a \<^verbatim>\<open>close\<close> settling when none is awaited, the timer firing
  when it is not armed, \<^verbatim>\<open>params.start()\<close> settling when the loop does not await it, a
  signal when the handlers are removed) leaves the state as it is.
\<close>

definition step :: "sup_event \<Rightarrow> supervisor \<Rightarrow> supervisor" where
  "step ev s =
     (if exited s then s
      else
        (case ev of
           SignalReceived a \<Rightarrow> if handlers s then request a s else s
         | StartResolved \<Rightarrow>
             if loop_at s = AwaitStart
             then s\<lparr>server := Some (started s), started := Suc (started s), loop_at := AwaitRestart\<rparr>
             else s
         | StartRejected \<Rightarrow>
             if loop_at s = AwaitStart then s\<lparr>loop_at := LoopEnded, handlers := False\<rparr> else s
         | CloseSettled \<Rightarrow>
             (case closing s of None \<Rightarrow> s | Some a \<Rightarrow> finish_request (a = Restart) s)
         | TimerFired \<Rightarrow>
             if forceExitTimer s then s\<lparr>handlers := False, exited := True\<rparr> else s))"

text \<open>The events of a list, one after the other.\<close>

fun run :: "sup_event list \<Rightarrow> supervisor \<Rightarrow> supervisor" where
  "run [] s = s"
| "run (ev # evs) s = run evs (step ev s)"

text \<open>Normal operation: server \<open>n\<close> is up, and the loop waits for a restart request.\<close>

definition serving :: "nat \<Rightarrow> supervisor \<Rightarrow> bool" where
  "serving n s \<longleftrightarrow>
     server s = Some n \<and> \<not> shuttingDown s \<and> closing s = None \<and> \<not> forceExitTimer s \<and>
     loop_at s = AwaitRestart \<and> handlers s \<and> \<not> exited s"

text \<open>
  After a request in normal operation: the \<^verbatim>\<open>close\<close> of the server is awaited on behalf of
  action \<open>a\<close>, the timer is armed, and the loop still waits for a restart request.
\<close>

definition awaiting_close :: "action \<Rightarrow> supervisor \<Rightarrow> bool" where
  "awaiting_close a s \<longleftrightarrow>
     closing s = Some a \<and> forceExitTimer s \<and> shuttingDown s \<and> loop_at s = AwaitRestart \<and> \<not> exited s"

text \<open>
  What holds of the variables in every state the loop reaches: outside a shutdown no
  \<^verbatim>\<open>close\<close> is awaited and the timer is off, and a server is only ever held while the loop
  waits for a restart request.
\<close>

definition coherent :: "supervisor \<Rightarrow> bool" where
  "coherent s \<longleftrightarrow>
     exited s \<or>
     ((\<not> shuttingDown s \<longrightarrow> closing s = None \<and> \<not> forceExitTimer s) \<and>
      (server s \<noteq> None \<longrightarrow> loop_at s = AwaitRestart))"

section \<open>Provider runtime manager (\<^verbatim>\<open>gateway/server-providers.ts\<close>)\<close>

subsection \<open>Status snapshots\<close>

type_synonym account_id = string

text \<open>A value of a snapshot key the manager itself never writes.\<close>

datatype jsval = JNull | JNum nat | JBool bool | JStr string

text \<open>
  \<^verbatim>\<open>ProviderAccountSnapshot\<close>. Every key but \<^verbatim>\<open>accountId\<close> is optional (\<open>None\<close>: the key is
  absent). The keys the manager reads or writes are fields; the other keys of
  \<^verbatim>\<open>DEFAULT_RUNTIME\<close> are kept, by name, in \<open>other\<close>. A patch is a snapshot too.
\<close>

record snapshot =
  accountId :: account_id
  running :: "bool option"
  connected :: "bool option"
  lastStartAt :: "nat nullable option"
  lastStopAt :: "nat nullable option"
  lastError :: "string nullable option"
  other :: "(string \<times> jsval) list"

text \<open>\<^verbatim>\<open>DEFAULT_ACCOUNT_ID\<close> of \<^verbatim>\<open>routing/session-key.ts\<close>.\<close>

definition DEFAULT_ACCOUNT_ID :: account_id where
  "DEFAULT_ACCOUNT_ID = ''default''"

definition DEFAULT_RUNTIME :: "provider_id \<Rightarrow> snapshot" where
  "DEFAULT_RUNTIME p =
     (case p of
        Whatsapp \<Rightarrow>
          \<lparr> accountId = DEFAULT_ACCOUNT_ID, running = Some False, connected = Some False,
            lastStartAt = None, lastStopAt = None, lastError = Some Null,
            other = [(''reconnectAttempts'', JNum 0), (''lastConnectedAt'', JNull),
                     (''lastDisconnect'', JNull), (''lastMessageAt'', JNull), (''lastEventAt'', JNull)] \<rparr>
      | Imessage \<Rightarrow>
          \<lparr> accountId = DEFAULT_ACCOUNT_ID, running = Some False, connected = None,
            lastStartAt = Some Null, lastStopAt = Some Null, lastError = Some Null,
            other = [(''cliPath'', JNull), (''dbPath'', JNull)] \<rparr>
      | Msteams \<Rightarrow>
          \<lparr> accountId = DEFAULT_ACCOUNT_ID, running = Some False, connected = None,
            lastStartAt = Some Null, lastStopAt = Some Null, lastError = Some Null,
            other = [(''port'', JNull)] \<rparr>
      | _ \<Rightarrow>
          \<lparr> accountId = DEFAULT_ACCOUNT_ID, running = Some False, connected = None,
            lastStartAt = Some Null, lastStopAt = Some Null, lastError = Some Null,
            other = [] \<rparr>)"

definition cloneDefaultRuntime :: "provider_id \<Rightarrow> account_id \<Rightarrow> snapshot" where
  "cloneDefaultRuntime providerId a = (DEFAULT_RUNTIME providerId)\<lparr>accountId := a\<rparr>"

text \<open>A patch with no key but \<^verbatim>\<open>accountId\<close>.\<close>

definition patch :: "account_id \<Rightarrow> snapshot" where
  "patch a = \<lparr> accountId = a, running = None, connected = None, lastStartAt = None,
               lastStopAt = None, lastError = None, other = [] \<rparr>"

text \<open>One key of \<^verbatim>\<open>{ ...current, ...patch }\<close>: the patch's value when the patch has the key.\<close>

definition spread :: "'a option \<Rightarrow> 'a option \<Rightarrow> 'a option" where
  "spread current p = (case p of None \<Rightarrow> current | Some v \<Rightarrow> Some v)"

text \<open>\<^verbatim>\<open>{ ...current, ...patch, accountId }\<close>.\<close>

definition merge_snapshot :: "snapshot \<Rightarrow> snapshot \<Rightarrow> account_id \<Rightarrow> snapshot" where
  "merge_snapshot current p a =
     \<lparr> accountId = a,
       running = spread (running current) (running p),
       connected = spread (connected current) (connected p),
       lastStartAt = spread (lastStartAt current) (lastStartAt p),
       lastStopAt = spread (lastStopAt current) (lastStopAt p),
       lastError = spread (lastError current) (lastError p),
       other = fold (\<lambda>(k, v). AList.update k v) (other p) (other current) \<rparr>"

subsection \<open>The store and what the manager has set in motion\<close>

text \<open>
  \<^verbatim>\<open>ProviderRuntimeStore\<close>: three \<^verbatim>\<open>Map\<close>s keyed by account id, as association lists in
  insertion order (\<^verbatim>\<open>Map.set\<close> is \<open>AList.update\<close>, \<^verbatim>\<open>Map.delete\<close> is \<open>AList.delete\<close>). An
  \<^verbatim>\<open>AbortController\<close> is named by its serial number, and so is the tracked promise of the
  task that was started with it.
\<close>

record store =
  aborts :: "(account_id \<times> nat) list"
  tasks :: "(account_id \<times> nat) list"
  runtimes :: "(account_id \<times> snapshot) list"

definition createRuntimeStore :: store where
  "createRuntimeStore = \<lparr> aborts = [], tasks = [], runtimes = [] \<rparr>"

text \<open>
  The manager's state, with the part of the world it acts on:
  \<^item> \<open>stores\<close>: \<^verbatim>\<open>providerStores\<close>. \<^verbatim>\<open>getStore\<close> makes a provider's store on first use, and
    nothing enumerates the map, so a provider without an entry is a provider with the
    empty store;
  \<^item> \<open>controllers\<close>: how many \<^verbatim>\<open>AbortController\<close>s \<^verbatim>\<open>startProvider\<close> has made; the next one
    gets this number as its serial number;
  \<^item> \<open>launched\<close>: the \<^verbatim>\<open>startAccount\<close> calls that have returned their promise, each with the
    serial number of its controller, in order. Such a call has started one connection
    task;
  \<^item> \<open>settled\<close>: the serial numbers of the tasks whose tracked promise has settled, that
    is, whose \<^verbatim>\<open>.catch\<close> and \<^verbatim>\<open>.finally\<close> handlers have run;
  \<^item> \<open>aborted\<close>: the serial numbers of the controllers \<^verbatim>\<open>abort()\<close> was called on.
\<close>

record manager =
  stores :: "provider_id \<Rightarrow> store"
  controllers :: nat
  launched :: "(nat \<times> provider_id \<times> account_id) list"
  settled :: "nat list"
  aborted :: "nat list"

definition initial_manager :: manager where
  "initial_manager =
     \<lparr> stores = (\<lambda>p. createRuntimeStore), controllers = 0, launched = [], settled = [], aborted = [] \<rparr>"

text \<open>The live tasks: started and not yet settled.\<close>

definition live :: "manager \<Rightarrow> (nat \<times> provider_id \<times> account_id) list" where
  "live m = filter (\<lambda>(n, p, a). n \<notin> set (settled m)) (launched m)"

definition update_store :: "provider_id \<Rightarrow> (store \<Rightarrow> store) \<Rightarrow> manager \<Rightarrow> manager" where
  "update_store providerId f m = m\<lparr>stores := (stores m)(providerId := f (stores m providerId))\<rparr>"

definition getRuntime :: "provider_id \<Rightarrow> account_id \<Rightarrow> manager \<Rightarrow> snapshot" where
  "getRuntime providerId a m =
     (case map_of (runtimes (stores m providerId)) a of
        Some s \<Rightarrow> s
      | None \<Rightarrow> cloneDefaultRuntime providerId a)"

definition setRuntime :: "provider_id \<Rightarrow> account_id \<Rightarrow> snapshot \<Rightarrow> manager \<Rightarrow> manager" where
  "setRuntime providerId a p m =
     update_store providerId
       (\<lambda>s. s\<lparr>runtimes := AList.update a (merge_snapshot (getRuntime providerId a m) p a) (runtimes s)\<rparr>) m"

subsection \<open>Configuration, accounts and plugins\<close>

text \<open>
  \<^verbatim>\<open>ClawdbotConfig\<close>, as far as the manager itself reads it: \<^verbatim>\<open>cfg.web?.enabled\<close>. The rest of
  the configuration is the record's extension, read by the plugins only.
\<close>

record config =
  web_enabled :: "bool option"

text \<open>
  What \<^verbatim>\<open>resolveAccount\<close> returns, as \<^verbatim>\<open>isAccountEnabled\<close> sees it: something that is not an
  object, or an object with an optional \<^verbatim>\<open>enabled\<close> key and provider-specific content.
\<close>

datatype 'a account = NoObject | AccountObject "bool option" 'a

fun isAccountEnabled :: "'a account \<Rightarrow> bool" where
  "isAccountEnabled NoObject = True"
| "isAccountEnabled (AccountObject enabled x) = (enabled \<noteq> Some False)"

text \<open>
  \<^verbatim>\<open>ProviderPlugin\<close>, the part the manager uses. The configuration readers are synchronous
  functions of the configuration. \<^verbatim>\<open>isConfigured\<close> (\<^verbatim>\<open>boolean | Promise<boolean>\<close>) and
  \<^verbatim>\<open>gateway.stopAccount\<close> are awaited and can reject. \<^verbatim>\<open>gateway.startAccount\<close> is called
  outside any \<^verbatim>\<open>try\<close>: either the call itself throws (\<open>Inl\<close>), or it returns the promise
  that is the connection task (\<open>Inr\<close>); how that promise settles is decided by the world,
  later (\<open>task_outcome\<close> below). The seven registered plugins declare \<^verbatim>\<open>startAccount\<close> as
  \<^verbatim>\<open>async\<close>, so theirs never throws; its type, \<^verbatim>\<open>(ctx) => Promise<unknown>\<close>, admits one that
  does. Of \<^verbatim>\<open>describeAccount\<close> only the \<^verbatim>\<open>configured\<close> key of its result is read.
\<close>

record ('z, 'a) plugin =
  plugin_id :: provider_id
  listAccountIds :: "'z config_scheme \<Rightarrow> account_id list"
  resolveAccount :: "'z config_scheme \<Rightarrow> account_id \<Rightarrow> 'a account"
  defaultAccountId :: "('z config_scheme \<Rightarrow> account_id) option"
  isConfigured :: "('a account \<Rightarrow> 'z config_scheme \<Rightarrow> js_error + bool) option"
  describeAccount :: "('a account \<Rightarrow> 'z config_scheme \<Rightarrow> bool option) option"
  startAccount :: "('z config_scheme \<Rightarrow> account_id \<Rightarrow> 'a account \<Rightarrow> js_error + unit) option"
  stopAccount :: "('z config_scheme \<Rightarrow> account_id \<Rightarrow> 'a account \<Rightarrow> js_error + unit) option"

text \<open>\<^verbatim>\<open>getProviderPlugin\<close>: \<^verbatim>\<open>PROVIDERS.find((plugin) => plugin.id === id)\<close>.\<close>

definition getProviderPlugin :: "('z, 'a) plugin list \<Rightarrow> provider_id \<Rightarrow> ('z, 'a) plugin option" where
  "getProviderPlugin PROVIDERS providerId = find (\<lambda>p. plugin_id p = providerId) PROVIDERS"

text \<open>
  \<^verbatim>\<open>listProviderPlugins\<close>: a stable sort by \<^verbatim>\<open>meta.order\<close> (or the position in
  \<^verbatim>\<open>CHAT_PROVIDER_ORDER\<close>, or 999), then by \<^verbatim>\<open>id.localeCompare\<close>. The order number of a plugin
  comes from \<^verbatim>\<open>providers/registry.ts\<close> and is the parameter \<open>order\<close>; \<open>id_rank\<close> is the
  alphabetical position of the id.
\<close>

definition id_rank :: "provider_id \<Rightarrow> nat" where
  "id_rank p =
     (case p of Discord \<Rightarrow> 0 | Imessage \<Rightarrow> 1 | Msteams \<Rightarrow> 2 | Signal \<Rightarrow> 3 | Slack \<Rightarrow> 4
      | Telegram \<Rightarrow> 5 | Whatsapp \<Rightarrow> 6)"

definition listProviderPlugins :: "(provider_id \<Rightarrow> nat) \<Rightarrow> ('z, 'a) plugin list \<Rightarrow> ('z, 'a) plugin list" where
  "listProviderPlugins order PROVIDERS =
     sort_key (\<lambda>p. order (plugin_id p) * 7 + id_rank (plugin_id p)) PROVIDERS"

text \<open>
  The \<^verbatim>\<open>enabled\<close> test of \<^verbatim>\<open>startProvider\<close> and \<^verbatim>\<open>getRuntimeSnapshot\<close>: the account's own flag, and
  for WhatsApp the global \<^verbatim>\<open>web.enabled\<close>.
\<close>

definition account_enabled :: "'z config_scheme \<Rightarrow> provider_id \<Rightarrow> 'a account \<Rightarrow> bool" where
  "account_enabled cfg providerId account \<longleftrightarrow>
     isAccountEnabled account \<and> \<not> (providerId = Whatsapp \<and> web_enabled cfg = Some False)"

subsection \<open>\<^verbatim>\<open>startProvider\<close>\<close>

text \<open>
  From \<^verbatim>\<open>new AbortController()\<close> to the \<^verbatim>\<open>setRuntime\<close> call before \<^verbatim>\<open>startAccount\<close>: the
  controller is made and stored, and the snapshot says \<^verbatim>\<open>running: true\<close>. \<open>now\<close> is what
  \<^verbatim>\<open>Date.now()\<close> returns.
\<close>

definition begin_launch :: "provider_id \<Rightarrow> account_id \<Rightarrow> nat \<Rightarrow> manager \<Rightarrow> manager" where
  "begin_launch providerId a now m =
     (let n = controllers m;
          m1 = update_store providerId (\<lambda>s. s\<lparr>aborts := AList.update a n (aborts s)\<rparr>) (m\<lparr>controllers := Suc n\<rparr>)
      in setRuntime providerId a
           ((patch a)\<lparr>running := Some True, lastStartAt := Some (Val now), lastError := Some Null\<rparr>) m1)"

text \<open>
  \<^verbatim>\<open>startAccount\<close> has returned the task's promise: the tracked promise is built on it and
  stored with \<^verbatim>\<open>store.tasks.set(id, tracked)\<close>. \<open>n\<close> is the serial number of the controller
  whose signal the task was given.
\<close>

definition register_task :: "provider_id \<Rightarrow> account_id \<Rightarrow> nat \<Rightarrow> manager \<Rightarrow> manager" where
  "register_task providerId a n m =
     update_store providerId (\<lambda>s. s\<lparr>tasks := AList.update a n (tasks s)\<rparr>)
       (m\<lparr>launched := launched m @ [(n, providerId, a)]\<rparr>)"

text \<open>
  From \<^verbatim>\<open>new AbortController()\<close> to \<^verbatim>\<open>store.tasks.set(id, tracked)\<close> when \<^verbatim>\<open>startAccount\<close>
  returns: the connection is started and registered.
\<close>

definition launch :: "provider_id \<Rightarrow> account_id \<Rightarrow> nat \<Rightarrow> manager \<Rightarrow> manager" where
  "launch providerId a now m = register_task providerId a (controllers m) (begin_launch providerId a now m)"

text \<open>
  The same lines for either outcome of the \<^verbatim>\<open>startAccount\<close> call, \<open>called\<close>. When the call
  throws, the callback is left with the controller stored and the snapshot at
  \<^verbatim>\<open>running: true\<close>, and there is no task.
\<close>

definition start_connection ::
  "js_error + unit \<Rightarrow> provider_id \<Rightarrow> account_id \<Rightarrow> nat \<Rightarrow> manager \<Rightarrow> js_error option \<times> manager" where
  "start_connection called providerId a now m =
     (case called of
        Inl e \<Rightarrow> (Some e, begin_launch providerId a now m)
      | Inr u \<Rightarrow> (None, launch providerId a now m))"

text \<open>
  How far an \<^verbatim>\<open>async\<close> callback gets in the turn in which it is called: it returns, it
  throws (its promise is rejected), or it reaches an \<^verbatim>\<open>await\<close> and waits there, to be
  resumed in a later turn; \<open>'x\<close> is what the resumed callback needs.
\<close>

datatype 'x callback = Returned | Threw js_error | Awaits 'x

text \<open>
  The per-account callback of \<^verbatim>\<open>startProvider\<close> up to
  \<^verbatim>\<open>await plugin.config.isConfigured(account, cfg)\<close>. A callback that waits there is
  described by its account and the answer its promise will give. A plugin without
  \<^verbatim>\<open>isConfigured\<close> has no \<^verbatim>\<open>await\<close> here and the callback runs on to the end. \<open>start\<close> is the
  plugin's \<^verbatim>\<open>startAccount\<close>, read once at the top of \<^verbatim>\<open>startProvider\<close>.
\<close>

definition start_account_begin ::
  "('z, 'a) plugin \<Rightarrow> ('z config_scheme \<Rightarrow> account_id \<Rightarrow> 'a account \<Rightarrow> js_error + unit) \<Rightarrow>
   'z config_scheme \<Rightarrow> (account_id \<Rightarrow> nat) \<Rightarrow> provider_id \<Rightarrow> account_id \<Rightarrow> manager \<Rightarrow>
   (account_id \<times> (js_error + bool)) callback \<times> manager" where
  "start_account_begin plugin start cfg now providerId a m =
     (if map_of (tasks (stores m providerId)) a \<noteq> None then (Returned, m)
      else
        (let account = resolveAccount plugin cfg a in
         if \<not> account_enabled cfg providerId account
         then (Returned, setRuntime providerId a
                           ((patch a)\<lparr>running := Some False, lastError := Some (Val ''disabled'')\<rparr>) m)
         else
           (case isConfigured plugin of
              None \<Rightarrow>
                (case start_connection (start cfg a account) providerId a (now a) m of
                   (None, m1) \<Rightarrow> (Returned, m1)
                 | (Some e, m1) \<Rightarrow> (Threw e, m1))
            | Some f \<Rightarrow> (Awaits (a, f account cfg), m))))"

text \<open>
  The rest of the callback, once the promise has settled. Nothing is tested again: not
  whether a task has been registered for the account in the meantime.
\<close>

definition start_account_resume ::
  "('z, 'a) plugin \<Rightarrow> ('z config_scheme \<Rightarrow> account_id \<Rightarrow> 'a account \<Rightarrow> js_error + unit) \<Rightarrow>
   'z config_scheme \<Rightarrow> (account_id \<Rightarrow> nat) \<Rightarrow> provider_id \<Rightarrow> account_id \<times> (js_error + bool) \<Rightarrow> manager \<Rightarrow>
   js_error option \<times> manager" where
  "start_account_resume plugin start cfg now providerId w m =
     (case w of
        (a, Inl e) \<Rightarrow> (Some e, m)
      | (a, Inr configured) \<Rightarrow>
          if \<not> configured
          then (None, setRuntime providerId a
                        ((patch a)\<lparr>running := Some False,
                                   lastError := Some (Val (if providerId = Whatsapp then ''not linked''
                                                           else ''not configured''))\<rparr>) m)
          else start_connection (start cfg a (resolveAccount plugin cfg a)) providerId a (now a) m)"

text \<open>
  \<^verbatim>\<open>accountIds.map(async (id) => ...)\<close> calls every callback in list order, and each runs up
  to its first \<^verbatim>\<open>await\<close>. The result: the callbacks that wait, the first error thrown (if
  any), and the state.
\<close>

fun start_begin_all ::
  "('z, 'a) plugin \<Rightarrow> ('z config_scheme \<Rightarrow> account_id \<Rightarrow> 'a account \<Rightarrow> js_error + unit) \<Rightarrow>
   'z config_scheme \<Rightarrow> (account_id \<Rightarrow> nat) \<Rightarrow> provider_id \<Rightarrow> account_id list \<Rightarrow> manager \<Rightarrow>
   (account_id \<times> (js_error + bool)) list \<times> js_error option \<times> manager" where
  "start_begin_all plugin start cfg now providerId [] m = ([], None, m)"
| "start_begin_all plugin start cfg now providerId (a # as) m =
     (case start_account_begin plugin start cfg now providerId a m of
        (c, m1) \<Rightarrow>
          (case start_begin_all plugin start cfg now providerId as m1 of
             (ws, e, m2) \<Rightarrow>
               ((case c of Awaits w \<Rightarrow> w # ws | _ \<Rightarrow> ws),
                (case c of Threw x \<Rightarrow> Some x | _ \<Rightarrow> e),
                m2)))"

text \<open>The account ids of a call: an absent or empty \<^verbatim>\<open>accountId\<close> is falsy and means every account
  of the provider.\<close>

definition start_accountIds :: "('z, 'a) plugin \<Rightarrow> 'z config_scheme \<Rightarrow> account_id option \<Rightarrow> account_id list" where
  "start_accountIds plugin cfg a =
     (case a of
        None \<Rightarrow> listAccountIds plugin cfg
      | Some x \<Rightarrow> if x = '''' then listAccountIds plugin cfg else [x])"

text \<open>
  \<^verbatim>\<open>startProvider(providerId, accountId?)\<close> in the turn in which it is called, up to
  \<^verbatim>\<open>await Promise.all(...)\<close>. \<open>cfg\<close> is what \<^verbatim>\<open>loadConfig()\<close> returns for this call.
\<close>

definition startProvider_called ::
  "('z, 'a) plugin list \<Rightarrow> 'z config_scheme \<Rightarrow> (account_id \<Rightarrow> nat) \<Rightarrow> provider_id \<Rightarrow> account_id option \<Rightarrow> manager \<Rightarrow>
   (account_id \<times> (js_error + bool)) list \<times> js_error option \<times> manager" where
  "startProvider_called PROVIDERS cfg now providerId a m =
     (case getProviderPlugin PROVIDERS providerId of
        None \<Rightarrow> ([], None, m)
      | Some plugin \<Rightarrow>
          (case startAccount plugin of
             None \<Rightarrow> ([], None, m)
           | Some start \<Rightarrow>
               (let accountIds = start_accountIds plugin cfg a
                in if accountIds = [] then ([], None, m)
                   else start_begin_all plugin start cfg now providerId accountIds m)))"

text \<open>One waiting callback of a \<^verbatim>\<open>startProvider\<close> call for provider \<open>providerId\<close>, resumed.\<close>

definition startProvider_resumed ::
  "('z, 'a) plugin list \<Rightarrow> 'z config_scheme \<Rightarrow> (account_id \<Rightarrow> nat) \<Rightarrow> provider_id \<Rightarrow>
   account_id \<times> (js_error + bool) \<Rightarrow> manager \<Rightarrow> js_error option \<times> manager" where
  "startProvider_resumed PROVIDERS cfg now providerId w m =
     (case getProviderPlugin PROVIDERS providerId of
        None \<Rightarrow> (None, m)
      | Some plugin \<Rightarrow>
          (case startAccount plugin of
             None \<Rightarrow> (None, m)
           | Some start \<Rightarrow> start_account_resume plugin start cfg now providerId w m))"

text \<open>
  The waiting callbacks of one call resumed one after the other, in list order, with
  nothing else in between. \<^verbatim>\<open>Promise.all\<close> rejects with the first rejection, and the other
  callbacks run on all the same.
\<close>

fun start_resume_all ::
  "('z, 'a) plugin list \<Rightarrow> 'z config_scheme \<Rightarrow> (account_id \<Rightarrow> nat) \<Rightarrow> provider_id \<Rightarrow>
   (account_id \<times> (js_error + bool)) list \<Rightarrow> manager \<Rightarrow> js_error option \<times> manager" where
  "start_resume_all PROVIDERS cfg now providerId [] m = (None, m)"
| "start_resume_all PROVIDERS cfg now providerId (w # ws) m =
     (case startProvider_resumed PROVIDERS cfg now providerId w m of
        (e, m1) \<Rightarrow>
          (case start_resume_all PROVIDERS cfg now providerId ws m1 of
             (e', m2) \<Rightarrow> ((case e of None \<Rightarrow> e' | Some x \<Rightarrow> Some x), m2)))"

text \<open>
  A \<^verbatim>\<open>startProvider\<close> call during which nothing else happens to the manager: the turn of
  the call, then its waiting callbacks. The promise rejects with the first error (a
  throw in the turn of the call comes before a rejection after an \<^verbatim>\<open>await\<close>).
\<close>

definition startProvider ::
  "('z, 'a) plugin list \<Rightarrow> 'z config_scheme \<Rightarrow> (account_id \<Rightarrow> nat) \<Rightarrow> provider_id \<Rightarrow> account_id option \<Rightarrow> manager \<Rightarrow>
   (js_error + unit) \<times> manager" where
  "startProvider PROVIDERS cfg now providerId a m =
     (case startProvider_called PROVIDERS cfg now providerId a m of
        (ws, e1, m1) \<Rightarrow>
          (case start_resume_all PROVIDERS cfg now providerId ws m1 of
             (e2, m2) \<Rightarrow>
               (case (case e1 of None \<Rightarrow> e2 | Some x \<Rightarrow> Some x) of
                  None \<Rightarrow> (Inr (), m2)
                | Some e \<Rightarrow> (Inl e, m2))))"

subsection \<open>Task settlement\<close>

text \<open>How a connection task ends: its promise is fulfilled, or rejected with an error.\<close>

datatype task_outcome = Fulfilled | Rejected js_error

text \<open>
  The \<^verbatim>\<open>.catch\<close> and \<^verbatim>\<open>.finally\<close> handlers of the tracked promise of a task of account
  \<open>a\<close>. \<^verbatim>\<open>formatErrorMessage\<close> (\<^verbatim>\<open>infra/errors.ts\<close>) is the parameter \<open>fmt\<close>. The
  \<^verbatim>\<open>log.error\<close> call changes nothing the manager reads.
\<close>

definition tracked_handlers ::
  "(js_error \<Rightarrow> string) \<Rightarrow> nat \<Rightarrow> provider_id \<Rightarrow> account_id \<Rightarrow> task_outcome \<Rightarrow> manager \<Rightarrow> manager" where
  "tracked_handlers fmt now providerId a outcome m =
     (let m1 = (case outcome of
                  Fulfilled \<Rightarrow> m
                | Rejected err \<Rightarrow> setRuntime providerId a ((patch a)\<lparr>lastError := Some (Val (fmt err))\<rparr>) m);
          m2 = update_store providerId
                 (\<lambda>s. s\<lparr>aborts := AList.delete a (aborts s), tasks := AList.delete a (tasks s)\<rparr>) m1
      in setRuntime providerId a ((patch a)\<lparr>running := Some False, lastStopAt := Some (Val now)\<rparr>) m2)"

text \<open>
  Task \<open>n\<close> settles and its handlers run. A task settles once: for a serial number that
  is not live nothing happens.
\<close>

definition settle_task :: "(js_error \<Rightarrow> string) \<Rightarrow> nat \<Rightarrow> nat \<Rightarrow> task_outcome \<Rightarrow> manager \<Rightarrow> manager" where
  "settle_task fmt now n outcome m =
     (case find (\<lambda>(k, p, a). k = n) (live m) of
        None \<Rightarrow> m
      | Some (k, providerId, a) \<Rightarrow>
          (tracked_handlers fmt now providerId a outcome m)\<lparr>settled := settled m @ [n]\<rparr>)"

subsection \<open>\<^verbatim>\<open>stopProvider\<close>\<close>

text \<open>The elements of a list in the order of their first occurrence, as \<^verbatim>\<open>new Set([...])\<close> keeps them.\<close>

definition first_occurrences :: "'a list \<Rightarrow> 'a list" where
  "first_occurrences xs = rev (remdups (rev xs))"

text \<open>
  What the world answers while \<^verbatim>\<open>stopProvider\<close> waits for an account: how the cancelled
  task settles, when its handlers run, and what \<^verbatim>\<open>Date.now()\<close> returns afterwards. The
  plugin contract has a cancelled task settle; a task that never does leaves
  \<^verbatim>\<open>stopProvider\<close> waiting, which is outside this model.
\<close>

record stop_answers =
  task_ends :: task_outcome
  handlers_at :: nat
  stopped_at :: nat

text \<open>
  The per-account callback of \<^verbatim>\<open>stopProvider\<close>. \<^verbatim>\<open>await task\<close> waits for the tracked promise,
  whose own handlers run first; whatever it brings is ignored.
\<close>

definition stop_account ::
  "('z, 'a) plugin option \<Rightarrow> 'z config_scheme \<Rightarrow> (js_error \<Rightarrow> string) \<Rightarrow> (account_id \<Rightarrow> stop_answers) \<Rightarrow>
   provider_id \<Rightarrow> account_id \<Rightarrow> manager \<Rightarrow> js_error option \<times> manager" where
  "stop_account plugin cfg fmt answers providerId a m =
     (let abort = map_of (aborts (stores m providerId)) a;
          task = map_of (tasks (stores m providerId)) a;
          hook = (case plugin of None \<Rightarrow> None | Some p \<Rightarrow> map_option (\<lambda>f. f cfg a (resolveAccount p cfg a)) (stopAccount p))
      in if abort = None \<and> task = None \<and> hook = None then (None, m)
         else
           (let m1 = (case abort of None \<Rightarrow> m | Some n \<Rightarrow> m\<lparr>aborted := aborted m @ [n]\<rparr>) in
            case hook of
              Some (Inl e) \<Rightarrow> (Some e, m1)
            | _ \<Rightarrow>
                (let m2 = (case task of
                             None \<Rightarrow> m1
                           | Some n \<Rightarrow> settle_task fmt (handlers_at (answers a)) n (task_ends (answers a)) m1);
                     m3 = update_store providerId
                            (\<lambda>s. s\<lparr>aborts := AList.delete a (aborts s), tasks := AList.delete a (tasks s)\<rparr>) m2
                 in (None, setRuntime providerId a
                             ((patch a)\<lparr>running := Some False,
                                        lastStopAt := Some (Val (stopped_at (answers a)))\<rparr>) m3))))"

text \<open>
  \<^verbatim>\<open>Promise.all\<close> over the known ids. The ids come from a \<^verbatim>\<open>Set\<close> and are distinct, and a
  callback touches the entries of its own id only, so the callbacks are run one after
  the other, in the order of the ids.
\<close>

fun stop_all ::
  "('z, 'a) plugin option \<Rightarrow> 'z config_scheme \<Rightarrow> (js_error \<Rightarrow> string) \<Rightarrow> (account_id \<Rightarrow> stop_answers) \<Rightarrow>
   provider_id \<Rightarrow> account_id list \<Rightarrow> manager \<Rightarrow> js_error option \<times> manager" where
  "stop_all plugin cfg fmt answers providerId [] m = (None, m)"
| "stop_all plugin cfg fmt answers providerId (a # as) m =
     (case stop_account plugin cfg fmt answers providerId a m of
        (e, m1) \<Rightarrow>
          (case stop_all plugin cfg fmt answers providerId as m1 of
             (e', m2) \<Rightarrow> ((case e of None \<Rightarrow> e' | Some x \<Rightarrow> Some x), m2)))"

definition stopProvider ::
  "('z, 'a) plugin list \<Rightarrow> 'z config_scheme \<Rightarrow> (js_error \<Rightarrow> string) \<Rightarrow> (account_id \<Rightarrow> stop_answers) \<Rightarrow>
   provider_id \<Rightarrow> account_id option \<Rightarrow> manager \<Rightarrow> (js_error + unit) \<times> manager" where
  "stopProvider PROVIDERS cfg fmt answers providerId a m =
     (let plugin = getProviderPlugin PROVIDERS providerId;
          s = stores m providerId;
          allIds = first_occurrences
                     (map fst (aborts s) @ map fst (tasks s) @
                      (case plugin of None \<Rightarrow> [] | Some p \<Rightarrow> listAccountIds p cfg));
          knownIds = (case a of None \<Rightarrow> allIds | Some x \<Rightarrow> if x = '''' then allIds else [x])
      in case stop_all plugin cfg fmt answers providerId knownIds m of
           (None, m') \<Rightarrow> (Inr (), m')
         | (Some e, m') \<Rightarrow> (Inl e, m'))"

text \<open>
  The same callback cut at its \<^verbatim>\<open>await\<close>s, for calls that overlap with other operations.
  First the turn of the call, up to \<^verbatim>\<open>await plugin.gateway.stopAccount(...)\<close> or, without a
  hook, \<^verbatim>\<open>await task\<close>: a callback that goes on to wait for the task is described by the
  task it waits for (\<^verbatim>\<open>undefined\<close> when none is registered).
\<close>

definition stop_account_called ::
  "('z, 'a) plugin option \<Rightarrow> 'z config_scheme \<Rightarrow> provider_id \<Rightarrow> account_id \<Rightarrow> manager \<Rightarrow>
   (nat option) callback \<times> manager" where
  "stop_account_called plugin cfg providerId a m =
     (let abort = map_of (aborts (stores m providerId)) a;
          task = map_of (tasks (stores m providerId)) a;
          hook = (case plugin of None \<Rightarrow> None | Some p \<Rightarrow> map_option (\<lambda>f. f cfg a (resolveAccount p cfg a)) (stopAccount p))
      in if abort = None \<and> task = None \<and> hook = None then (Returned, m)
         else
           (let m1 = (case abort of None \<Rightarrow> m | Some n \<Rightarrow> m\<lparr>aborted := aborted m @ [n]\<rparr>) in
            case hook of
              Some (Inl e) \<Rightarrow> (Threw e, m1)
            | _ \<Rightarrow> (Awaits task, m1)))"

text \<open>The lines after \<^verbatim>\<open>await task\<close>: the entries of the account are deleted and the snapshot is
  set to \<^verbatim>\<open>running: false\<close>.\<close>

definition stop_account_resumed :: "provider_id \<Rightarrow> account_id \<Rightarrow> nat \<Rightarrow> manager \<Rightarrow> manager" where
  "stop_account_resumed providerId a now m =
     setRuntime providerId a ((patch a)\<lparr>running := Some False, lastStopAt := Some (Val now)\<rparr>)
       (update_store providerId
          (\<lambda>s. s\<lparr>aborts := AList.delete a (aborts s), tasks := AList.delete a (tasks s)\<rparr>) m)"

fun stop_called_all ::
  "('z, 'a) plugin option \<Rightarrow> 'z config_scheme \<Rightarrow> provider_id \<Rightarrow> account_id list \<Rightarrow> manager \<Rightarrow>
   (account_id \<times> nat option) list \<times> js_error option \<times> manager" where
  "stop_called_all plugin cfg providerId [] m = ([], None, m)"
| "stop_called_all plugin cfg providerId (a # as) m =
     (case stop_account_called plugin cfg providerId a m of
        (c, m1) \<Rightarrow>
          (case stop_called_all plugin cfg providerId as m1 of
             (ws, e, m2) \<Rightarrow>
               ((case c of Awaits t \<Rightarrow> (a, t) # ws | _ \<Rightarrow> ws),
                (case c of Threw x \<Rightarrow> Some x | _ \<Rightarrow> e),
                m2)))"

text \<open>\<^verbatim>\<open>stopProvider(providerId, accountId?)\<close> in the turn in which it is called.\<close>

definition stopProvider_called ::
  "('z, 'a) plugin list \<Rightarrow> 'z config_scheme \<Rightarrow> provider_id \<Rightarrow> account_id option \<Rightarrow> manager \<Rightarrow>
   (account_id \<times> nat option) list \<times> js_error option \<times> manager" where
  "stopProvider_called PROVIDERS cfg providerId a m =
     (let plugin = getProviderPlugin PROVIDERS providerId;
          s = stores m providerId;
          allIds = first_occurrences
                     (map fst (aborts s) @ map fst (tasks s) @
                      (case plugin of None \<Rightarrow> [] | Some p \<Rightarrow> listAccountIds p cfg));
          knownIds = (case a of None \<Rightarrow> allIds | Some x \<Rightarrow> if x = '''' then allIds else [x])
      in stop_called_all plugin cfg providerId knownIds m)"

subsection \<open>\<^verbatim>\<open>startProviders\<close>, \<^verbatim>\<open>markWhatsAppLoggedOut\<close>, \<^verbatim>\<open>getRuntimeSnapshot\<close>\<close>

text \<open>
  The loop of \<^verbatim>\<open>startProviders\<close>: \<^verbatim>\<open>await startProvider(plugin.id)\<close> for each plugin in turn; a
  rejection leaves the loop. While it waits for one provider, tasks that are already
  running may settle: \<open>between p\<close> lists the tasks (with outcome and time) whose handlers
  run after provider \<open>p\<close> has been started and before the next one is.
\<close>

fun settle_all :: "(js_error \<Rightarrow> string) \<Rightarrow> (nat \<times> task_outcome \<times> nat) list \<Rightarrow> manager \<Rightarrow> manager" where
  "settle_all fmt [] m = m"
| "settle_all fmt ((n, outcome, now) # xs) m = settle_all fmt xs (settle_task fmt now n outcome m)"



text \<open>
  \<^verbatim>\<open>markWhatsAppLoggedOut(cleared, accountId?)\<close>. \<open>defaultId\<close> is what
  \<^verbatim>\<open>resolveDefaultWhatsAppAccountId(cfg)\<close> (\<^verbatim>\<open>web/accounts.ts\<close>) returns. The patch always has
  the key \<^verbatim>\<open>lastError\<close>; when it repeats an absent \<^verbatim>\<open>current.lastError\<close> the key reads as
  \<^verbatim>\<open>undefined\<close>, as an absent key does.
\<close>

definition markWhatsAppLoggedOut :: "account_id \<Rightarrow> bool \<Rightarrow> account_id option \<Rightarrow> manager \<Rightarrow> manager" where
  "markWhatsAppLoggedOut defaultId cleared a m =
     (let resolvedId = (case a of None \<Rightarrow> defaultId | Some x \<Rightarrow> x);
          current = getRuntime Whatsapp resolvedId m
      in setRuntime Whatsapp resolvedId
           ((patch resolvedId)\<lparr>running := Some False, connected := Some False,
                                lastError := (if cleared then Some (Val ''logged out'') else lastError current)\<rparr>) m)"

text \<open>\<^verbatim>\<open>next.lastError ??= msg\<close>.\<close>

definition nullish_assign_lastError :: "string \<Rightarrow> snapshot \<Rightarrow> snapshot" where
  "nullish_assign_lastError msg s =
     (case lastError s of Some (Val x) \<Rightarrow> s | _ \<Rightarrow> s\<lparr>lastError := Some (Val msg)\<rparr>)"

text \<open>The snapshot \<^verbatim>\<open>getRuntimeSnapshot\<close> reports for one configured account.\<close>

definition account_view :: "('z, 'a) plugin \<Rightarrow> 'z config_scheme \<Rightarrow> manager \<Rightarrow> account_id \<Rightarrow> snapshot" where
  "account_view plugin cfg m a =
     (let account = resolveAccount plugin cfg a;
          enabled = account_enabled cfg (plugin_id plugin) account;
          configured = (case describeAccount plugin of None \<Rightarrow> None | Some d \<Rightarrow> d account cfg);
          next = (getRuntime (plugin_id plugin) a m)\<lparr>accountId := a\<rparr>
      in if running next \<noteq> Some True
         then (if \<not> enabled then nullish_assign_lastError ''disabled'' next
               else if configured = Some False then nullish_assign_lastError ''not configured'' next
               else next)
         else next)"

text \<open>
  \<^verbatim>\<open>getRuntimeSnapshot\<close>: for each plugin its id, the snapshot of its default account, and
  the snapshots of its configured accounts by id. The object \<^verbatim>\<open>accounts\<close> is a map from
  account ids to snapshots; the order in which its keys are enumerated is not part of the
  model, and neither are ids that name members of \<^verbatim>\<open>Object.prototype\<close>. The manager's state
  is only read.
\<close>

definition plugin_view ::
  "('z, 'a) plugin \<Rightarrow> 'z config_scheme \<Rightarrow> manager \<Rightarrow> provider_id \<times> snapshot \<times> (account_id \<rightharpoonup> snapshot)" where
  "plugin_view plugin cfg m =
     (let accountIds = listAccountIds plugin cfg;
          defaultId = (case defaultAccountId plugin of
                         Some f \<Rightarrow> f cfg
                       | None \<Rightarrow> (case accountIds of [] \<Rightarrow> DEFAULT_ACCOUNT_ID | x # xs \<Rightarrow> x));
          accounts = fold (\<lambda>a acc. acc(a \<mapsto> account_view plugin cfg m a)) accountIds Map.empty
      in (plugin_id plugin,
          (case accounts defaultId of
             Some s \<Rightarrow> s
           | None \<Rightarrow> cloneDefaultRuntime (plugin_id plugin) defaultId),
          accounts))"

definition getRuntimeSnapshot ::
  "(provider_id \<Rightarrow> nat) \<Rightarrow> ('z, 'a) plugin list \<Rightarrow> 'z config_scheme \<Rightarrow> manager \<Rightarrow>
   (provider_id \<times> snapshot \<times> (account_id \<rightharpoonup> snapshot)) list" where
  "getRuntimeSnapshot order PROVIDERS cfg m =
     map (\<lambda>plugin. plugin_view plugin cfg m) (listProviderPlugins order PROVIDERS)"

subsection \<open>Reading the store\<close>

text \<open>\<^verbatim>\<open>store.tasks.get(id)\<close> and \<^verbatim>\<open>store.aborts.get(id)\<close> for the store of a provider.\<close>

definition task_handle :: "manager \<Rightarrow> provider_id \<Rightarrow> account_id \<Rightarrow> nat option" where
  "task_handle m providerId a = map_of (tasks (stores m providerId)) a"

definition abort_handle :: "manager \<Rightarrow> provider_id \<Rightarrow> account_id \<Rightarrow> nat option" where
  "abort_handle m providerId a = map_of (aborts (stores m providerId)) a"

text \<open>
  Serial numbers are given out once: the tasks started have distinct serial numbers, all
  from controllers already made, and only tasks that were started have settled.
\<close>

definition well_formed :: "manager \<Rightarrow> bool" where
  "well_formed m \<longleftrightarrow>
     distinct (map fst (launched m)) \<and> (\<forall>n \<in> set (map fst (launched m)). n < controllers m) \<and>
     (\<forall>n \<in> set (settled m). n < controllers m)"

text \<open>
  The account can be started under \<open>cfg\<close>: it is enabled, the plugin's \<^verbatim>\<open>isConfigured\<close>,
  when it has one, answers \<^verbatim>\<open>true\<close>, and the plugin's \<^verbatim>\<open>startAccount\<close> returns its promise.
\<close>

definition startable :: "('z, 'a) plugin \<Rightarrow> 'z config_scheme \<Rightarrow> account_id \<Rightarrow> bool" where
  "startable plugin cfg a \<longleftrightarrow>
     account_enabled cfg (plugin_id plugin) (resolveAccount plugin cfg a) \<and>
     (case isConfigured plugin of None \<Rightarrow> True | Some f \<Rightarrow> f (resolveAccount plugin cfg a) cfg = Inr True) \<and>
     (case startAccount plugin of None \<Rightarrow> False | Some start \<Rightarrow> start cfg a (resolveAccount plugin cfg a) = Inr ())"

text \<open>The live tasks of one account.\<close>

definition live_tasks_of :: "manager \<Rightarrow> provider_id \<Rightarrow> account_id \<Rightarrow> (nat \<times> provider_id \<times> account_id) list" where
  "live_tasks_of m providerId a = filter (\<lambda>(n, p, b). p = providerId \<and> b = a) (live m)"

text \<open>What the plugin's \<^verbatim>\<open>stopAccount\<close> hook answers for the account, when the plugin has one.\<close>

definition stop_hook :: "('z, 'a) plugin list \<Rightarrow> 'z config_scheme \<Rightarrow> provider_id \<Rightarrow> account_id \<Rightarrow> (js_error + unit) option" where
  "stop_hook PROVIDERS cfg p a =
     (case getProviderPlugin PROVIDERS p of
        None \<Rightarrow> None
      | Some plugin \<Rightarrow> map_option (\<lambda>f. f cfg a (resolveAccount plugin cfg a)) (stopAccount plugin))"

text \<open>\<^verbatim>\<open>abort?.abort()\<close>: the controller of the account, if it has one, is aborted.\<close>

definition abort_signalled :: "provider_id \<Rightarrow> account_id \<Rightarrow> manager \<Rightarrow> manager" where
  "abort_signalled p a m = (case abort_handle m p a of None \<Rightarrow> m | Some k \<Rightarrow> m\<lparr>aborted := aborted m @ [k]\<rparr>)"

subsection \<open>The manager turn by turn\<close>

text \<open>
  \<^verbatim>\<open>startProvider\<close> and \<^verbatim>\<open>stopProvider\<close> are \<^verbatim>\<open>async\<close>: a call runs until its callbacks wait,
  and each callback is resumed in a later turn of the event loop. Between the turns of
  one call anything else can happen to the manager, other calls included. The state of
  the manager together with the callbacks that wait:
  \<^item> \<open>starting\<close>: the callbacks of \<^verbatim>\<open>startProvider\<close> calls that wait at
    \<^verbatim>\<open>await isConfigured\<close>, each with the configuration and provider of its call, its
    account and the answer its promise will give;
  \<^item> \<open>stopping\<close>: the callbacks of \<^verbatim>\<open>stopProvider\<close> calls that wait for the plugin's hook
    and then at \<^verbatim>\<open>await task\<close>, each with its provider, its account and the task it waits
    for.
\<close>

record 'z sched =
  mgr :: manager
  starting :: "('z config_scheme \<times> provider_id \<times> account_id \<times> (js_error + bool)) list"
  stopping :: "(provider_id \<times> account_id \<times> nat option) list"

definition initial_sched :: "'z sched" where
  "initial_sched = \<lparr> mgr = initial_manager, starting = [], stopping = [] \<rparr>"

text \<open>
  One turn that touches the manager, with what the world supplies for it (the
  configuration \<^verbatim>\<open>loadConfig()\<close> returns, the clock, the way a task ends):
  \<^item> a \<^verbatim>\<open>startProvider\<close> call, up to its \<^verbatim>\<open>await\<close>;
  \<^item> the waiting \<^verbatim>\<open>startProvider\<close> callback at position \<open>k\<close> of \<open>starting\<close> is resumed;
  \<^item> a \<^verbatim>\<open>stopProvider\<close> call, up to its \<^verbatim>\<open>await\<close>;
  \<^item> the waiting \<^verbatim>\<open>stopProvider\<close> callback at position \<open>k\<close> of \<open>stopping\<close> is resumed, which
    can only happen once the task it waits for has settled;
  \<^item> a connection task settles and the handlers of its tracked promise run;
  \<^item> \<^verbatim>\<open>markWhatsAppLoggedOut\<close> and \<^verbatim>\<open>getRuntimeSnapshot\<close>, which are synchronous.
  The callbacks \<^verbatim>\<open>getStatus\<close> and \<^verbatim>\<open>setStatus\<close> that a task is handed are the task's to call;
  what plugins do with them is not among the manager's operations.
\<close>

datatype 'z turn =
    StartProviderCalled "'z config_scheme" "account_id \<Rightarrow> nat" provider_id "account_id option"
  | StartResumed nat nat
  | StopProviderCalled "'z config_scheme" provider_id "account_id option"
  | StopResumed nat nat
  | TaskSettles "js_error \<Rightarrow> string" nat nat task_outcome
  | MarkWhatsAppLoggedOut account_id bool "account_id option"
  | GetRuntimeSnapshot "provider_id \<Rightarrow> nat" "'z config_scheme"

definition remove_nth :: "nat \<Rightarrow> 'x list \<Rightarrow> 'x list" where
  "remove_nth k xs = take k xs @ drop (Suc k) xs"

fun take_turn :: "('z, 'a) plugin list \<Rightarrow> 'z turn \<Rightarrow> 'z sched \<Rightarrow> 'z sched" where
  "take_turn PROVIDERS (StartProviderCalled cfg now p a) s =
     (case startProvider_called PROVIDERS cfg now p a (mgr s) of
        (ws, e, m) \<Rightarrow> s\<lparr>mgr := m, starting := starting s @ map (\<lambda>(b, r). (cfg, p, b, r)) ws\<rparr>)"
| "take_turn PROVIDERS (StartResumed k now) s =
     (if k < length (starting s)
      then (case starting s ! k of
              (cfg, p, b, r) \<Rightarrow>
                s\<lparr>mgr := snd (startProvider_resumed PROVIDERS cfg (\<lambda>x. now) p (b, r) (mgr s)),
                  starting := remove_nth k (starting s)\<rparr>)
      else s)"
| "take_turn PROVIDERS (StopProviderCalled cfg p a) s =
     (case stopProvider_called PROVIDERS cfg p a (mgr s) of
        (ws, e, m) \<Rightarrow> s\<lparr>mgr := m, stopping := stopping s @ map (\<lambda>(b, t). (p, b, t)) ws\<rparr>)"
| "take_turn PROVIDERS (StopResumed k now) s =
     (if k < length (stopping s)
      then (case stopping s ! k of
              (p, b, t) \<Rightarrow>
                if (case t of None \<Rightarrow> True | Some n \<Rightarrow> n \<in> set (settled (mgr s)))
                then s\<lparr>mgr := stop_account_resumed p b now (mgr s), stopping := remove_nth k (stopping s)\<rparr>
                else s)
      else s)"
| "take_turn PROVIDERS (TaskSettles fmt now n outcome) s = s\<lparr>mgr := settle_task fmt now n outcome (mgr s)\<rparr>"
| "take_turn PROVIDERS (MarkWhatsAppLoggedOut defaultId cleared a) s =
     s\<lparr>mgr := markWhatsAppLoggedOut defaultId cleared a (mgr s)\<rparr>"
| "take_turn PROVIDERS (GetRuntimeSnapshot order cfg) s = s"

fun run_turns :: "('z, 'a) plugin list \<Rightarrow> 'z turn list \<Rightarrow> 'z sched \<Rightarrow> 'z sched" where
  "run_turns PROVIDERS [] s = s"
| "run_turns PROVIDERS (t # ts) s = run_turns PROVIDERS ts (take_turn PROVIDERS t s)"

text \<open>
  The invariant of the snapshot and the task map: an account whose snapshot says
  \<^verbatim>\<open>running: false\<close> has no task registered.
\<close>

definition consistent :: "manager \<Rightarrow> bool" where
  "consistent m \<longleftrightarrow> (\<forall>p a. running (getRuntime p a m) = Some False \<longrightarrow> task_handle m p a = None)"

text \<open>The same, read from the task map: a registered task has a snapshot that says \<^verbatim>\<open>running: true\<close>.\<close>

definition tracked_running :: "manager \<Rightarrow> bool" where
  "tracked_running m \<longleftrightarrow> (\<forall>p a. task_handle m p a \<noteq> None \<longrightarrow> running (getRuntime p a m) = Some True)"

text \<open>
  The two turns that write \<^verbatim>\<open>running: false\<close> without looking at the task map, taken at a
  moment when the account has no task registered: \<^verbatim>\<open>markWhatsAppLoggedOut\<close> for an account
  that was stopped first or whose task has ended, and a \<^verbatim>\<open>startProvider\<close> callback that
  comes back from \<^verbatim>\<open>await isConfigured\<close> with the answer \<^verbatim>\<open>false\<close> while no other call has
  registered a task for its account in the meantime. Every other turn is unrestricted.
\<close>

fun unhurried :: "'z turn \<Rightarrow> 'z sched \<Rightarrow> bool" where
  "unhurried (MarkWhatsAppLoggedOut defaultId cleared a) s =
     (task_handle (mgr s) Whatsapp (case a of None \<Rightarrow> defaultId | Some x \<Rightarrow> x) = None)"
| "unhurried (StartResumed k now) s =
     (if k < length (starting s)
      then (case starting s ! k of
              (cfg, p, b, r) \<Rightarrow> if r = Inr False then task_handle (mgr s) p b = None else True)
      else True)"
| "unhurried t s = True"

text \<open>A sequence of turns each of which is taken at such a moment.\<close>

fun orderly :: "('z, 'a) plugin list \<Rightarrow> 'z turn list \<Rightarrow> 'z sched \<Rightarrow> bool" where
  "orderly PROVIDERS [] s = True"
| "orderly PROVIDERS (t # ts) s = (unhurried t s \<and> orderly PROVIDERS ts (take_turn PROVIDERS t s))"

text \<open>Every registered task belongs to a \<^verbatim>\<open>startAccount\<close> call for that very account.\<close>

definition tracked_logged :: "manager \<Rightarrow> bool" where
  "tracked_logged m \<longleftrightarrow> (\<forall>p a n. task_handle m p a = Some n \<longrightarrow> (n, p, a) \<in> set (launched m))"



subsection \<open>Test doubles for the manager\<close>

text \<open>
  A configuration with one more key, which says whether the account's credentials are
  in place. \<^verbatim>\<open>loadConfig()\<close> is called afresh by every operation, so two calls can see
  different values.
\<close>

record demo_config = config +
  linked :: bool

definition demo_cfg :: demo_config where
  "demo_cfg = \<lparr> web_enabled = None, linked = True \<rparr>"

text \<open>
  A plugin with the one account \<^verbatim>\<open>"default"\<close>, enabled, whose \<^verbatim>\<open>isConfigured\<close> reads that key,
  whose \<^verbatim>\<open>startAccount\<close> returns its promise and which has no \<^verbatim>\<open>stopAccount\<close> hook, as the
  seven registered plugins are; and the registry of seven such plugins.
\<close>

definition demo_plugin :: "provider_id \<Rightarrow> (unit demo_config_ext, unit) plugin" where
  "demo_plugin p =
     \<lparr> plugin_id = p,
       listAccountIds = (\<lambda>cfg. [''default'']),
       resolveAccount = (\<lambda>cfg a. AccountObject None ()),
       defaultAccountId = None,
       isConfigured = Some (\<lambda>account cfg. Inr (linked cfg)),
       describeAccount = None,
       startAccount = Some (\<lambda>cfg a account. Inr ()),
       stopAccount = None \<rparr>"

definition demo_providers :: "(unit demo_config_ext, unit) plugin list" where
  "demo_providers = map demo_plugin [Telegram, Whatsapp, Discord, Slack, Signal, Imessage, Msteams]"

definition demo_answers :: "account_id \<Rightarrow> stop_answers" where
  "demo_answers a = \<lparr> task_ends = Rejected (JsError ''teardown failed''), handlers_at = 20, stopped_at = 21 \<rparr>"

definition demo_fmt :: "js_error \<Rightarrow> string" where
  "demo_fmt e = (case e of JsError msg \<Rightarrow> msg)"




subsection \<open>A test double for the provider\<close>

text \<open>
  A provider whose world is the number of sends made so far: the send with a number in
  \<open>failing\<close> throws, every other send returns its number as the delivery result. The
  chunker splits once, at the limit.
\<close>

definition demo_chunker :: chunker where
  "demo_chunker t l = (if length t \<le> nat l then [t] else [take (nat l) t, drop (nat l) t])"

definition demo_handler :: "nat list \<Rightarrow> (nat, nat) handler" where
  "demo_handler failing =
     \<lparr> chunker = Some demo_chunker,
       sendText = (\<lambda>t w. (if w \<in> set failing then Inl (JsError ''send failed'') else Inr w, Suc w)),
       sendMedia = (\<lambda>c u w. (if w \<in> set failing then Inl (JsError ''send failed'') else Inr w, Suc w)) \<rparr>"

definition demo_params :: deliver_params where
  "demo_params = \<lparr> bestEffort = True, onError = True, onPayload = False \<rparr>"

definition demo_start :: "(nat, nat) dstate" where
  "demo_start = \<lparr> results = [], calls = [], world = 0 \<rparr>"

text \<open>
  The same provider behind \<^verbatim>\<open>deps\<close>, and a plugin adapter that sends through it and
  declares no chunker of its own, as the iMessage plugin does.
\<close>

definition demo_deps :: "nat list \<Rightarrow> provider_id \<Rightarrow> string \<Rightarrow> string option \<Rightarrow> nat \<Rightarrow> (js_error + nat) \<times> nat" where
  "demo_deps failing p t mediaUrl w = (if w \<in> set failing then Inl (JsError ''send failed'') else Inr w, Suc w)"

definition demo_adapter :: "nat list \<Rightarrow> provider_id \<Rightarrow> (nat, nat) outbound_adapter" where
  "demo_adapter failing p =
     \<lparr> ob_chunker = None,
       ob_sendText = Some (\<lambda>t. demo_deps failing p t None),
       ob_sendMedia = Some (\<lambda>caption mediaUrl. demo_deps failing p caption (Some mediaUrl)) \<rparr>"

section \<open>Properties of the delivery engine\<close>

lemma push_sendText_calls:
  "push_sendText h t st = (r, st') \<Longrightarrow> calls st' = calls st @ [SendText t]"
  by (auto simp: push_sendText_def split: prod.splits sum.splits)

lemma push_sendMedia_calls:
  "push_sendMedia h c u st = (r, st') \<Longrightarrow> calls st' = calls st @ [SendMedia c u]"
  by (auto simp: push_sendMedia_def split: prod.splits sum.splits)

lemma push_sendText_results:
  "push_sendText h t st = (r, st') \<Longrightarrow>
     (r = Inr () \<longrightarrow> (\<exists>x. results st' = results st @ [x])) \<and> ((\<exists>e. r = Inl e) \<longrightarrow> results st' = results st)"
  by (auto simp: push_sendText_def split: prod.splits sum.splits)

lemma push_sendMedia_results:
  "push_sendMedia h c u st = (r, st') \<Longrightarrow>
     (r = Inr () \<longrightarrow> (\<exists>x. results st' = results st @ [x])) \<and> ((\<exists>e. r = Inl e) \<longrightarrow> results st' = results st)"
  by (auto simp: push_sendMedia_def split: prod.splits sum.splits)

text \<open>The chunk loop sends the chunks in order, up to the first send that throws.\<close>

lemma sendChunks_calls:
  "sendChunks h cs st = (r, st') \<Longrightarrow>
     \<exists>k\<le>length cs. calls st' = calls st @ map SendText (take k cs)
        \<and> (r = Inr () \<longrightarrow> k = length cs)"
proof (induction cs arbitrary: st)
  case Nil
  then show ?case by auto
next
  case (Cons c cs)
  obtain r1 st1 where p: "push_sendText h c st = (r1, st1)" by (cases "push_sendText h c st")
  have c1: "calls st1 = calls st @ [SendText c]" using push_sendText_calls[OF p] .
  show ?case
  proof (cases r1)
    case (Inl e)
    with Cons.prems p have "r = Inl e" "st' = st1" by auto
    with c1 show ?thesis by (intro exI[of _ 1]) auto
  next
    case (Inr u)
    with Cons.prems p have "sendChunks h cs st1 = (r, st')" by auto
    from Cons.IH[OF this] obtain k where k: "k \<le> length cs"
      "calls st' = calls st1 @ map SendText (take k cs)" "r = Inr () \<longrightarrow> k = length cs" by blast
    with c1 show ?thesis by (intro exI[of _ "Suc k"]) auto
  qed
qed

lemma sends_append: "sends (xs @ ys) = sends xs @ sends ys"
  by (simp add: sends_def)

lemma sends_map_SendText: "sends (map SendText xs) = map SendText xs"
  by (induction xs) (auto simp: sends_def)

lemma sendChunks_results:
  "sendChunks h cs st = (r, st') \<Longrightarrow> prefix (results st) (results st')"
proof (induction cs arbitrary: st)
  case Nil
  then show ?case by auto
next
  case (Cons c cs)
  obtain r1 st1 where p: "push_sendText h c st = (r1, st1)" by (cases "push_sendText h c st")
  from push_sendText_results[OF p] have 1: "prefix (results st) (results st1)"
    by (cases r1) auto
  show ?case
  proof (cases r1)
    case (Inl e)
    with Cons.prems p 1 show ?thesis by auto
  next
    case (Inr v)
    with Cons.prems p have "sendChunks h cs st1 = (r, st')" by auto
    from Cons.IH[OF this] 1 show ?thesis by (rule prefix_order.trans[rotated])
  qed
qed

text \<open>After the first item the captions are empty.\<close>

lemma sendMediaLoop_rest:
  "sendMediaLoop h t False urls st = (r, st') \<Longrightarrow>
     \<exists>k\<le>length urls. \<exists>rs.
        calls st' = calls st @ map (SendMedia '''') (take k urls)
      \<and> results st' = results st @ rs
      \<and> (r = Inr () \<longrightarrow> k = length urls \<and> length rs = k)
      \<and> ((\<exists>e. r = Inl e) \<longrightarrow> 0 < k \<and> length rs = k - 1)"
proof (induction urls arbitrary: st)
  case Nil
  then show ?case by auto
next
  case (Cons u urls)
  obtain r1 st1 where p: "push_sendMedia h '''' u st = (r1, st1)" by (cases "push_sendMedia h '''' u st")
  have c1: "calls st1 = calls st @ [SendMedia '''' u]" using push_sendMedia_calls[OF p] .
  note r1 = push_sendMedia_results[OF p]
  show ?case
  proof (cases r1)
    case (Inl e)
    with Cons.prems p have "r = Inl e" "st' = st1" by auto
    with c1 r1 Inl show ?thesis by (intro exI[of _ 1] exI[of _ "[]"]) auto
  next
    case (Inr v)
    with Cons.prems p have "sendMediaLoop h t False urls st1 = (r, st')" by auto
    from Cons.IH[OF this] obtain k rs where k: "k \<le> length urls"
      "calls st' = calls st1 @ map (SendMedia '''') (take k urls)"
      "results st' = results st1 @ rs"
      "r = Inr () \<longrightarrow> k = length urls \<and> length rs = k"
      "(\<exists>e. r = Inl e) \<longrightarrow> 0 < k \<and> length rs = k - 1" by blast
    from r1 Inr obtain x where x: "results st1 = results st @ [x]" by auto
    show ?thesis
      using k c1 x by (intro exI[of _ "Suc k"] exI[of _ "x # rs"]) auto
  qed
qed

text \<open>The calls a payload with media is due: its text on the first item only.\<close>

lemma sendMediaLoop_first:
  "sendMediaLoop h t True (u # us) st = (r, st') \<Longrightarrow>
     \<exists>k\<le>length (u # us). \<exists>rs.
        calls st' = calls st @ take k (SendMedia t u # map (SendMedia '''') us)
      \<and> results st' = results st @ rs
      \<and> (r = Inr () \<longrightarrow> k = length (u # us) \<and> length rs = k)
      \<and> ((\<exists>e. r = Inl e) \<longrightarrow> 0 < k \<and> length rs = k - 1)"
proof -
  assume a: "sendMediaLoop h t True (u # us) st = (r, st')"
  obtain r1 st1 where p: "push_sendMedia h t u st = (r1, st1)" by (cases "push_sendMedia h t u st")
  have c1: "calls st1 = calls st @ [SendMedia t u]" using push_sendMedia_calls[OF p] .
  note r1 = push_sendMedia_results[OF p]
  show ?thesis
  proof (cases r1)
    case (Inl e)
    with a p have "r = Inl e" "st' = st1" by auto
    with c1 r1 Inl show ?thesis by (intro exI[of _ 1] exI[of _ "[]"]) auto
  next
    case (Inr v)
    with a p have "sendMediaLoop h t False us st1 = (r, st')" by auto
    from sendMediaLoop_rest[OF this] obtain k rs where k: "k \<le> length us"
      "calls st' = calls st1 @ map (SendMedia '''') (take k us)"
      "results st' = results st1 @ rs"
      "r = Inr () \<longrightarrow> k = length us \<and> length rs = k"
      "(\<exists>e. r = Inl e) \<longrightarrow> 0 < k \<and> length rs = k - 1" by blast
    from r1 Inr obtain x where x: "results st1 = results st @ [x]" by auto
    show ?thesis
      using k c1 x by (intro exI[of _ "Suc k"] exI[of _ "x # rs"]) (auto simp: take_map)
  qed
qed

lemma deliver_payload_results:
  "deliver_payload prm h lim p st = (r, st') \<Longrightarrow> prefix (results st) (results st')"
proof -
  assume a: "deliver_payload prm h lim p st = (r, st')"
  define st1 where "st1 = (if onPayload prm then st\<lparr>calls := calls st @ [OnPayload p]\<rparr> else st)"
  have s1: "results st1 = results st" by (simp add: st1_def)
  show ?thesis
  proof (cases "mediaUrls p")
    case Nil
    with a have b: "sendTextChunks h lim (payload_text p) st1 = (r, st')"
      by (simp add: deliver_payload_def st1_def Let_def)
    show ?thesis
    proof (cases "\<exists>f l. chunker h = Some f \<and> lim = Some l")
      case True
      then obtain f l where "chunker h = Some f" "lim = Some l" by blast
      with b have "sendChunks h (f (payload_text p) l) st1 = (r, st')" by (simp add: sendTextChunks_def)
      from sendChunks_results[OF this] s1 show ?thesis by simp
    next
      case False
      with b have "push_sendText h (payload_text p) st1 = (r, st')"
        by (auto simp: sendTextChunks_def split: option.splits)
      from push_sendText_results[OF this] s1 show ?thesis by (cases r) auto
    qed
  next
    case (Cons u us)
    with a have "sendMediaLoop h (payload_text p) True (u # us) st1 = (r, st')"
      by (simp add: deliver_payload_def st1_def Let_def)
    from sendMediaLoop_first[OF this] s1 show ?thesis by auto
  qed
qed

lemma note_error_results: "results (note_error prm e p st) = results st"
  by (simp add: note_error_def)

lemma deliver_loop_results:
  "deliver_loop prm h lim ps st = (r, st') \<Longrightarrow> prefix (results st) (results st')"
proof (induction ps arbitrary: st)
  case Nil
  then show ?case by auto
next
  case (Cons p ps)
  obtain r1 st1 where p: "deliver_payload prm h lim p st = (r1, st1)" by (cases "deliver_payload prm h lim p st")
  note 1 = deliver_payload_results[OF p]
  show ?case
  proof (cases r1)
    case (Inr v)
    with Cons.prems p have "deliver_loop prm h lim ps st1 = (r, st')" by auto
    from Cons.IH[OF this] 1 show ?thesis by (rule prefix_order.trans[rotated])
  next
    case (Inl e)
    show ?thesis
    proof (cases "bestEffort prm")
      case False
      with Cons.prems p Inl 1 show ?thesis by auto
    next
      case True
      with Cons.prems p Inl have "deliver_loop prm h lim ps (note_error prm e p st1) = (r, st')" by auto
      from Cons.IH[OF this] have "prefix (results st1) (results st')" by (simp add: note_error_results)
      with 1 show ?thesis by (rule prefix_order.trans)
    qed
  qed
qed

lemma best_effort_resolves:
  "bestEffort prm \<Longrightarrow> fst (deliver_loop prm h lim ps st) = Inr ()"
  by (induction ps arbitrary: st) (auto split: prod.splits sum.splits)

lemma deliver_payload_bestEffort:
  "deliver_payload (prm\<lparr>bestEffort := b\<rparr>) h lim p st = deliver_payload prm h lim p st"
  by (simp add: deliver_payload_def)

lemma note_error_bestEffort:
  "note_error (prm\<lparr>bestEffort := b\<rparr>) e p st = note_error prm e p st"
  by (simp add: note_error_def)

lemma sends_calls_media:
  "sends (SendMedia t u # map (SendMedia c) us) = SendMedia t u # map (SendMedia c) us"
  by (induction us) (auto simp: sends_def)

lemma sends_take: "sends xs = xs \<Longrightarrow> sends (take k xs) = take k xs"
  unfolding sends_def by (metis filter_id_conv in_set_takeD)

lemma deliver_payload_media:
  assumes "mediaUrls p = u # us" and "deliver_payload prm h lim p st = (r, st')"
  shows "\<exists>k\<le>length (u # us). \<exists>rs.
        sends (calls st') = sends (calls st) @ take k (SendMedia (payload_text p) u # map (SendMedia '''') us)
      \<and> results st' = results st @ rs
      \<and> (r = Inr () \<longrightarrow> k = length (u # us) \<and> length rs = k)
      \<and> ((\<exists>e. r = Inl e) \<longrightarrow> 0 < k \<and> length rs = k - 1)"
proof -
  define st1 where "st1 = (if onPayload prm then st\<lparr>calls := calls st @ [OnPayload p]\<rparr> else st)"
  have s1: "sends (calls st1) = sends (calls st)" "results st1 = results st"
    by (simp_all add: st1_def sends_def)
  from assms have "sendMediaLoop h (payload_text p) True (u # us) st1 = (r, st')"
    by (simp add: deliver_payload_def st1_def Let_def)
  from sendMediaLoop_first[OF this] obtain k rs where k: "k \<le> length (u # us)"
      "calls st' = calls st1 @ take k (SendMedia (payload_text p) u # map (SendMedia '''') us)"
      "results st' = results st1 @ rs"
      "r = Inr () \<longrightarrow> k = length (u # us) \<and> length rs = k"
      "(\<exists>e. r = Inl e) \<longrightarrow> 0 < k \<and> length rs = k - 1" by blast
  have "sends (calls st') = sends (calls st) @ take k (SendMedia (payload_text p) u # map (SendMedia '''') us)"
    unfolding k(2) sends_append s1 by (simp only: sends_take[OF sends_calls_media])
  with k s1 show ?thesis by (intro exI[of _ k] exI[of _ rs]) simp
qed

lemma deliver_payload_onError:
  "deliver_payload prm h lim p st = (r, st') \<Longrightarrow> filter is_onError (calls st') = filter is_onError (calls st)"
proof -
  assume a: "deliver_payload prm h lim p st = (r, st')"
  define st1 where "st1 = (if onPayload prm then st\<lparr>calls := calls st @ [OnPayload p]\<rparr> else st)"
  have s1: "filter is_onError (calls st1) = filter is_onError (calls st)" by (simp add: st1_def)
  show ?thesis
  proof (cases "mediaUrls p")
    case Nil
    with a have b: "sendTextChunks h lim (payload_text p) st1 = (r, st')"
      by (simp add: deliver_payload_def st1_def Let_def)
    show ?thesis
    proof (cases "\<exists>f l. chunker h = Some f \<and> lim = Some l")
      case True
      then obtain f l where "chunker h = Some f" "lim = Some l" by blast
      with b have "sendChunks h (f (payload_text p) l) st1 = (r, st')" by (simp add: sendTextChunks_def)
      from sendChunks_calls[OF this] s1 show ?thesis by (auto simp: filter_map o_def)
    next
      case False
      with b have "push_sendText h (payload_text p) st1 = (r, st')"
        by (auto simp: sendTextChunks_def split: option.splits)
      from push_sendText_calls[OF this] s1 show ?thesis by auto
    qed
  next
    case (Cons u us)
    with a have "sendMediaLoop h (payload_text p) True (u # us) st1 = (r, st')"
      by (simp add: deliver_payload_def st1_def Let_def)
    from sendMediaLoop_first[OF this] obtain k where
      "calls st' = calls st1 @ take k (SendMedia (payload_text p) u # map (SendMedia '''') us)" by blast
    moreover have "filter is_onError (take k (SendMedia (payload_text p) u # map (SendMedia '''') us)) = []"
      by (auto simp: filter_empty_conv dest!: in_set_takeD)
    ultimately show ?thesis using s1 by simp
  qed
qed

lemma created_chunker:
  "chunker (createProviderHandler chunkText chunkMarkdownText provider outbound deps)
     = declared_chunker chunkText chunkMarkdownText provider outbound"
  by (auto simp: createProviderHandler_def createPluginHandler_def declared_chunker_def
      split: option.splits nullable.splits)

lemma created_sendText:
  "sendText (createProviderHandler chunkText chunkMarkdownText provider outbound deps)
     = provider_sendText provider outbound deps"
  by (auto simp: createProviderHandler_def createPluginHandler_def provider_sendText_def
      split: option.splits nullable.splits)

lemma one_by_one_length:
  "one_by_one send ts w = (Inr (), rs, w') \<Longrightarrow> length rs = length ts"
  by (induction ts arbitrary: w rs) (auto split: prod.splits sum.splits)

lemma push_sendText_one:
  "push_sendText h t st = (r, st') \<Longrightarrow>
     \<exists>rs. results st' = results st @ rs \<and> one_by_one (sendText h) [t] (world st) = (r, rs, world st')
        \<and> calls st' = calls st @ [SendText t]"
  by (auto simp: push_sendText_def split: prod.splits sum.splits)

lemma sendChunks_one_by_one:
  "sendChunks h cs st = (r, st') \<Longrightarrow>
     \<exists>rs. results st' = results st @ rs \<and> one_by_one (sendText h) cs (world st) = (r, rs, world st')
        \<and> calls st' = calls st @ map SendText (take (length rs + (if r = Inr () then 0 else 1)) cs)"
proof (induction cs arbitrary: st)
  case Nil
  then show ?case by auto
next
  case (Cons c cs)
  obtain r1 st1 where p: "push_sendText h c st = (r1, st1)" by (cases "push_sendText h c st")
  show ?case
  proof (cases r1)
    case (Inl e)
    with Cons.prems p have "r = Inl e" "st' = st1" by auto
    with p Inl show ?thesis
      by (intro exI[of _ "[]"]) (auto simp: push_sendText_def split: prod.splits sum.splits)
  next
    case (Inr u)
    with Cons.prems p have "sendChunks h cs st1 = (r, st')" by auto
    from Cons.IH[OF this] obtain rs where rs: "results st' = results st1 @ rs"
      "one_by_one (sendText h) cs (world st1) = (r, rs, world st')"
      "calls st' = calls st1 @ map SendText (take (length rs + (if r = Inr () then 0 else 1)) cs)" by blast
    from p Inr obtain x where x: "sendText h c (world st) = (Inr x, world st1)"
      "results st1 = results st @ [x]" "calls st1 = calls st @ [SendText c]"
      by (auto simp: push_sendText_def split: prod.splits sum.splits)
    with rs show ?thesis by (intro exI[of _ "x # rs"]) auto
  qed
qed

text \<open>
  \<^bold>\<open>C5\<close> (chunked delivery). Take a provider, the outbound adapter of its plugin (if
  any) and the send functions \<^verbatim>\<open>deps\<close>, and let the engine make its handler from them with
  \<^verbatim>\<open>createProviderHandler\<close>. For a payload without media:
  \<^item> when the provider declares a chunker and the chunk limit is defined, the engine
    sends the chunks that this chunker returns for the payload's text and the limit,
    each with one call of the provider's text send and in the chunker's order, one
    after the other: the delivery results and the world after the payload are those of
    sending the chunks one by one, where each send starts in the world its predecessor
    left. A send that throws ends the sequence, so the calls made are the chunks up to
    and including the one that threw; when the payload is delivered without a throw,
    they are all the chunks;
  \<^item> when the provider's chunker is \<^verbatim>\<open>null\<close>, the whole text goes out in exactly one call
    of the provider's text send.
\<close>

theorem chunked_delivery:
  assumes "mediaUrls p = []"
    and "h = createProviderHandler chunkText chunkMarkdownText provider outbound deps"
    and "deliver_payload prm h (textLimit h rl) p st = (r, st')"
  shows "(\<forall>f l. declared_chunker chunkText chunkMarkdownText provider outbound = Some f \<and> rl = Some l \<longrightarrow>
            (\<exists>rs. results st' = results st @ rs
               \<and> one_by_one (provider_sendText provider outbound deps) (f (payload_text p) l) (world st)
                   = (r, rs, world st')
               \<and> sends (calls st')
                   = sends (calls st)
                     @ map SendText (take (length rs + (if r = Inr () then 0 else 1)) (f (payload_text p) l)))
          \<and> (r = Inr () \<longrightarrow> sends (calls st') = sends (calls st) @ map SendText (f (payload_text p) l)))
       \<and> (declared_chunker chunkText chunkMarkdownText provider outbound = None \<longrightarrow>
            sends (calls st') = sends (calls st) @ [SendText (payload_text p)]
          \<and> (\<exists>rs. results st' = results st @ rs
               \<and> one_by_one (provider_sendText provider outbound deps) [payload_text p] (world st)
                   = (r, rs, world st')))"
proof (intro conjI allI impI)
  define st1 where "st1 = (if onPayload prm then st\<lparr>calls := calls st @ [OnPayload p]\<rparr> else st)"
  have s1: "sends (calls st1) = sends (calls st)" "results st1 = results st" "world st1 = world st"
    by (simp_all add: st1_def sends_def)
  have hc: "chunker h = declared_chunker chunkText chunkMarkdownText provider outbound"
    and hs: "sendText h = provider_sendText provider outbound deps"
    unfolding assms(2) by (rule created_chunker, rule created_sendText)
  {
    fix f l assume a: "declared_chunker chunkText chunkMarkdownText provider outbound = Some f \<and> rl = Some l"
    let ?chunks = "f (payload_text p) l"
    from assms(1,3) a hc have "sendChunks h ?chunks st1 = (r, st')"
      by (simp add: deliver_payload_def sendTextChunks_def textLimit_def st1_def Let_def)
    from sendChunks_one_by_one[OF this] obtain rs where rs: "results st' = results st1 @ rs"
      "one_by_one (sendText h) ?chunks (world st1) = (r, rs, world st')"
      "calls st' = calls st1 @ map SendText (take (length rs + (if r = Inr () then 0 else 1)) ?chunks)" by blast
    have e: "sends (calls st')
        = sends (calls st) @ map SendText (take (length rs + (if r = Inr () then 0 else 1)) ?chunks)"
      by (simp add: rs(3) sends_append s1 sends_map_SendText)
    from rs e show "\<exists>rs. results st' = results st @ rs
               \<and> one_by_one (provider_sendText provider outbound deps) ?chunks (world st) = (r, rs, world st')
               \<and> sends (calls st')
                   = sends (calls st) @ map SendText (take (length rs + (if r = Inr () then 0 else 1)) ?chunks)"
      by (intro exI[of _ rs]) (simp add: s1 hs)
    have len: "length rs = length ?chunks" if "r = Inr ()"
      using rs(2) that by (simp add: one_by_one_length)
    show "sends (calls st') = sends (calls st) @ map SendText ?chunks" if "r = Inr ()"
      using e len[OF that] that by simp
  }
  {
    assume a: "declared_chunker chunkText chunkMarkdownText provider outbound = None"
    from assms(1,3) a hc have b: "push_sendText h (payload_text p) st1 = (r, st')"
      by (simp add: deliver_payload_def sendTextChunks_def textLimit_def st1_def Let_def)
    from push_sendText_one[OF b] obtain rs where rs: "results st' = results st1 @ rs"
      "one_by_one (sendText h) [payload_text p] (world st1) = (r, rs, world st')"
      "calls st' = calls st1 @ [SendText (payload_text p)]" by blast
    from rs(3) show "sends (calls st') = sends (calls st) @ [SendText (payload_text p)]"
      by (simp add: sends_append s1) (simp add: sends_def)
    from rs show "\<exists>rs. results st' = results st @ rs
               \<and> one_by_one (provider_sendText provider outbound deps) [payload_text p] (world st)
                   = (r, rs, world st')"
      by (intro exI[of _ rs]) (simp add: s1 hs)
  }
qed


theorem chunked_delivery_witness:
  "mediaUrls \<lparr>payload_text = ''abcd'', mediaUrls = []\<rparr> = []
   \<and> deliver_payload demo_params
        (createProviderHandler demo_chunker (\<lambda>t l. [t]) Imessage (Some (demo_adapter [] Imessage)) (demo_deps []))
        (textLimit (createProviderHandler demo_chunker (\<lambda>t l. [t]) Imessage (Some (demo_adapter [] Imessage)) (demo_deps []))
           (Some 2))
        \<lparr>payload_text = ''abcd'', mediaUrls = []\<rparr> demo_start
      = (Inr (), \<lparr>results = [0, 1], calls = [SendText ''ab'', SendText ''cd''], world = 2\<rparr>)
   \<and> declared_chunker demo_chunker (\<lambda>t l. [t]) Imessage (Some (demo_adapter [] Imessage)) = Some demo_chunker
   \<and> one_by_one (provider_sendText Imessage (Some (demo_adapter [] Imessage)) (demo_deps []))
         (demo_chunker ''abcd'' 2) 0 = (Inr (), [0, 1], 2)
   \<and> sends [SendText ''ab'', SendText ''cd''] = map SendText (demo_chunker ''abcd'' 2)"
proof -
  let ?p = "\<lparr>payload_text = ''abcd'', mediaUrls = []\<rparr>"
  let ?h = "createProviderHandler demo_chunker (\<lambda>t l. [t]) Imessage (Some (demo_adapter [] Imessage)) (demo_deps [])"
  let ?st' = "\<lparr>results = [0, 1::nat], calls = [SendText ''ab'', SendText ''cd''], world = 2::nat\<rparr>"
  have 1: "mediaUrls ?p = []" by simp
  have 2: "deliver_payload demo_params ?h (textLimit ?h (Some 2)) ?p demo_start = (Inr (), ?st')"
    by (simp add: deliver_payload_def demo_params_def createProviderHandler_def createPluginHandler_def
        demo_adapter_def demo_deps_def providerCaps_def textLimit_def demo_start_def
        sendTextChunks_def demo_chunker_def push_sendText_def numeral_2_eq_2)
  have 3: "declared_chunker demo_chunker (\<lambda>t l. [t]) Imessage (Some (demo_adapter [] Imessage)) = Some demo_chunker"
    by (simp add: declared_chunker_def demo_adapter_def providerCaps_def)
  from chunked_delivery[OF 1 refl 2] 3 obtain rs where
    rs: "results ?st' = results demo_start @ rs"
      "one_by_one (provider_sendText Imessage (Some (demo_adapter [] Imessage)) (demo_deps []))
         (demo_chunker (payload_text ?p) 2) (world demo_start) = (Inr (), rs, world ?st')"
    and c: "sends (calls ?st') = sends (calls demo_start) @ map SendText (demo_chunker (payload_text ?p) 2)"
    by blast
  from rs(1) have "rs = [0, 1]" by (simp add: demo_start_def)
  with rs(2) have 4: "one_by_one (provider_sendText Imessage (Some (demo_adapter [] Imessage)) (demo_deps []))
         (demo_chunker ''abcd'' 2) 0 = (Inr (), [0, 1], 2)"
    by (simp add: demo_start_def)
  from c have 5: "sends [SendText ''ab'', SendText ''cd''] = map SendText (demo_chunker ''abcd'' 2)"
    by (simp add: demo_start_def sends_def)
  from 1 2 3 4 5 show ?thesis by blast
qed

text \<open>
  \<^bold>\<open>C6\<close> (media captioning). For a payload with \<open>N \<ge> 1\<close> media URLs and a non-empty text,
  delivered without a throw, the engine makes exactly \<open>N\<close> \<^verbatim>\<open>sendMedia\<close> calls, in the order
  of the URL list; the first call, and only the first, has the payload's text as its
  caption, and the others have the empty caption. When a send throws, the calls made are
  a prefix of that list.
\<close>

theorem media_captioning:
  assumes "mediaUrls p = u # us" and "payload_text p \<noteq> ''''"
    and "deliver_payload prm h lim p st = (r, st')"
  shows "prefix (sends (calls st')) (sends (calls st) @ SendMedia (payload_text p) u # map (SendMedia '''') us)
     \<and> (r = Inr () \<longrightarrow>
          (\<exists>cs. sends (calls st') = sends (calls st) @ cs \<and> length cs = length (mediaUrls p)
             \<and> (\<forall>i<length cs. cs ! i = SendMedia (if i = 0 then payload_text p else '''') (mediaUrls p ! i))
             \<and> (\<forall>i<length cs. (\<exists>url. cs ! i = SendMedia (payload_text p) url) \<longleftrightarrow> i = 0)))"
proof -
  let ?due = "SendMedia (payload_text p) u # map (SendMedia '''') us"
  from deliver_payload_media[OF assms(1,3)] obtain k where k:
      "sends (calls st') = sends (calls st) @ take k ?due"
      "r = Inr () \<longrightarrow> k = length (u # us)" by blast
  have 1: "prefix (sends (calls st')) (sends (calls st) @ ?due)"
    unfolding k(1) by (simp add: take_is_prefix)
  have 2: "\<forall>i<length ?due. ?due ! i = SendMedia (if i = 0 then payload_text p else '''') (mediaUrls p ! i)"
    using assms(1) by (auto simp: nth_Cons split: nat.splits)
  have 3: "\<forall>i<length ?due. (\<exists>url. ?due ! i = SendMedia (payload_text p) url) \<longleftrightarrow> i = 0"
    using assms(2) by (auto simp: nth_Cons split: nat.splits)
  have "r = Inr () \<Longrightarrow> sends (calls st') = sends (calls st) @ ?due" using k by simp
  with 1 2 3 assms(1) show ?thesis
    by (intro conjI impI exI[of _ ?due]) simp_all
qed

theorem media_captioning_witness:
  "deliver_payload demo_params (demo_handler []) None
        \<lparr>payload_text = ''hi'', mediaUrls = [''u1'', ''u2'', ''u3'']\<rparr> demo_start
      = (Inr (), \<lparr>results = [0, 1, 2],
                  calls = [SendMedia ''hi'' ''u1'', SendMedia '''' ''u2'', SendMedia '''' ''u3''], world = 3\<rparr>)
   \<and> prefix (sends [SendMedia ''hi'' ''u1'', SendMedia '''' ''u2'', SendMedia '''' ''u3''])
        (sends [] @ [SendMedia ''hi'' ''u1'', SendMedia '''' ''u2'', SendMedia '''' ''u3''])"
proof -
  let ?p = "\<lparr>payload_text = ''hi'', mediaUrls = [''u1'', ''u2'', ''u3'']\<rparr>"
  let ?st' = "\<lparr>results = [0, 1, 2::nat],
                  calls = [SendMedia ''hi'' ''u1'', SendMedia '''' ''u2'', SendMedia '''' ''u3''], world = 3::nat\<rparr>"
  have 1: "mediaUrls ?p = ''u1'' # [''u2'', ''u3'']" by simp
  have 2: "payload_text ?p \<noteq> ''''" by simp
  have 3: "deliver_payload demo_params (demo_handler []) None ?p demo_start = (Inr (), ?st')"
    by (simp add: deliver_payload_def demo_params_def demo_handler_def demo_start_def
        push_sendMedia_def eval_nat_numeral)
  from media_captioning[OF 1 2 3] 3 show ?thesis by (simp add: demo_start_def)
qed

text \<open>
  \<^bold>\<open>C7\<close> (best effort versus fail fast). Three payloads are delivered; the first is
  delivered, the first send of the second throws \<open>e\<close>, and the third can be delivered in
  the world that is left. With \<^verbatim>\<open>bestEffort\<close> the promise resolves with the results of the
  first payload followed by those of the third, and the error callback (when the caller
  passed one) is called exactly once, with \<open>e\<close> and the second payload. Without
  \<^verbatim>\<open>bestEffort\<close> the promise rejects with \<open>e\<close> in the very state the failed send left:
  nothing of the third payload is attempted, and the only results produced are those of
  the first payload.
\<close>

theorem best_effort_vs_fail_fast:
  assumes d1: "deliver_payload prm h (textLimit h rl) p1 \<lparr>results = [], calls = [], world = w0\<rparr> = (Inr (), s1)"
      and d2: "deliver_payload prm h (textLimit h rl) p2 s1 = (Inl e, s2)"
      and first: "results s2 = results s1"
      and d3: "deliver_payload prm h (textLimit h rl) p3 (note_error prm e p2 s2) = (Inr (), s3)"
  shows "deliverOutboundPayloads (prm\<lparr>bestEffort := True\<rparr>) h rl [p1, p2, p3] w0 = (Inr (results s3), s3)
       \<and> (\<exists>rs3. results s3 = results s1 @ rs3)
       \<and> filter is_onError (calls s3) = (if onError prm then [OnError e p2] else [])
       \<and> deliverOutboundPayloads (prm\<lparr>bestEffort := False\<rparr>) h rl [p1, p2, p3] w0 = (Inl e, s2)
       \<and> results s2 = results s1"
proof -
  have A: "deliverOutboundPayloads (prm\<lparr>bestEffort := True\<rparr>) h rl [p1, p2, p3] w0 = (Inr (results s3), s3)"
    using d1 d2 d3
    by (simp add: deliverOutboundPayloads_def deliver_payload_bestEffort note_error_bestEffort)
  have B: "deliverOutboundPayloads (prm\<lparr>bestEffort := False\<rparr>) h rl [p1, p2, p3] w0 = (Inl e, s2)"
    using d1 d2 by (simp add: deliverOutboundPayloads_def deliver_payload_bestEffort)
  from deliver_payload_results[OF d3] first have C: "\<exists>rs3. results s3 = results s1 @ rs3"
    by (auto simp: note_error_results prefix_def)
  have "filter is_onError (calls s1) = []" using deliver_payload_onError[OF d1] by simp
  then have "filter is_onError (calls s2) = []" using deliver_payload_onError[OF d2] by simp
  then have "filter is_onError (calls (note_error prm e p2 s2)) = (if onError prm then [OnError e p2] else [])"
    by (simp add: note_error_def)
  then have D: "filter is_onError (calls s3) = (if onError prm then [OnError e p2] else [])"
    using deliver_payload_onError[OF d3] by simp
  from A B C D first show ?thesis by simp
qed

theorem best_effort_vs_fail_fast_witness:
  "deliverOutboundPayloads (demo_params\<lparr>bestEffort := True\<rparr>) (demo_handler [1]) None
      [\<lparr>payload_text = ''one'', mediaUrls = []\<rparr>, \<lparr>payload_text = ''two'', mediaUrls = []\<rparr>,
       \<lparr>payload_text = ''three'', mediaUrls = []\<rparr>] 0
    = (Inr [0, 2],
       \<lparr>results = [0, 2],
        calls = [SendText ''one'', SendText ''two'',
                 OnError (JsError ''send failed'') \<lparr>payload_text = ''two'', mediaUrls = []\<rparr>,
                 SendText ''three''],
        world = 3\<rparr>)
   \<and> deliverOutboundPayloads (demo_params\<lparr>bestEffort := False\<rparr>) (demo_handler [1]) None
      [\<lparr>payload_text = ''one'', mediaUrls = []\<rparr>, \<lparr>payload_text = ''two'', mediaUrls = []\<rparr>,
       \<lparr>payload_text = ''three'', mediaUrls = []\<rparr>] 0
    = (Inl (JsError ''send failed''),
       \<lparr>results = [0], calls = [SendText ''one'', SendText ''two''], world = 2\<rparr>)"
proof -
  let ?h = "demo_handler [1]"
  let ?p1 = "\<lparr>payload_text = ''one'', mediaUrls = []\<rparr>"
  let ?p2 = "\<lparr>payload_text = ''two'', mediaUrls = []\<rparr>"
  let ?p3 = "\<lparr>payload_text = ''three'', mediaUrls = []\<rparr>"
  let ?e = "JsError ''send failed''"
  let ?s1 = "\<lparr>results = [0::nat], calls = [SendText ''one''], world = 1::nat\<rparr>"
  let ?s2 = "\<lparr>results = [0::nat], calls = [SendText ''one'', SendText ''two''], world = 2::nat\<rparr>"
  let ?s3 = "\<lparr>results = [0::nat, 2], calls = [SendText ''one'', SendText ''two'', OnError ?e ?p2, SendText ''three''],
             world = 3::nat\<rparr>"
  have d1: "deliver_payload demo_params ?h (textLimit ?h None) ?p1 \<lparr>results = [], calls = [], world = 0\<rparr> = (Inr (), ?s1)"
    by (simp add: deliver_payload_def demo_params_def demo_handler_def textLimit_def
        sendTextChunks_def push_sendText_def)
  have d2: "deliver_payload demo_params ?h (textLimit ?h None) ?p2 ?s1 = (Inl ?e, ?s2)"
    by (simp add: deliver_payload_def demo_params_def demo_handler_def textLimit_def
        sendTextChunks_def push_sendText_def)
  have f: "results ?s2 = results ?s1" by simp
  have d3: "deliver_payload demo_params ?h (textLimit ?h None) ?p3 (note_error demo_params ?e ?p2 ?s2) = (Inr (), ?s3)"
    by (simp add: deliver_payload_def demo_params_def demo_handler_def textLimit_def
        sendTextChunks_def push_sendText_def note_error_def eval_nat_numeral)
  from best_effort_vs_fail_fast[OF d1 d2 f d3] show ?thesis by simp
qed

text \<open>
  \<^bold>\<open>C10\<close> (partial results of a failed payload). In best-effort mode, when a payload with
  media fails on its \<open>k\<close>-th \<^verbatim>\<open>sendMedia\<close> call, the results of its first \<open>k - 1\<close> sends stay
  in the result list up to the end of the delivery (nothing is rolled back), the
  error callback is called once for the payload, the loop goes on with the next payload,
  and the delivery as a whole resolves.
\<close>

theorem partial_results_kept:
  assumes "bestEffort prm" and "mediaUrls p = u # us"
    and "deliver_payload prm h lim p st = (Inl e, st')"
  shows "\<exists>k rs. 0 < k \<and> k \<le> length (mediaUrls p)
      \<and> sends (calls st') = sends (calls st) @ take k (SendMedia (payload_text p) u # map (SendMedia '''') us)
      \<and> results st' = results st @ rs \<and> length rs = k - 1
      \<and> deliver_loop prm h lim (p # ps) st = deliver_loop prm h lim ps (note_error prm e p st')
      \<and> calls (note_error prm e p st') = calls st' @ (if onError prm then [OnError e p] else [])
      \<and> fst (deliver_loop prm h lim (p # ps) st) = Inr ()
      \<and> prefix (results st @ rs) (results (snd (deliver_loop prm h lim (p # ps) st)))"
proof -
  from deliver_payload_media[OF assms(2,3)] obtain k rs where k: "k \<le> length (u # us)"
     "sends (calls st') = sends (calls st) @ take k (SendMedia (payload_text p) u # map (SendMedia '''') us)"
     "results st' = results st @ rs" "0 < k" "length rs = k - 1" by blast
  have L: "deliver_loop prm h lim (p # ps) st = deliver_loop prm h lim ps (note_error prm e p st')"
    using assms(1,3) by simp
  have N: "calls (note_error prm e p st') = calls st' @ (if onError prm then [OnError e p] else [])"
    by (simp add: note_error_def)
  have R: "fst (deliver_loop prm h lim (p # ps) st) = Inr ()"
    using assms(1) by (rule best_effort_resolves)
  obtain r stf where f: "deliver_loop prm h lim ps (note_error prm e p st') = (r, stf)"
    by (cases "deliver_loop prm h lim ps (note_error prm e p st')")
  from deliver_loop_results[OF f] have "prefix (results st @ rs) (results stf)"
    by (simp add: note_error_results k(3))
  then have P: "prefix (results st @ rs) (results (snd (deliver_loop prm h lim (p # ps) st)))"
    unfolding L f by simp
  from k L N R P assms(2) show ?thesis
    by (intro exI[of _ k] exI[of _ rs]) simp
qed

theorem partial_results_kept_witness:
  "bestEffort demo_params
   \<and> deliver_payload demo_params (demo_handler [1]) None
        \<lparr>payload_text = ''hi'', mediaUrls = [''u1'', ''u2'', ''u3'']\<rparr> demo_start
      = (Inl (JsError ''send failed''),
         \<lparr>results = [0], calls = [SendMedia ''hi'' ''u1'', SendMedia '''' ''u2''], world = 2\<rparr>)
   \<and> fst (deliver_loop demo_params (demo_handler [1]) None
        [\<lparr>payload_text = ''hi'', mediaUrls = [''u1'', ''u2'', ''u3'']\<rparr>,
         \<lparr>payload_text = ''next'', mediaUrls = []\<rparr>] demo_start) = Inr ()"
proof -
  let ?h = "demo_handler [1]"
  let ?p = "\<lparr>payload_text = ''hi'', mediaUrls = [''u1'', ''u2'', ''u3'']\<rparr>"
  let ?e = "JsError ''send failed''"
  let ?st' = "\<lparr>results = [0::nat], calls = [SendMedia ''hi'' ''u1'', SendMedia '''' ''u2''], world = 2::nat\<rparr>"
  have b: "bestEffort demo_params" by (simp add: demo_params_def)
  have m: "mediaUrls ?p = ''u1'' # [''u2'', ''u3'']" by simp
  have d: "deliver_payload demo_params ?h None ?p demo_start = (Inl ?e, ?st')"
    by (simp add: deliver_payload_def demo_params_def demo_handler_def demo_start_def
        push_sendMedia_def eval_nat_numeral)
  from partial_results_kept[OF b m d, of "[\<lparr>payload_text = ''next'', mediaUrls = []\<rparr>]"]
  have "fst (deliver_loop demo_params ?h None [?p, \<lparr>payload_text = ''next'', mediaUrls = []\<rparr>] demo_start) = Inr ()"
    by blast
  with b d show ?thesis by simp
qed

section \<open>Properties of the target resolver\<close>

lemma trimmed_truthy_blank: "blank to \<Longrightarrow> trimmed_truthy to = None"
  by (auto simp: blank_def trimmed_truthy_def split: option.splits)

lemma trimmed_truthy_not_blank: "\<not> blank to \<Longrightarrow> \<exists>s. to = Some s \<and> trim s \<noteq> [] \<and> trimmed_truthy to = Some (trim s)"
  by (auto simp: blank_def trimmed_truthy_def split: option.splits)

lemma first_allowFrom_none: "allowFrom = None \<or> allowFrom = Some [] \<Longrightarrow> first_allowFrom allowFrom = None"
  by (auto simp: first_allowFrom_def)

text \<open>
  \<^bold>\<open>C8\<close> (target resolution). For each of the seven outbound providers: a destination that
  is absent, empty or white space only, with no fallback list (\<^verbatim>\<open>allowFrom\<close> absent or
  empty), resolves to \<^verbatim>\<open>{ ok: false }\<close> with the provider's message, which names the
  address syntax the provider expects after \<^verbatim>\<open>--to\<close>; a destination with anything but
  white space in it resolves to \<^verbatim>\<open>{ ok: true }\<close>, with the trimmed destination (for
  WhatsApp, its \<^verbatim>\<open>normalizeE164\<close>). The resolver is a function of \<^verbatim>\<open>to\<close> and \<^verbatim>\<open>allowFrom\<close>
  alone: no world is read or written, so there is nothing to wait for.
\<close>

theorem target_resolution:
  "(blank to \<and> (allowFrom = None \<or> allowFrom = Some []) \<longrightarrow>
      resolveOutboundTarget normalizeE164 (Provider p) to allowFrom = Inl (JsError (case p of
          Whatsapp \<Rightarrow> ''Delivering to WhatsApp requires --to <E.164> or whatsapp.allowFrom[0]''
        | Telegram \<Rightarrow> ''Delivering to Telegram requires --to <chatId>''
        | Discord \<Rightarrow> ''Delivering to Discord requires --to <channelId|user:ID|channel:ID>''
        | Slack \<Rightarrow> ''Delivering to Slack requires --to <channelId|user:ID|channel:ID>''
        | Signal \<Rightarrow> ''Delivering to Signal requires --to <E.164|group:ID|signal:group:ID|signal:+E.164>''
        | Imessage \<Rightarrow> ''Delivering to iMessage requires --to <handle|chat_id:ID>''
        | Msteams \<Rightarrow> ''Delivering to MS Teams requires --to <conversationId|user:ID|conversation:ID>'')))
   \<and> (\<not> blank to \<longrightarrow>
      (\<exists>s. to = Some s \<and> resolveOutboundTarget normalizeE164 (Provider p) to allowFrom
          = Inr (if p = Whatsapp then normalizeE164 (trim s) else trim s)))"
proof (intro conjI impI)
  assume a: "blank to \<and> (allowFrom = None \<or> allowFrom = Some [])"
  then have 1: "trimmed_truthy to = None" and 2: "first_allowFrom allowFrom = None"
    by (simp_all add: trimmed_truthy_blank first_allowFrom_none)
  have 3: "trimmed_truthy None = None" by (simp add: trimmed_truthy_def)
  show "resolveOutboundTarget normalizeE164 (Provider p) to allowFrom = Inl (JsError (case p of
          Whatsapp \<Rightarrow> ''Delivering to WhatsApp requires --to <E.164> or whatsapp.allowFrom[0]''
        | Telegram \<Rightarrow> ''Delivering to Telegram requires --to <chatId>''
        | Discord \<Rightarrow> ''Delivering to Discord requires --to <channelId|user:ID|channel:ID>''
        | Slack \<Rightarrow> ''Delivering to Slack requires --to <channelId|user:ID|channel:ID>''
        | Signal \<Rightarrow> ''Delivering to Signal requires --to <E.164|group:ID|signal:group:ID|signal:+E.164>''
        | Imessage \<Rightarrow> ''Delivering to iMessage requires --to <handle|chat_id:ID>''
        | Msteams \<Rightarrow> ''Delivering to MS Teams requires --to <conversationId|user:ID|conversation:ID>''))"
    by (cases p)
       (simp_all add: resolveOutboundTarget_def resolveOutboundTarget_with_def plugin_resolveTarget_def
         whatsapp_resolveTarget_def telegram_resolveTarget_def discord_resolveTarget_def
         slack_resolveTarget_def signal_resolveTarget_def imessage_resolveTarget_def
         msteams_resolveTarget_def 1 2 3)
next
  assume "\<not> blank to"
  from trimmed_truthy_not_blank[OF this] obtain s where
    s: "to = Some s" "trimmed_truthy to = Some (trim s)" by blast
  have "resolveOutboundTarget normalizeE164 (Provider p) to allowFrom
          = Inr (if p = Whatsapp then normalizeE164 (trim s) else trim s)"
    using s(2)
    by (cases p)
       (simp_all add: resolveOutboundTarget_def resolveOutboundTarget_with_def plugin_resolveTarget_def
         whatsapp_resolveTarget_def telegram_resolveTarget_def discord_resolveTarget_def
         slack_resolveTarget_def signal_resolveTarget_def imessage_resolveTarget_def
         msteams_resolveTarget_def)
  with s(1) show "\<exists>s. to = Some s \<and> resolveOutboundTarget normalizeE164 (Provider p) to allowFrom
          = Inr (if p = Whatsapp then normalizeE164 (trim s) else trim s)" by blast
qed

theorem target_resolution_witness:
  "blank (Some [0x20, 0x09]) \<and> resolveOutboundTarget id (Provider Signal) (Some [0x20, 0x09]) None
      = Inl (JsError ''Delivering to Signal requires --to <E.164|group:ID|signal:group:ID|signal:+E.164>'')
   \<and> \<not> blank (Some [0x20, 0x2B, 0x31, 0x0A])
   \<and> resolveOutboundTarget id (Provider Whatsapp) (Some [0x20, 0x2B, 0x31, 0x0A]) (Some []) = Inr [0x2B, 0x31]"
proof -
  have b1: "blank (Some [0x20, 0x09])" by (simp add: blank_def trim_def isWhiteSpace_def)
  have t: "trim [0x20, 0x2B, 0x31, 0x0A] = [0x2B, 0x31]" by (simp add: trim_def isWhiteSpace_def)
  then have b2: "\<not> blank (Some [0x20, 0x2B, 0x31, 0x0A])" by (simp add: blank_def)
  from target_resolution[of "Some [0x20, 0x09]" None id Signal] b1
  have 1: "resolveOutboundTarget id (Provider Signal) (Some [0x20, 0x09]) None
      = Inl (JsError ''Delivering to Signal requires --to <E.164|group:ID|signal:group:ID|signal:+E.164>'')"
    by simp
  from target_resolution[of "Some [0x20, 0x2B, 0x31, 0x0A]" "Some []" id Whatsapp] b2 t
  have 2: "resolveOutboundTarget id (Provider Whatsapp) (Some [0x20, 0x2B, 0x31, 0x0A]) (Some []) = Inr [0x2B, 0x31]"
    by simp
  from b1 b2 1 2 show ?thesis by simp
qed

section \<open>Properties of the process supervisor\<close>

lemma step_exited: "exited s \<Longrightarrow> step ev s = s"
  by (simp add: step_def)

lemma run_exited: "exited s \<Longrightarrow> run evs s = s"
  by (induction evs arbitrary: s) (simp_all add: step_exited)

lemma run_append: "run (xs @ ys) s = run ys (run xs s)"
  by (induction xs arbitrary: s) simp_all

text \<open>While a \<^verbatim>\<open>close\<close> is awaited, only its settling and the timer change anything.\<close>

lemma awaiting_step:
  "awaiting_close a s \<Longrightarrow> ev \<noteq> CloseSettled \<Longrightarrow> ev \<noteq> TimerFired \<Longrightarrow> step ev s = s"
  by (cases ev) (auto simp: awaiting_close_def step_def request_def)

lemma awaiting_run:
  "awaiting_close a s \<Longrightarrow> CloseSettled \<notin> set evs \<Longrightarrow> TimerFired \<notin> set evs \<Longrightarrow> run evs s = s"
  by (induction evs) (auto simp: awaiting_step)

lemma awaiting_ends:
  "awaiting_close Stop s \<Longrightarrow> ev = CloseSettled \<or> ev = TimerFired \<Longrightarrow> exited (step ev s)"
  by (auto simp: awaiting_close_def step_def finish_request_def)

lemma awaiting_stop_exit:
  assumes "awaiting_close Stop s"
  shows "exited (run evs s) \<longleftrightarrow> CloseSettled \<in> set evs \<or> TimerFired \<in> set evs"
proof (induction evs)
  case Nil
  from assms show ?case by (simp add: awaiting_close_def)
next
  case (Cons ev evs)
  show ?case
  proof (cases "ev = CloseSettled \<or> ev = TimerFired")
    case True
    with awaiting_ends[OF assms] have "exited (step ev s)" by simp
    then have "exited (run (ev # evs) s)" by (simp add: run_exited)
    with True show ?thesis by auto
  next
    case False
    with awaiting_step[OF assms, of ev] have "step ev s = s" by simp
    with Cons False show ?thesis by auto
  qed
qed

lemma restart_request:
  "serving n s \<Longrightarrow>
   step (SignalReceived Restart) s
     = s\<lparr>shuttingDown := True, forceExitTimer := True, closing := Some Restart, closed := closed s @ [n]\<rparr>"
  by (simp add: serving_def step_def request_def)

lemma restart_request_awaiting:
  "serving n s \<Longrightarrow> awaiting_close Restart (step (SignalReceived Restart) s)"
  by (simp add: serving_def step_def request_def awaiting_close_def)

subsection \<open>The states the loop reaches\<close>

lemma coherent_initial: "coherent initial_supervisor"
  by (simp add: coherent_def initial_supervisor_def)

lemma coherent_finish_request: "coherent (finish_request r (s\<lparr>shuttingDown := True, forceExitTimer := True\<rparr>))"
  by (simp add: coherent_def finish_request_def Let_def)

lemma coherent_request: "coherent s \<Longrightarrow> \<not> exited s \<Longrightarrow> coherent (request a s)"
  by (cases "server s") (auto simp: request_def coherent_def finish_request_def Let_def)

lemma coherent_step: "coherent s \<Longrightarrow> coherent (step ev s)"
proof (cases "exited s")
  case True
  then show "coherent s \<Longrightarrow> coherent (step ev s)" by (simp add: step_exited)
next
  case False
  assume c: "coherent s"
  show "coherent (step ev s)"
  proof (cases ev)
    case (SignalReceived a)
    with c False show ?thesis by (simp add: step_def coherent_request)
  next
    case StartResolved
    with c False show ?thesis by (auto simp: step_def coherent_def)
  next
    case StartRejected
    with c False show ?thesis by (auto simp: step_def coherent_def)
  next
    case CloseSettled
    with c False show ?thesis
      by (auto simp: step_def coherent_def finish_request_def Let_def split: option.splits)
  next
    case TimerFired
    with c False show ?thesis by (auto simp: step_def coherent_def)
  qed
qed

lemma coherent_run: "coherent s \<Longrightarrow> coherent (run evs s)"
  by (induction evs arbitrary: s) (simp_all add: coherent_step)

lemma stop_request_idle:
  assumes "coherent s" and "\<not> shuttingDown s" and "handlers s" and "\<not> exited s" and "server s = None"
  shows "exited (step (SignalReceived Stop) s)"
  using assms by (simp add: step_def request_def finish_request_def)

lemma stop_request_serving:
  assumes "coherent s" and "\<not> shuttingDown s" and "handlers s" and "\<not> exited s" and "server s = Some n"
  shows "awaiting_close Stop (step (SignalReceived Stop) s)"
    and "closed (step (SignalReceived Stop) s) = closed s @ [n]"
  using assms by (auto simp: step_def request_def awaiting_close_def coherent_def)

text \<open>
  \<^bold>\<open>C9\<close> (supervisor signal handling), as the code has it.
  \<^item> A signal that arrives while \<^verbatim>\<open>shuttingDown\<close> is set changes nothing.
  \<^item> A restart signal in normal operation calls \<^verbatim>\<open>close\<close> on the current server and arms
    the 5000 ms timer. Until the close settles or the timer fires nothing else happens:
    the process has not exited, no server has been constructed, and further signals are
    ignored (\<open>quiet\<close> is any sequence of other events). When the close settles first, the
    next \<^verbatim>\<open>params.start()\<close> constructs a new server in the same process and the loop is back
    in normal operation. When the timer fires first, the process exits and no new server
    is made.
  \<^item> A stop signal, in whatever state the loop has reached (after the events \<open>before\<close>),
    provided no shutdown is in progress and the loop has not ended: with no server up
    the process exits at once; with server \<open>n\<close> up, \<^verbatim>\<open>close\<close> is called on it, and the
    process has exited after the events \<open>later\<close> exactly when the close has settled or the
    timer has fired among them, that is, at the first of the two and not before.
\<close>

theorem supervisor_signals:
  "(shuttingDown s \<longrightarrow> step (SignalReceived a) s = s)
   \<and> (serving n s \<longrightarrow>
        (CloseSettled \<notin> set quiet \<and> TimerFired \<notin> set quiet \<longrightarrow>
           run (SignalReceived Restart # quiet) s
             = s\<lparr>shuttingDown := True, forceExitTimer := True, closing := Some Restart, closed := closed s @ [n]\<rparr>)
        \<and> run [SignalReceived Restart, CloseSettled, StartResolved] s
          = s\<lparr>server := Some (started s), started := Suc (started s), closed := closed s @ [n]\<rparr>
        \<and> serving (started s) (run [SignalReceived Restart, CloseSettled, StartResolved] s)
        \<and> exited (run [SignalReceived Restart, TimerFired] s)
        \<and> started (run [SignalReceived Restart, TimerFired] s) = started s)
   \<and> (\<not> shuttingDown (run before initial_supervisor) \<and> handlers (run before initial_supervisor)
        \<and> \<not> exited (run before initial_supervisor) \<longrightarrow>
        (server (run before initial_supervisor) = None \<longrightarrow>
           exited (step (SignalReceived Stop) (run before initial_supervisor)))
        \<and> (\<forall>k. server (run before initial_supervisor) = Some k \<longrightarrow>
              closed (step (SignalReceived Stop) (run before initial_supervisor))
                = closed (run before initial_supervisor) @ [k]
            \<and> (exited (run (SignalReceived Stop # later) (run before initial_supervisor))
                 \<longleftrightarrow> CloseSettled \<in> set later \<or> TimerFired \<in> set later)))"
proof (intro conjI impI allI)
  assume "shuttingDown s"
  then show "step (SignalReceived a) s = s" by (simp add: step_def request_def)
next
  assume a: "serving n s" and q: "CloseSettled \<notin> set quiet \<and> TimerFired \<notin> set quiet"
  from awaiting_run[OF restart_request_awaiting[OF a], of quiet] q
  show "run (SignalReceived Restart # quiet) s
      = s\<lparr>shuttingDown := True, forceExitTimer := True, closing := Some Restart, closed := closed s @ [n]\<rparr>"
    by (simp add: restart_request[OF a])
next
  assume a: "serving n s"
  show r: "run [SignalReceived Restart, CloseSettled, StartResolved] s
          = s\<lparr>server := Some (started s), started := Suc (started s), closed := closed s @ [n]\<rparr>"
    using a by (simp add: serving_def step_def request_def finish_request_def)
  show "serving (started s) (run [SignalReceived Restart, CloseSettled, StartResolved] s)"
    unfolding r using a by (simp add: serving_def)
  show "exited (run [SignalReceived Restart, TimerFired] s)"
    using a by (simp add: serving_def step_def request_def)
  show "started (run [SignalReceived Restart, TimerFired] s) = started s"
    using a by (simp add: serving_def step_def request_def)
next
  let ?s = "run before initial_supervisor"
  assume h: "\<not> shuttingDown ?s \<and> handlers ?s \<and> \<not> exited ?s"
  have c: "coherent ?s" using coherent_initial by (rule coherent_run)
  {
    assume "server ?s = None"
    with c h show "exited (step (SignalReceived Stop) ?s)" by (simp add: stop_request_idle)
  }
  {
    fix k assume k: "server ?s = Some k"
    from c h k show "closed (step (SignalReceived Stop) ?s) = closed ?s @ [k]"
      by (simp add: stop_request_serving(2))
    from c h k have "awaiting_close Stop (step (SignalReceived Stop) ?s)"
      by (simp add: stop_request_serving(1))
    from awaiting_stop_exit[OF this, of later]
    show "exited (run (SignalReceived Stop # later) ?s) \<longleftrightarrow> CloseSettled \<in> set later \<or> TimerFired \<in> set later"
      by simp
  }
qed

text \<open>
  A restart signal can end the process: the first server is up, SIGUSR1 arrives, and the
  timer fires before \<^verbatim>\<open>close\<close> settles. The process has exited and only the first server
  was ever constructed.
\<close>

theorem restart_can_exit:
  "serving 0 (run [StartResolved] initial_supervisor)
   \<and> exited (run [StartResolved, SignalReceived Restart, TimerFired] initial_supervisor)
   \<and> started (run [StartResolved, SignalReceived Restart, TimerFired] initial_supervisor) = 1"
  by (simp add: initial_supervisor_def serving_def step_def request_def)

theorem supervisor_signals_witness:
  "serving 0 (run [StartResolved] initial_supervisor)
   \<and> shuttingDown (run [StartResolved, SignalReceived Restart] initial_supervisor)
   \<and> step (SignalReceived Stop) (run [StartResolved, SignalReceived Restart] initial_supervisor)
       = run [StartResolved, SignalReceived Restart] initial_supervisor
   \<and> \<not> exited (run (SignalReceived Restart # [SignalReceived Stop, StartResolved]) (run [StartResolved] initial_supervisor))
   \<and> started (run (SignalReceived Restart # [SignalReceived Stop, StartResolved]) (run [StartResolved] initial_supervisor)) = 1
   \<and> serving 1 (run [SignalReceived Restart, CloseSettled, StartResolved] (run [StartResolved] initial_supervisor))
   \<and> exited (run (SignalReceived Stop # [SignalReceived Restart, CloseSettled]) (run [StartResolved] initial_supervisor))
   \<and> \<not> exited (run (SignalReceived Stop # [SignalReceived Restart, StartResolved]) (run [StartResolved] initial_supervisor))
   \<and> exited (step (SignalReceived Stop) (run [] initial_supervisor))"
proof -
  let ?s = "run [StartResolved] initial_supervisor"
  let ?d = "run [StartResolved, SignalReceived Restart] initial_supervisor"
  have s: "serving 0 ?s" by (simp add: initial_supervisor_def serving_def step_def)
  have st: "started ?s = 1" "exited ?s = False" by (simp_all add: initial_supervisor_def step_def)
  have d: "shuttingDown ?d" by (simp add: initial_supervisor_def step_def request_def)
  have up: "\<not> shuttingDown ?s" "handlers ?s" "\<not> exited ?s" "server ?s = Some 0"
    using s by (simp_all add: serving_def)
  have idle: "\<not> shuttingDown (run [] initial_supervisor)" "handlers (run [] initial_supervisor)"
      "\<not> exited (run [] initial_supervisor)" "server (run [] initial_supervisor) = None"
    by (simp_all add: initial_supervisor_def)
  from supervisor_signals[of ?d Stop] d have 1: "step (SignalReceived Stop) ?d = ?d" by simp
  note T = supervisor_signals[where s="?s" and n=0 and quiet="[SignalReceived Stop, StartResolved]"
      and before="[StartResolved]" and later="[SignalReceived Restart, CloseSettled]"]
  have q: "CloseSettled \<notin> set [SignalReceived Stop, StartResolved] \<and> TimerFired \<notin> set [SignalReceived Stop, StartResolved]"
    by simp
  from T s q have "run (SignalReceived Restart # [SignalReceived Stop, StartResolved]) ?s
      = ?s\<lparr>shuttingDown := True, forceExitTimer := True, closing := Some Restart, closed := closed ?s @ [0]\<rparr>"
    by blast
  moreover have "exited (x\<lparr>shuttingDown := True, forceExitTimer := True, closing := Some Restart, closed := c\<rparr>) = exited x"
      "started (x\<lparr>shuttingDown := True, forceExitTimer := True, closing := Some Restart, closed := c\<rparr>) = started x"
    for x :: supervisor and c by simp_all
  ultimately have 2: "\<not> exited (run (SignalReceived Restart # [SignalReceived Stop, StartResolved]) ?s)"
      "started (run (SignalReceived Restart # [SignalReceived Stop, StartResolved]) ?s) = 1"
    using st by (simp_all only: simp_thms)
  from T s have "serving (started ?s) (run [SignalReceived Restart, CloseSettled, StartResolved] ?s)"
    by blast
  then have 3: "serving 1 (run [SignalReceived Restart, CloseSettled, StartResolved] ?s)"
    by (simp only: st)
  have "CloseSettled \<in> set [SignalReceived Restart, CloseSettled]" by simp
  with T up have 4: "exited (run (SignalReceived Stop # [SignalReceived Restart, CloseSettled]) ?s)"
    by blast
  note U = supervisor_signals[where before="[StartResolved]" and later="[SignalReceived Restart, StartResolved]"]
  have "\<not> (CloseSettled \<in> set [SignalReceived Restart, StartResolved] \<or> TimerFired \<in> set [SignalReceived Restart, StartResolved])"
    by simp
  with U up have 5: "\<not> exited (run (SignalReceived Stop # [SignalReceived Restart, StartResolved]) ?s)"
    by blast
  note V = supervisor_signals[where before="[]"]
  from V idle have 6: "exited (step (SignalReceived Stop) (run [] initial_supervisor))" by blast
  from s d 1 2 3 4 5 6 show ?thesis by blast
qed

section \<open>Properties of the runtime manager\<close>

subsection \<open>The primitives, one observation at a time\<close>

lemma update_store_simps [simp]:
  "controllers (update_store p f m) = controllers m"
  "launched (update_store p f m) = launched m"
  "settled (update_store p f m) = settled m"
  "aborted (update_store p f m) = aborted m"
  "stores (update_store p f m) q = (if q = p then f (stores m p) else stores m q)"
  by (simp_all add: update_store_def)

lemma live_update_store [simp]: "live (update_store p f m) = live m"
  by (simp add: live_def)

lemma setRuntime_simps [simp]:
  "controllers (setRuntime p a pt m) = controllers m"
  "launched (setRuntime p a pt m) = launched m"
  "settled (setRuntime p a pt m) = settled m"
  "aborted (setRuntime p a pt m) = aborted m"
  "live (setRuntime p a pt m) = live m"
  "tasks (stores (setRuntime p a pt m) q) = tasks (stores m q)"
  "aborts (stores (setRuntime p a pt m) q) = aborts (stores m q)"
  by (simp_all add: setRuntime_def)

lemma task_handle_setRuntime [simp]: "task_handle (setRuntime p a pt m) q b = task_handle m q b"
  by (simp add: task_handle_def)

lemma abort_handle_setRuntime [simp]: "abort_handle (setRuntime p a pt m) q b = abort_handle m q b"
  by (simp add: abort_handle_def)

lemma getRuntime_setRuntime:
  "getRuntime q b (setRuntime p a pt m) =
     (if q = p \<and> b = a then merge_snapshot (getRuntime p a m) pt a else getRuntime q b m)"
  by (auto simp: getRuntime_def setRuntime_def update_conv')

lemma getRuntime_update_store_other:
  "runtimes (f (stores m p)) = runtimes (stores m p) \<Longrightarrow> getRuntime q b (update_store p f m) = getRuntime q b m"
  by (simp add: getRuntime_def)

lemma getRuntime_cong:
  "stores m' = stores m \<Longrightarrow> getRuntime q b m' = getRuntime q b m"
  by (simp add: getRuntime_def)

lemma running_merge [simp]:
  "running (merge_snapshot c pt a) = spread (running c) (running pt)"
  "lastError (merge_snapshot c pt a) = spread (lastError c) (lastError pt)"
  "lastStartAt (merge_snapshot c pt a) = spread (lastStartAt c) (lastStartAt pt)"
  "lastStopAt (merge_snapshot c pt a) = spread (lastStopAt c) (lastStopAt pt)"
  "connected (merge_snapshot c pt a) = spread (connected c) (connected pt)"
  "accountId (merge_snapshot c pt a) = a"
  by (simp_all add: merge_snapshot_def)

lemma spread_simps [simp]: "spread c None = c" "spread c (Some v) = Some v"
  by (simp_all add: spread_def)

lemma patch_simps [simp]:
  "running (patch a) = None" "connected (patch a) = None" "lastStartAt (patch a) = None"
  "lastStopAt (patch a) = None" "lastError (patch a) = None" "other (patch a) = []" "accountId (patch a) = a"
  by (simp_all add: patch_def)

subsection \<open>\<open>launch\<close>\<close>

lemma ghost_update [simp]:
  "task_handle (m\<lparr>settled := x\<rparr>) = task_handle m"
  "abort_handle (m\<lparr>settled := x\<rparr>) = abort_handle m"
  "getRuntime q b (m\<lparr>settled := x\<rparr>) = getRuntime q b m"
  "task_handle (m\<lparr>aborted := y\<rparr>) = task_handle m"
  "abort_handle (m\<lparr>aborted := y\<rparr>) = abort_handle m"
  "getRuntime q b (m\<lparr>aborted := y\<rparr>) = getRuntime q b m"
  "task_handle (m\<lparr>controllers := k\<rparr>) = task_handle m"
  "abort_handle (m\<lparr>controllers := k\<rparr>) = abort_handle m"
  "getRuntime q b (m\<lparr>controllers := k\<rparr>) = getRuntime q b m"
  "task_handle (m\<lparr>launched := l\<rparr>) = task_handle m"
  "abort_handle (m\<lparr>launched := l\<rparr>) = abort_handle m"
  "getRuntime q b (m\<lparr>launched := l\<rparr>) = getRuntime q b m"
  by (simp_all add: task_handle_def abort_handle_def getRuntime_def fun_eq_iff)

lemma begin_launch_simps [simp]:
  "controllers (begin_launch p a now m) = Suc (controllers m)"
  "launched (begin_launch p a now m) = launched m"
  "settled (begin_launch p a now m) = settled m"
  "aborted (begin_launch p a now m) = aborted m"
  "live (begin_launch p a now m) = live m"
  by (simp_all add: begin_launch_def Let_def live_def)

lemma task_handle_begin_launch [simp]: "task_handle (begin_launch p a now m) q b = task_handle m q b"
  by (simp add: begin_launch_def Let_def) (simp add: task_handle_def)

lemma abort_handle_begin_launch [simp]:
  "abort_handle (begin_launch p a now m) q b =
     (if q = p \<and> b = a then Some (controllers m) else abort_handle m q b)"
  by (simp add: begin_launch_def Let_def) (simp add: abort_handle_def update_conv')

lemma getRuntime_begin_launch:
  "getRuntime q b (begin_launch p a now m) =
     (if q = p \<and> b = a
      then merge_snapshot (getRuntime p a m)
             ((patch a)\<lparr>running := Some True, lastStartAt := Some (Val now), lastError := Some Null\<rparr>) a
      else getRuntime q b m)"
  by (auto simp: begin_launch_def Let_def getRuntime_def setRuntime_def update_conv' update_store_def)

lemma register_task_simps [simp]:
  "controllers (register_task p a n m) = controllers m"
  "launched (register_task p a n m) = launched m @ [(n, p, a)]"
  "settled (register_task p a n m) = settled m"
  "aborted (register_task p a n m) = aborted m"
  "task_handle (register_task p a n m) q b = (if q = p \<and> b = a then Some n else task_handle m q b)"
  "abort_handle (register_task p a n m) q b = abort_handle m q b"
  "getRuntime q b (register_task p a n m) = getRuntime q b m"
  by (simp_all add: register_task_def task_handle_def abort_handle_def getRuntime_def update_conv')

lemma launch_simps [simp]:
  "controllers (launch p a now m) = Suc (controllers m)"
  "launched (launch p a now m) = launched m @ [(controllers m, p, a)]"
  "settled (launch p a now m) = settled m"
  "aborted (launch p a now m) = aborted m"
  by (simp_all add: launch_def)

lemma task_handle_launch [simp]:
  "task_handle (launch p a now m) q b =
     (if q = p \<and> b = a then Some (controllers m) else task_handle m q b)"
  by (simp add: launch_def)

lemma abort_handle_launch [simp]:
  "abort_handle (launch p a now m) q b =
     (if q = p \<and> b = a then Some (controllers m) else abort_handle m q b)"
  by (simp add: launch_def)

lemma getRuntime_launch:
  "getRuntime q b (launch p a now m) =
     (if q = p \<and> b = a
      then merge_snapshot (getRuntime p a m)
             ((patch a)\<lparr>running := Some True, lastStartAt := Some (Val now), lastError := Some Null\<rparr>) a
      else getRuntime q b m)"
  by (simp add: launch_def getRuntime_begin_launch)

lemma live_launch:
  "well_formed m \<Longrightarrow> live (launch p a now m) = live m @ [(controllers m, p, a)]"
  by (auto simp: live_def well_formed_def)

lemma well_formed_begin_launch: "well_formed m \<Longrightarrow> well_formed (begin_launch p a now m)"
  by (auto simp: well_formed_def less_Suc_eq)


lemma start_connection_cases:
  obtains (throws) e where "called = Inl e" "start_connection called p a now m = (Some e, begin_launch p a now m)"
  | (returns) "called = Inr ()" "start_connection called p a now m = (None, launch p a now m)"
  by (cases called) (auto simp: start_connection_def)

subsection \<open>\<open>startProvider\<close> for one account\<close>

lemma getProviderPlugin_id: "getProviderPlugin PROVIDERS p = Some plugin \<Longrightarrow> plugin_id plugin = p"
  unfolding getProviderPlugin_def by (induction PROVIDERS) (auto split: if_splits)

lemma startProvider_running:
  assumes "task_handle m p a \<noteq> None" and "a \<noteq> ''''"
  shows "startProvider PROVIDERS cfg now p (Some a) m = (Inr (), m)"
  using assms
  by (auto simp: startProvider_def startProvider_called_def start_accountIds_def start_account_begin_def
      task_handle_def split: option.splits)

lemma startProvider_startable:
  assumes "getProviderPlugin PROVIDERS p = Some plugin"
    and "a \<noteq> ''''" and "task_handle m p a = None" and "startable plugin cfg a"
  shows "startProvider PROVIDERS cfg now p (Some a) m = (Inr (), launch p a (now a) m)"
proof -
  have id: "plugin_id plugin = p" using assms(1) by (rule getProviderPlugin_id)
  from assms(4) obtain start where st: "startAccount plugin = Some start"
      "start cfg a (resolveAccount plugin cfg a) = Inr ()"
    by (auto simp: startable_def split: option.splits)
  show ?thesis
  proof (cases "isConfigured plugin")
    case None
    with assms id st show ?thesis
      by (simp add: startProvider_def startProvider_called_def start_accountIds_def start_account_begin_def
          start_connection_def task_handle_def startable_def)
  next
    case (Some f)
    with assms id st show ?thesis
      by (simp add: startProvider_def startProvider_called_def startProvider_resumed_def start_accountIds_def
          start_account_begin_def start_account_resume_def start_connection_def task_handle_def startable_def)
  qed
qed

text \<open>
  Starting twice, the second call made once the first has returned. Take an account that
  can be started (it is enabled and configured, and \<^verbatim>\<open>startAccount\<close> returns) and has no
  task. The first \<^verbatim>\<open>startProvider(P, A)\<close> resolves, makes one \<^verbatim>\<open>startAccount\<close> call,
  registers its task and sets \<^verbatim>\<open>lastStartAt\<close> to the time of the call. A second
  \<^verbatim>\<open>startProvider(P, A)\<close>, with no stop and no end of the task in between, under whatever
  configuration and at whatever time, resolves too and leaves the manager exactly as it
  was.
\<close>

lemma start_after_start:
  assumes plugin: "getProviderPlugin PROVIDERS p = Some plugin"
    and a: "a \<noteq> ''''"
    and startable: "startable plugin cfg a"
    and stopped: "task_handle m p a = None" "live_tasks_of m p a = []"
    and wf: "well_formed m"
    and first: "startProvider PROVIDERS cfg now p (Some a) m = (r1, m1)"
    and second: "startProvider PROVIDERS cfg' now' p (Some a) m1 = (r2, m2)"
  shows "r1 = Inr () \<and> r2 = Inr () \<and> m2 = m1
       \<and> task_handle m2 p a = Some (controllers m)
       \<and> live_tasks_of m2 p a = [(controllers m, p, a)]
       \<and> launched m2 = launched m @ [(controllers m, p, a)]
       \<and> lastStartAt (getRuntime p a m2) = Some (Val (now a))"
proof -
  from startProvider_startable[OF plugin a stopped(1) startable, of now] first
  have 1: "r1 = Inr ()" "m1 = launch p a (now a) m" by simp_all
  have t: "task_handle m1 p a = Some (controllers m)" by (simp add: 1)
  then have "task_handle m1 p a \<noteq> None" by simp
  from startProvider_running[OF this a, of PROVIDERS cfg' now'] second
  have 2: "r2 = Inr ()" "m2 = m1" by simp_all
  have l: "live_tasks_of m1 p a = [(controllers m, p, a)]"
    using stopped(2) by (simp add: live_tasks_of_def 1 live_launch[OF wf])
  have s: "lastStartAt (getRuntime p a m1) = Some (Val (now a))"
    by (simp add: 1 getRuntime_launch)
  from 1 2 t l s show ?thesis by simp
qed

subsection \<open>Settlement\<close>

lemma handle_delete [simp]:
  "task_handle (update_store p (\<lambda>s. s\<lparr>aborts := AList.delete a (aborts s), tasks := AList.delete a (tasks s)\<rparr>) m) q b
     = (if q = p \<and> b = a then None else task_handle m q b)"
  "abort_handle (update_store p (\<lambda>s. s\<lparr>aborts := AList.delete a (aborts s), tasks := AList.delete a (tasks s)\<rparr>) m) q b
     = (if q = p \<and> b = a then None else abort_handle m q b)"
  by (simp_all add: task_handle_def abort_handle_def delete_conv')

lemma getRuntime_delete [simp]:
  "getRuntime q b (update_store p (\<lambda>s. s\<lparr>aborts := AList.delete a (aborts s), tasks := AList.delete a (tasks s)\<rparr>) m)
     = getRuntime q b m"
  by (simp add: getRuntime_def)

lemma tracked_handlers_simps [simp]:
  "launched (tracked_handlers fmt now p a outcome m) = launched m"
  "settled (tracked_handlers fmt now p a outcome m) = settled m"
  "aborted (tracked_handlers fmt now p a outcome m) = aborted m"
  "task_handle (tracked_handlers fmt now p a outcome m) q b = (if q = p \<and> b = a then None else task_handle m q b)"
  "abort_handle (tracked_handlers fmt now p a outcome m) q b = (if q = p \<and> b = a then None else abort_handle m q b)"
  by (simp_all add: tracked_handlers_def Let_def split: task_outcome.splits)

lemma getRuntime_tracked_handlers_other:
  "(q, b) \<noteq> (p, a) \<Longrightarrow> getRuntime q b (tracked_handlers fmt now p a outcome m) = getRuntime q b m"
  by (auto simp: tracked_handlers_def Let_def getRuntime_setRuntime split: task_outcome.splits)


lemma settle_task_cases:
  obtains (idle) "settle_task fmt now n outcome m = m"
  | (runs) p a where "(n, p, a) \<in> set (live m)"
      "settle_task fmt now n outcome m = (tracked_handlers fmt now p a outcome m)\<lparr>settled := settled m @ [n]\<rparr>"
proof (cases "find (\<lambda>(k, p, a). k = n) (live m)")
  case None
  then have "settle_task fmt now n outcome m = m" by (simp add: settle_task_def)
  then show ?thesis by (rule idle)
next
  case (Some x)
  obtain k p a where x: "x = (k, p, a)" by (cases x)
  from Some have "x \<in> set (live m)" "(\<lambda>(k, p, a). k = n) x"
    by (auto simp: find_Some_iff in_set_conv_nth)
  with x have "(n, p, a) \<in> set (live m)" by simp
  moreover from Some x have "settle_task fmt now n outcome m = (tracked_handlers fmt now p a outcome m)\<lparr>settled := settled m @ [n]\<rparr>"
    by (simp add: settle_task_def)
  ultimately show ?thesis by (rule runs)
qed

subsection \<open>\<open>stopProvider\<close> for one account\<close>

lemma stopProvider_single:
  "a \<noteq> '''' \<Longrightarrow>
   stopProvider PROVIDERS cfg fmt answers p (Some a) m =
     (case stop_account (getProviderPlugin PROVIDERS p) cfg fmt answers p a m of
        (None, m') \<Rightarrow> (Inr (), m')
      | (Some e, m') \<Rightarrow> (Inl e, m'))"
  by (simp add: stopProvider_def Let_def split: prod.splits option.splits)

lemma settle_task_handles:
  "task_handle (settle_task fmt now n outcome m) q b = None \<or>
   task_handle (settle_task fmt now n outcome m) q b = task_handle m q b"
  "abort_handle (settle_task fmt now n outcome m) q b = None \<or>
   abort_handle (settle_task fmt now n outcome m) q b = abort_handle m q b"
  by (cases fmt now n outcome m rule: settle_task_cases; simp)+

lemma stop_account_registered:
  assumes "task_handle m p a = Some n"
    and "\<And>q. plugin = Some q \<Longrightarrow> \<forall>f e. stopAccount q = Some f \<longrightarrow> f cfg a (resolveAccount q cfg a) \<noteq> Inl e"
  shows "stop_account plugin cfg fmt answers p a m =
     (None, setRuntime p a ((patch a)\<lparr>running := Some False, lastStopAt := Some (Val (stopped_at (answers a)))\<rparr>)
        (update_store p (\<lambda>s. s\<lparr>aborts := AList.delete a (aborts s), tasks := AList.delete a (tasks s)\<rparr>)
           (settle_task fmt (handlers_at (answers a)) n (task_ends (answers a)) (abort_signalled p a m))))"
proof -
  define hook where "hook = (case plugin of None \<Rightarrow> None
     | Some q \<Rightarrow> map_option (\<lambda>f. f cfg a (resolveAccount q cfg a)) (stopAccount q))"
  from assms(2) have "\<nexists>e. hook = Some (Inl e)"
    by (auto simp: hook_def split: option.splits)
  then have h: "(case hook of Some (Inl e) \<Rightarrow> X e | _ \<Rightarrow> Y) = Y"
    for X :: "js_error \<Rightarrow> js_error option \<times> manager" and Y
    by (auto split: option.splits sum.splits)
  show ?thesis
    using assms(1)
    unfolding stop_account_def Let_def hook_def[symmetric]
    by (simp add: h task_handle_def[symmetric] abort_handle_def[symmetric] abort_signalled_def)
qed

lemma stop_account_hook_rejects:
  assumes "task_handle m p a = Some n"
    and "plugin = Some q" "stopAccount q = Some f" "f cfg a (resolveAccount q cfg a) = Inl e"
  shows "stop_account plugin cfg fmt answers p a m = (Some e, abort_signalled p a m)"
  using assms
  by (simp add: stop_account_def Let_def task_handle_def abort_handle_def abort_signalled_def)

lemma aborted_settle_task [simp]: "aborted (settle_task fmt now n outcome m) = aborted m"
  by (cases rule: settle_task_cases[where fmt=fmt and now=now and n=n and outcome=outcome and m=m]) simp_all

text \<open>
  \<^bold>\<open>C3\<close> (stop postcondition). \<^verbatim>\<open>stopProvider(P, A)\<close> for an account whose task is
  registered. However the task ends once it is cancelled (fulfilled or rejected, the
  theorem holds for every answer of the world), the call resolves, unless the plugin has
  a \<^verbatim>\<open>stopAccount\<close> hook and that hook itself rejects: the task's own error never reaches
  the caller. When the call resolves, the account has no task and no cancellation handle
  in the store, its snapshot says \<^verbatim>\<open>running: false\<close> with \<^verbatim>\<open>lastStopAt\<close> set to the time of
  the stop, and the account's cancellation handle has been aborted.
\<close>

theorem stop_postcondition:
  assumes a: "a \<noteq> ''''"
    and started: "task_handle m p a = Some n"
    and stop: "stopProvider PROVIDERS cfg fmt answers p (Some a) m = (r, m')"
  shows "(case stop_hook PROVIDERS cfg p a of Some (Inl e) \<Rightarrow> r = Inl e | _ \<Rightarrow> r = Inr ())
       \<and> (r = Inr () \<longrightarrow>
            task_handle m' p a = None \<and> abort_handle m' p a = None
          \<and> running (getRuntime p a m') = Some False
          \<and> lastStopAt (getRuntime p a m') = Some (Val (stopped_at (answers a)))
          \<and> (\<forall>k. abort_handle m p a = Some k \<longrightarrow> k \<in> set (aborted m')))"
proof (cases "\<exists>e. stop_hook PROVIDERS cfg p a = Some (Inl e)")
  case True
  then obtain e where e: "stop_hook PROVIDERS cfg p a = Some (Inl e)" by blast
  then obtain q f where q: "getProviderPlugin PROVIDERS p = Some q" "stopAccount q = Some f"
      "f cfg a (resolveAccount q cfg a) = Inl e"
    by (auto simp: stop_hook_def split: option.splits)
  from stop_account_hook_rejects[OF started q, where fmt=fmt and answers=answers] stop a
  have "r = Inl e" by (simp add: stopProvider_single)
  with e show ?thesis by simp
next
  case False
  then have no: "\<And>q. getProviderPlugin PROVIDERS p = Some q \<Longrightarrow>
      \<forall>f e. stopAccount q = Some f \<longrightarrow> f cfg a (resolveAccount q cfg a) \<noteq> Inl e"
    by (auto simp: stop_hook_def)
  from stop_account_registered[OF started no, where fmt=fmt and answers=answers] stop a
  have r: "r = Inr ()"
    and m': "m' = setRuntime p a ((patch a)\<lparr>running := Some False, lastStopAt := Some (Val (stopped_at (answers a)))\<rparr>)
        (update_store p (\<lambda>s. s\<lparr>aborts := AList.delete a (aborts s), tasks := AList.delete a (tasks s)\<rparr>)
           (settle_task fmt (handlers_at (answers a)) n (task_ends (answers a)) (abort_signalled p a m)))"
    by (simp_all add: stopProvider_single)
  have 1: "task_handle m' p a = None" "abort_handle m' p a = None"
    by (simp_all add: m')
  have 2: "running (getRuntime p a m') = Some False"
      "lastStopAt (getRuntime p a m') = Some (Val (stopped_at (answers a)))"
    by (simp_all add: m' getRuntime_setRuntime)
  have 3: "\<forall>k. abort_handle m p a = Some k \<longrightarrow> k \<in> set (aborted m')"
    by (auto simp: m' abort_signalled_def)
  from False have "(case stop_hook PROVIDERS cfg p a of Some (Inl e) \<Rightarrow> r = Inl e | _ \<Rightarrow> r = Inr ())"
    using r by (auto split: option.splits sum.splits)
  with r 1 2 3 show ?thesis by simp
qed

subsection \<open>The invariant, turn by turn\<close>

lemma tracked_running_begin_launch: "tracked_running m \<Longrightarrow> tracked_running (begin_launch p a now m)"
  by (auto simp: tracked_running_def getRuntime_begin_launch)

lemma tracked_running_launch: "tracked_running m \<Longrightarrow> tracked_running (launch p a now m)"
  by (auto simp: tracked_running_def getRuntime_launch)

lemma tracked_running_start_connection:
  "tracked_running m \<Longrightarrow> tracked_running (snd (start_connection called p a now m))"
  by (cases rule: start_connection_cases[where called=called and p=p and a=a and now=now and m=m])
     (simp_all add: tracked_running_begin_launch tracked_running_launch)

lemma tracked_running_setRuntime_stopped:
  "tracked_running m \<Longrightarrow> task_handle m p a = None \<Longrightarrow> tracked_running (setRuntime p a pt m)"
  by (auto simp: tracked_running_def getRuntime_setRuntime)

lemma tracked_running_tracked_handlers:
  "tracked_running m \<Longrightarrow> tracked_running (tracked_handlers fmt now p a outcome m)"
  unfolding tracked_running_def
  by (auto simp: getRuntime_tracked_handlers_other split: if_splits)

lemma tracked_running_ghost [simp]:
  "tracked_running (m\<lparr>settled := x\<rparr>) = tracked_running m"
  "tracked_running (m\<lparr>aborted := y\<rparr>) = tracked_running m"
  by (simp_all add: tracked_running_def)

lemma tracked_running_settle_task:
  "tracked_running m \<Longrightarrow> tracked_running (settle_task fmt now n outcome m)"
  by (cases fmt now n outcome m rule: settle_task_cases) (simp_all add: tracked_running_tracked_handlers)

lemma tracked_running_delete:
  "tracked_running m \<Longrightarrow>
   tracked_running (update_store p (\<lambda>s. s\<lparr>aborts := AList.delete a (aborts s), tasks := AList.delete a (tasks s)\<rparr>) m)"
  by (auto simp: tracked_running_def split: if_splits)

lemma tracked_running_stop_account_resumed:
  "tracked_running m \<Longrightarrow> tracked_running (stop_account_resumed p a now m)"
  unfolding stop_account_resumed_def
  by (intro tracked_running_setRuntime_stopped tracked_running_delete) simp_all

lemma stop_account_called_state:
  "snd (stop_account_called plugin cfg p a m) = m \<or>
   (\<exists>n. snd (stop_account_called plugin cfg p a m) = m\<lparr>aborted := aborted m @ [n]\<rparr>)"
  unfolding stop_account_called_def Let_def
  by (auto split: option.splits sum.splits)

lemma tracked_running_stop_account_called:
  "tracked_running m \<Longrightarrow> tracked_running (snd (stop_account_called plugin cfg p a m))"
  using stop_account_called_state[of plugin cfg p a m] by auto

lemma tracked_running_stop_called_all:
  "tracked_running m \<Longrightarrow> tracked_running (snd (snd (stop_called_all plugin cfg p as m)))"
proof (induction as arbitrary: m)
  case Nil
  then show ?case by simp
next
  case (Cons a as)
  obtain c m1 where 1: "stop_account_called plugin cfg p a m = (c, m1)"
    by (cases "stop_account_called plugin cfg p a m")
  obtain ws e m2 where 2: "stop_called_all plugin cfg p as m1 = (ws, e, m2)"
    by (cases "stop_called_all plugin cfg p as m1")
  from tracked_running_stop_account_called[OF Cons.prems, of plugin cfg p a] 1
  have "tracked_running m1" by simp
  from Cons.IH[OF this] 2 have "tracked_running m2" by simp
  with 1 2 show ?case by simp
qed

lemma tracked_running_stopProvider_called:
  "tracked_running m \<Longrightarrow> tracked_running (snd (snd (stopProvider_called PROVIDERS cfg p a m)))"
  unfolding stopProvider_called_def Let_def by (rule tracked_running_stop_called_all)

lemma start_account_begin_cases:
  obtains (running) "task_handle m p a \<noteq> None"
      "start_account_begin plugin start cfg now p a m = (Returned, m)"
  | (disabled) "task_handle m p a = None" "\<not> account_enabled cfg p (resolveAccount plugin cfg a)"
      "start_account_begin plugin start cfg now p a m =
         (Returned, setRuntime p a ((patch a)\<lparr>running := Some False, lastError := Some (Val ''disabled'')\<rparr>) m)"
  | (launches) "task_handle m p a = None" "account_enabled cfg p (resolveAccount plugin cfg a)"
      "isConfigured plugin = None" "start cfg a (resolveAccount plugin cfg a) = Inr ()"
      "start_account_begin plugin start cfg now p a m = (Returned, launch p a (now a) m)"
  | (throws) e where "task_handle m p a = None" "account_enabled cfg p (resolveAccount plugin cfg a)"
      "isConfigured plugin = None" "start cfg a (resolveAccount plugin cfg a) = Inl e"
      "start_account_begin plugin start cfg now p a m = (Threw e, begin_launch p a (now a) m)"
  | (waits) f where "task_handle m p a = None" "account_enabled cfg p (resolveAccount plugin cfg a)"
      "isConfigured plugin = Some f"
      "start_account_begin plugin start cfg now p a m = (Awaits (a, f (resolveAccount plugin cfg a) cfg), m)"
proof (cases "task_handle m p a = None")
  case False
  then show ?thesis by (intro running) (auto simp: start_account_begin_def task_handle_def)
next
  case True
  note t = True
  show ?thesis
  proof (cases "account_enabled cfg p (resolveAccount plugin cfg a)")
    case False
    with t show ?thesis by (intro disabled) (auto simp: start_account_begin_def task_handle_def)
  next
    case True
    note en = True
    show ?thesis
    proof (cases "isConfigured plugin")
      case (Some f)
      with t en show ?thesis by (intro waits[of f]) (auto simp: start_account_begin_def task_handle_def)
    next
      case None
      show ?thesis
      proof (cases "start cfg a (resolveAccount plugin cfg a)")
        case (Inl e)
        with t en None show ?thesis
          by (intro throws[of e]) (auto simp: start_account_begin_def task_handle_def start_connection_def)
      next
        case (Inr u)
        with t en None show ?thesis
          by (intro launches) (auto simp: start_account_begin_def task_handle_def start_connection_def)
      qed
    qed
  qed
qed

lemma start_account_resume_cases:
  obtains (rejects) e where "r = Inl e" "start_account_resume plugin start cfg now p (a, r) m = (Some e, m)"
  | (not_configured) "r = Inr False"
      "start_account_resume plugin start cfg now p (a, r) m =
         (None, setRuntime p a ((patch a)\<lparr>running := Some False,
             lastError := Some (Val (if p = Whatsapp then ''not linked'' else ''not configured''))\<rparr>) m)"
  | (launches) "r = Inr True" "start cfg a (resolveAccount plugin cfg a) = Inr ()"
      "start_account_resume plugin start cfg now p (a, r) m = (None, launch p a (now a) m)"
  | (throws) e where "r = Inr True" "start cfg a (resolveAccount plugin cfg a) = Inl e"
      "start_account_resume plugin start cfg now p (a, r) m = (Some e, begin_launch p a (now a) m)"
  by (cases r; cases "start cfg a (resolveAccount plugin cfg a)")
     (auto simp: start_account_resume_def start_connection_def)

lemma tracked_running_start_account_begin:
  "tracked_running m \<Longrightarrow> tracked_running (snd (start_account_begin plugin start cfg now p a m))"
  by (cases rule: start_account_begin_cases[where m=m and p=p and a=a and plugin=plugin and cfg=cfg
        and now=now and start=start])
     (simp_all add: tracked_running_setRuntime_stopped tracked_running_launch tracked_running_begin_launch)

lemma tracked_running_start_begin_all:
  "tracked_running m \<Longrightarrow> tracked_running (snd (snd (start_begin_all plugin start cfg now p as m)))"
proof (induction as arbitrary: m)
  case Nil
  then show ?case by simp
next
  case (Cons a as)
  obtain c ma where b: "start_account_begin plugin start cfg now p a m = (c, ma)"
    by (cases "start_account_begin plugin start cfg now p a m")
  obtain ws e mb where r: "start_begin_all plugin start cfg now p as ma = (ws, e, mb)"
    by (cases "start_begin_all plugin start cfg now p as ma")
  from tracked_running_start_account_begin[OF Cons.prems, of plugin start cfg now p a] b
  have "tracked_running ma" by simp
  from Cons.IH[OF this] r b show ?case by simp
qed

lemma tracked_running_startProvider_called:
  "tracked_running m \<Longrightarrow> tracked_running (snd (snd (startProvider_called PROVIDERS cfg now p a m)))"
  unfolding startProvider_called_def Let_def
  by (auto split: option.splits simp: tracked_running_start_begin_all)

lemma tracked_running_start_account_resume:
  assumes "tracked_running m" and "r = Inr False \<longrightarrow> task_handle m p a = None"
  shows "tracked_running (snd (start_account_resume plugin start cfg now p (a, r) m))"
  using assms
  by (cases rule: start_account_resume_cases[where r=r and a=a and m=m and now=now and p=p
        and plugin=plugin and start=start and cfg=cfg])
     (simp_all add: tracked_running_setRuntime_stopped tracked_running_launch tracked_running_begin_launch)

lemma tracked_running_startProvider_resumed:
  assumes "tracked_running m" and "r = Inr False \<longrightarrow> task_handle m p a = None"
  shows "tracked_running (snd (startProvider_resumed PROVIDERS cfg now p (a, r) m))"
  using assms unfolding startProvider_resumed_def
  by (auto split: option.splits simp: tracked_running_start_account_resume)

lemma tracked_running_markWhatsAppLoggedOut:
  assumes "tracked_running m" and "task_handle m Whatsapp (case a of None \<Rightarrow> defaultId | Some x \<Rightarrow> x) = None"
  shows "tracked_running (markWhatsAppLoggedOut defaultId cleared a m)"
  unfolding markWhatsAppLoggedOut_def Let_def
  using assms by (rule tracked_running_setRuntime_stopped)

lemma tracked_running_take_turn:
  assumes "tracked_running (mgr s)" and "unhurried t s"
  shows "tracked_running (mgr (take_turn PROVIDERS t s))"
proof (cases t)
  case (StartProviderCalled cfg now p a)
  obtain ws e m where c: "startProvider_called PROVIDERS cfg now p a (mgr s) = (ws, e, m)"
    by (cases "startProvider_called PROVIDERS cfg now p a (mgr s)")
  with tracked_running_startProvider_called[OF assms(1), of PROVIDERS cfg now p a]
  have "tracked_running m" by simp
  with StartProviderCalled c show ?thesis by simp
next
  case (StartResumed k now)
  show ?thesis
  proof (cases "k < length (starting s)")
    case False
    with StartResumed assms show ?thesis by simp
  next
    case True
    obtain cfg p b r where w: "starting s ! k = (cfg, p, b, r)" by (cases "starting s ! k")
    from assms(2) StartResumed True w have "r = Inr False \<longrightarrow> task_handle (mgr s) p b = None"
      by (simp split: if_splits)
    from tracked_running_startProvider_resumed[OF assms(1) this] StartResumed True w
    show ?thesis by simp
  qed
next
  case (StopProviderCalled cfg p a)
  obtain ws e m where c: "stopProvider_called PROVIDERS cfg p a (mgr s) = (ws, e, m)"
    by (cases "stopProvider_called PROVIDERS cfg p a (mgr s)")
  with tracked_running_stopProvider_called[OF assms(1), of PROVIDERS cfg p a]
  have "tracked_running m" by simp
  with StopProviderCalled c show ?thesis by simp
next
  case (StopResumed k now)
  with assms(1) show ?thesis
    by (auto simp: tracked_running_stop_account_resumed split: prod.splits)
next
  case (TaskSettles fmt now n outcome)
  with assms(1) show ?thesis by (simp add: tracked_running_settle_task)
next
  case (MarkWhatsAppLoggedOut defaultId cleared a)
  with assms show ?thesis by (simp add: tracked_running_markWhatsAppLoggedOut)
next
  case (GetRuntimeSnapshot order cfg)
  with assms(1) show ?thesis by simp
qed

lemma tracked_running_run_turns:
  "tracked_running (mgr s) \<Longrightarrow> orderly PROVIDERS ts s \<Longrightarrow> tracked_running (mgr (run_turns PROVIDERS ts s))"
proof (induction ts arbitrary: s)
  case Nil
  then show ?case by simp
next
  case (Cons t ts)
  from Cons.prems have "tracked_running (mgr (take_turn PROVIDERS t s))"
    by (simp add: tracked_running_take_turn)
  moreover from Cons.prems(2) have "orderly PROVIDERS ts (take_turn PROVIDERS t s)" by simp
  ultimately show ?case using Cons.IH by simp
qed

lemma tracked_running_initial: "tracked_running initial_manager"
  by (simp add: tracked_running_def task_handle_def initial_manager_def createRuntimeStore_def)

lemma tracked_running_consistent:
  assumes "tracked_running m"
  shows "consistent m"
  unfolding consistent_def
proof (intro allI impI)
  fix p a
  assume stopped: "running (getRuntime p a m) = Some False"
  show "task_handle m p a = None"
  proof (rule ccontr)
    assume "task_handle m p a \<noteq> None"
    with assms have "running (getRuntime p a m) = Some True" by (simp add: tracked_running_def)
    with stopped show False by simp
  qed
qed

text \<open>
  \<^bold>\<open>C2\<close> (snapshot and task map), as the code has it. The manager is followed turn by
  turn from its initial state: \<^verbatim>\<open>startProvider\<close> and \<^verbatim>\<open>stopProvider\<close> calls with their waiting
  callbacks resumed at any later moment and in any order, overlapping as they may, task
  settlements, \<^verbatim>\<open>getRuntimeSnapshot\<close> and \<^verbatim>\<open>markWhatsAppLoggedOut\<close>. Provided that
  \<^verbatim>\<open>markWhatsAppLoggedOut\<close> is called only for an account with no task registered at that
  moment, and that no \<^verbatim>\<open>startProvider\<close> callback comes back from \<^verbatim>\<open>await isConfigured\<close> with
  the answer \<^verbatim>\<open>false\<close> after another call has registered a task for its account, an account
  whose snapshot says \<^verbatim>\<open>running: false\<close> has no task registered. As the theorem holds for
  every such sequence, it holds at every point of one.
\<close>

theorem snapshot_task_consistency:
  assumes "orderly PROVIDERS turns initial_sched"
  shows "consistent (mgr (run_turns PROVIDERS turns initial_sched))"
proof -
  have "tracked_running (mgr (initial_sched :: 'z sched))"
    by (simp add: initial_sched_def tracked_running_initial)
  from tracked_running_run_turns[OF this assms] show ?thesis
    by (rule tracked_running_consistent)
qed

subsection \<open>The test doubles, evaluated\<close>

lemma demo_lookup: "getProviderPlugin demo_providers p = Some (demo_plugin p)"
  by (cases p) (simp_all add: getProviderPlugin_def demo_providers_def demo_plugin_def)

lemma demo_startable: "startable (demo_plugin p) demo_cfg ''default''"
  by (simp add: demo_plugin_def startable_def account_enabled_def demo_cfg_def)

lemma demo_no_hook: "getProviderPlugin demo_providers p = Some q \<Longrightarrow>
    \<forall>f e. stopAccount q = Some f \<longrightarrow> f cfg a (resolveAccount q cfg a) \<noteq> Inl e"
  by (simp add: demo_lookup) (auto simp: demo_plugin_def)

lemma initial_simps:
  "task_handle initial_manager p a = None" "abort_handle initial_manager p a = None"
  "live_tasks_of initial_manager p a = []" "well_formed initial_manager"
  "launched initial_manager = []" "controllers initial_manager = 0" "settled initial_manager = []"
  by (simp_all add: initial_manager_def task_handle_def abort_handle_def live_tasks_of_def live_def
      well_formed_def createRuntimeStore_def)

lemma demo_called:
  "task_handle m p ''default'' = None \<Longrightarrow> web_enabled cfg = None \<Longrightarrow>
   startProvider_called demo_providers cfg now p (Some ''default'') m = ([(''default'', Inr (linked cfg))], None, m)"
  by (simp add: startProvider_called_def demo_lookup start_accountIds_def Let_def demo_plugin_def
      start_account_begin_def task_handle_def account_enabled_def)

lemma demo_called_running:
  "task_handle m p ''default'' = Some n \<Longrightarrow>
   startProvider_called demo_providers cfg now p (Some ''default'') m = ([], None, m)"
  by (simp add: startProvider_called_def demo_lookup start_accountIds_def Let_def demo_plugin_def
      start_account_begin_def task_handle_def account_enabled_def)

lemma demo_resumed:
  "startProvider_resumed demo_providers cfg now p (''default'', Inr True) m = (None, launch p ''default'' (now ''default'') m)"
  "startProvider_resumed demo_providers cfg now p (''default'', Inr False) m =
     (None, setRuntime p ''default'' ((patch ''default'')\<lparr>running := Some False,
             lastError := Some (Val (if p = Whatsapp then ''not linked'' else ''not configured''))\<rparr>) m)"
  by (simp_all add: startProvider_resumed_def demo_lookup)
     (simp_all add: demo_plugin_def start_account_resume_def start_connection_def)

lemma demo_account_started:
  "startProvider demo_providers demo_cfg now p (Some ''default'') initial_manager
     = (Inr (), launch p ''default'' (now ''default'') initial_manager)"
  by (rule startProvider_startable[OF demo_lookup _ initial_simps(1) demo_startable]) simp

text \<open>
  \<^bold>\<open>C1\<close> (idempotent start), at two calls that overlap. \<^verbatim>\<open>startProvider("telegram",
  "default")\<close> is called twice in a row for an account that can be started, and only then
  are the two callbacks resumed. Each call has tested \<^verbatim>\<open>store.tasks.has(id)\<close> before its
  \<^verbatim>\<open>await\<close>, when no task was registered yet, and neither tests again: both call
  \<^verbatim>\<open>startAccount\<close>. The account ends with two live tasks, of which the task map knows the
  second only, and \<^verbatim>\<open>lastStartAt\<close> has been written twice.
\<close>

theorem overlapping_starts:
  "starting (run_turns demo_providers
       [StartProviderCalled demo_cfg (\<lambda>a. 0) Telegram (Some ''default''),
        StartProviderCalled demo_cfg (\<lambda>a. 0) Telegram (Some ''default'')] initial_sched)
     = [(demo_cfg, Telegram, ''default'', Inr True), (demo_cfg, Telegram, ''default'', Inr True)]
   \<and> lastStartAt (getRuntime Telegram ''default'' (mgr (run_turns demo_providers
       [StartProviderCalled demo_cfg (\<lambda>a. 0) Telegram (Some ''default''),
        StartProviderCalled demo_cfg (\<lambda>a. 0) Telegram (Some ''default''),
        StartResumed 0 9] initial_sched))) = Some (Val 9)
   \<and> launched (mgr (run_turns demo_providers
       [StartProviderCalled demo_cfg (\<lambda>a. 0) Telegram (Some ''default''),
        StartProviderCalled demo_cfg (\<lambda>a. 0) Telegram (Some ''default''),
        StartResumed 0 9, StartResumed 0 10] initial_sched))
     = [(0, Telegram, ''default''), (1, Telegram, ''default'')]
   \<and> live_tasks_of (mgr (run_turns demo_providers
       [StartProviderCalled demo_cfg (\<lambda>a. 0) Telegram (Some ''default''),
        StartProviderCalled demo_cfg (\<lambda>a. 0) Telegram (Some ''default''),
        StartResumed 0 9, StartResumed 0 10] initial_sched)) Telegram ''default''
     = [(0, Telegram, ''default''), (1, Telegram, ''default'')]
   \<and> task_handle (mgr (run_turns demo_providers
       [StartProviderCalled demo_cfg (\<lambda>a. 0) Telegram (Some ''default''),
        StartProviderCalled demo_cfg (\<lambda>a. 0) Telegram (Some ''default''),
        StartResumed 0 9, StartResumed 0 10] initial_sched)) Telegram ''default'' = Some 1
   \<and> lastStartAt (getRuntime Telegram ''default'' (mgr (run_turns demo_providers
       [StartProviderCalled demo_cfg (\<lambda>a. 0) Telegram (Some ''default''),
        StartProviderCalled demo_cfg (\<lambda>a. 0) Telegram (Some ''default''),
        StartResumed 0 9, StartResumed 0 10] initial_sched))) = Some (Val 10)"
proof -
  let ?w = "(demo_cfg, Telegram, ''default'', Inr True)"
  let ?call = "StartProviderCalled demo_cfg (\<lambda>a. 0) Telegram (Some ''default'')"
  let ?m1 = "launch Telegram ''default'' 9 initial_manager"
  let ?m2 = "launch Telegram ''default'' 10 ?m1"
  have l: "linked demo_cfg" "web_enabled demo_cfg = None" by (simp_all add: demo_cfg_def)
  have s2: "run_turns demo_providers [?call, ?call] initial_sched
      = \<lparr>mgr = initial_manager, starting = [?w, ?w], stopping = []\<rparr>"
    by (simp add: initial_sched_def demo_called initial_simps l)
  have s3: "run_turns demo_providers [?call, ?call, StartResumed 0 9] initial_sched
      = \<lparr>mgr = ?m1, starting = [?w], stopping = []\<rparr>"
    by (simp add: initial_sched_def demo_called initial_simps l demo_resumed remove_nth_def)
  have s4: "run_turns demo_providers [?call, ?call, StartResumed 0 9, StartResumed 0 10] initial_sched
      = \<lparr>mgr = ?m2, starting = [], stopping = []\<rparr>"
    by (simp add: initial_sched_def demo_called initial_simps l demo_resumed remove_nth_def)
  have live: "live_tasks_of ?m2 Telegram ''default'' = [(0, Telegram, ''default''), (1, Telegram, ''default'')]"
    by (simp add: live_tasks_of_def live_def initial_simps)
  show ?thesis
    unfolding s2 s3 s4
    by (simp add: live getRuntime_launch initial_simps)
qed


lemma demo_stop_called:
  "task_handle m p ''default'' = Some n \<Longrightarrow> abort_handle m p ''default'' = Some k \<Longrightarrow>
   stopProvider_called demo_providers cfg p (Some ''default'') m
     = ([(''default'', Some n)], None, m\<lparr>aborted := aborted m @ [k]\<rparr>)"
  by (simp add: stopProvider_called_def demo_lookup Let_def stop_account_called_def demo_plugin_def
      task_handle_def abort_handle_def)

text \<open>
  \<^verbatim>\<open>markWhatsAppLoggedOut\<close> writes \<^verbatim>\<open>running: false\<close> into the snapshot and leaves the task
  map alone: called for a running account, it breaks the invariant.
\<close>

theorem logged_out_while_running:
  "\<not> consistent (mgr (run_turns demo_providers
       [StartProviderCalled demo_cfg (\<lambda>a. 0) Whatsapp (Some ''default''),
        StartResumed 0 10,
        MarkWhatsAppLoggedOut ''default'' True None] initial_sched))"
proof
  let ?turns = "[StartProviderCalled demo_cfg (\<lambda>a. 0) Whatsapp (Some ''default''),
        StartResumed 0 10, MarkWhatsAppLoggedOut ''default'' True None]"
  let ?m = "markWhatsAppLoggedOut ''default'' True None (launch Whatsapp ''default'' 10 initial_manager)"
  have l: "linked demo_cfg" "web_enabled demo_cfg = None" by (simp_all add: demo_cfg_def)
  have s: "mgr (run_turns demo_providers ?turns initial_sched) = ?m"
    by (simp add: initial_sched_def demo_called initial_simps l demo_resumed remove_nth_def)
  assume "consistent (mgr (run_turns demo_providers ?turns initial_sched))"
  then have c: "consistent ?m" unfolding s .
  have r: "running (getRuntime Whatsapp ''default'' ?m) = Some False"
    by (simp add: markWhatsAppLoggedOut_def Let_def getRuntime_setRuntime)
  have t: "task_handle ?m Whatsapp ''default'' = Some 0"
    by (simp add: markWhatsAppLoggedOut_def Let_def initial_simps)
  from c r have "task_handle ?m Whatsapp ''default'' = None"
    unfolding consistent_def by blast
  with t show False by simp
qed

text \<open>
  The other turn that writes \<^verbatim>\<open>running: false\<close> blindly. Two \<^verbatim>\<open>startProvider\<close> calls for the
  same account overlap, and the configuration that the second call loads says that the
  credentials are gone. The first callback starts the account; the second comes back
  from its \<^verbatim>\<open>await\<close> with \<^verbatim>\<open>false\<close> and writes \<^verbatim>\<open>running: false\<close>, \<^verbatim>\<open>"not configured"\<close> over
  the snapshot of the account that has just been started.
\<close>

lemma not_configured_after_overlap:
  "\<not> consistent (mgr (run_turns demo_providers
       [StartProviderCalled demo_cfg (\<lambda>a. 0) Telegram (Some ''default''),
        StartProviderCalled (demo_cfg\<lparr>linked := False\<rparr>) (\<lambda>a. 0) Telegram (Some ''default''),
        StartResumed 0 10,
        StartResumed 0 11] initial_sched))"
proof
  let ?turns = "[StartProviderCalled demo_cfg (\<lambda>a. 0) Telegram (Some ''default''),
        StartProviderCalled (demo_cfg\<lparr>linked := False\<rparr>) (\<lambda>a. 0) Telegram (Some ''default''),
        StartResumed 0 10, StartResumed 0 11]"
  let ?m = "setRuntime Telegram ''default''
      ((patch ''default'')\<lparr>running := Some False, lastError := Some (Val ''not configured'')\<rparr>)
      (launch Telegram ''default'' 10 initial_manager)"
  have l: "linked demo_cfg" "web_enabled demo_cfg = None" by (simp_all add: demo_cfg_def)
  have s: "mgr (run_turns demo_providers ?turns initial_sched) = ?m"
    by (simp add: initial_sched_def demo_called initial_simps l demo_resumed remove_nth_def)
  assume "consistent (mgr (run_turns demo_providers ?turns initial_sched))"
  then have c: "consistent ?m" unfolding s .
  have r: "running (getRuntime Telegram ''default'' ?m) = Some False"
    by (simp add: getRuntime_setRuntime)
  have t: "task_handle ?m Telegram ''default'' = Some 0"
    by (simp add: initial_simps)
  from c r have "task_handle ?m Telegram ''default'' = None"
    unfolding consistent_def by blast
  with t show False by simp
qed

lemma settle_task_first:
  "live m = [(n, p, a)] \<Longrightarrow>
   settle_task fmt now n outcome m = (tracked_handlers fmt now p a outcome m)\<lparr>settled := settled m @ [n]\<rparr>"
  by (simp add: settle_task_def)

theorem snapshot_task_consistency_witness:
  "orderly demo_providers
     [StartProviderCalled demo_cfg (\<lambda>a. 0) Whatsapp (Some ''default''),
      StartProviderCalled (demo_cfg\<lparr>linked := False\<rparr>) (\<lambda>a. 0) Telegram (Some ''default''),
      StartResumed 0 10,
      StartResumed 0 11,
      StopProviderCalled demo_cfg Whatsapp (Some ''default''),
      TaskSettles demo_fmt 20 0 (Rejected (JsError ''teardown failed'')),
      StopResumed 0 21,
      MarkWhatsAppLoggedOut ''default'' True None,
      GetRuntimeSnapshot (\<lambda>p. 0) demo_cfg] initial_sched
   \<and> consistent (mgr (run_turns demo_providers
     [StartProviderCalled demo_cfg (\<lambda>a. 0) Whatsapp (Some ''default''),
      StartProviderCalled (demo_cfg\<lparr>linked := False\<rparr>) (\<lambda>a. 0) Telegram (Some ''default''),
      StartResumed 0 10,
      StartResumed 0 11,
      StopProviderCalled demo_cfg Whatsapp (Some ''default''),
      TaskSettles demo_fmt 20 0 (Rejected (JsError ''teardown failed'')),
      StopResumed 0 21,
      MarkWhatsAppLoggedOut ''default'' True None,
      GetRuntimeSnapshot (\<lambda>p. 0) demo_cfg] initial_sched))"
proof -
  let ?P = demo_providers
  let ?off = "demo_cfg\<lparr>linked := False\<rparr>"
  let ?w1 = "(demo_cfg, Whatsapp, ''default'', Inr True)"
  let ?w2 = "(?off, Telegram, ''default'', Inr False)"
  define m3 where "m3 = launch Whatsapp ''default'' 10 initial_manager"
  define m4 where "m4 = setRuntime Telegram ''default''
      ((patch ''default'')\<lparr>running := Some False, lastError := Some (Val ''not configured'')\<rparr>) m3"
  define m5 where "m5 = m4\<lparr>aborted := aborted m4 @ [0]\<rparr>"
  define m6 where "m6 = settle_task demo_fmt 20 0 (Rejected (JsError ''teardown failed'')) m5"
  define m7 where "m7 = stop_account_resumed Whatsapp ''default'' 21 m6"
  define m8 where "m8 = markWhatsAppLoggedOut ''default'' True None m7"
  have l: "linked demo_cfg" "web_enabled demo_cfg = None" "\<not> linked ?off" "web_enabled ?off = None"
    by (simp_all add: demo_cfg_def)
  have h3: "task_handle m3 Telegram ''default'' = None" "task_handle m3 Whatsapp ''default'' = Some 0"
      "abort_handle m3 Whatsapp ''default'' = Some 0"
    by (simp_all add: m3_def initial_simps)
  have h4: "task_handle m4 Whatsapp ''default'' = Some 0" "abort_handle m4 Whatsapp ''default'' = Some 0"
    by (simp_all add: m4_def h3)
  have "live m5 = [(0, Whatsapp, ''default'')]"
    by (simp add: m5_def m4_def m3_def live_def initial_simps)
  then have m6: "m6 = (tracked_handlers demo_fmt 20 Whatsapp ''default'' (Rejected (JsError ''teardown failed'')) m5)
      \<lparr>settled := settled m5 @ [0]\<rparr>"
    unfolding m6_def by (rule settle_task_first)
  have h6: "0 \<in> set (settled m6)" by (simp add: m6)
  have h7: "task_handle m7 Whatsapp ''default'' = None"
    by (simp add: m7_def stop_account_resumed_def)
  let ?s0 = "initial_sched :: unit demo_config_ext sched"
  let ?s1 = "\<lparr>mgr = initial_manager, starting = [?w1], stopping = []\<rparr>"
  let ?s2 = "\<lparr>mgr = initial_manager, starting = [?w1, ?w2], stopping = []\<rparr>"
  let ?s3 = "\<lparr>mgr = m3, starting = [?w2], stopping = []\<rparr>"
  let ?s4 = "\<lparr>mgr = m4, starting = [], stopping = []\<rparr> :: unit demo_config_ext sched"
  let ?s5 = "\<lparr>mgr = m5, starting = [], stopping = [(Whatsapp, ''default'', Some 0)]\<rparr> :: unit demo_config_ext sched"
  let ?s6 = "\<lparr>mgr = m6, starting = [], stopping = [(Whatsapp, ''default'', Some 0)]\<rparr> :: unit demo_config_ext sched"
  let ?s7 = "\<lparr>mgr = m7, starting = [], stopping = []\<rparr> :: unit demo_config_ext sched"
  let ?s8 = "\<lparr>mgr = m8, starting = [], stopping = []\<rparr> :: unit demo_config_ext sched"
  have t1: "take_turn ?P (StartProviderCalled demo_cfg (\<lambda>a. 0) Whatsapp (Some ''default'')) ?s0 = ?s1"
    by (simp add: initial_sched_def demo_called initial_simps l)
  have t2: "take_turn ?P (StartProviderCalled ?off (\<lambda>a. 0) Telegram (Some ''default'')) ?s1 = ?s2"
    by (simp add: demo_called initial_simps l)
  have t3: "take_turn ?P (StartResumed 0 10) ?s2 = ?s3"
    by (simp add: demo_resumed remove_nth_def m3_def)
  have t4: "take_turn ?P (StartResumed 0 11) ?s3 = ?s4"
    by (simp add: demo_resumed remove_nth_def m4_def)
  have t5: "take_turn ?P (StopProviderCalled demo_cfg Whatsapp (Some ''default'')) ?s4 = ?s5"
    by (simp add: demo_stop_called[OF h4] m5_def)
  have t6: "take_turn ?P (TaskSettles demo_fmt 20 0 (Rejected (JsError ''teardown failed''))) ?s5 = ?s6"
    by (simp add: m6_def)
  have t7: "take_turn ?P (StopResumed 0 21) ?s6 = ?s7"
    by (simp add: h6 remove_nth_def m7_def)
  have t8: "take_turn ?P (MarkWhatsAppLoggedOut ''default'' True None) ?s7 = ?s8"
    by (simp add: m8_def)
  have u: "unhurried (StartResumed 0 10) ?s2" "unhurried (StartResumed 0 11) ?s3"
      "unhurried (MarkWhatsAppLoggedOut ''default'' True None) ?s7"
    by (simp_all add: h3 h7)
  have v: "unhurried (StartProviderCalled cfg now p a) s" "unhurried (StopProviderCalled cfg p a) s"
      "unhurried (TaskSettles fmt t n outcome) s" "unhurried (StopResumed k t) s"
      "unhurried (GetRuntimeSnapshot order cfg) s"
    for cfg now p a fmt t n outcome k order and s :: "unit demo_config_ext sched"
    by simp_all
  have 1: "orderly demo_providers
     [StartProviderCalled demo_cfg (\<lambda>a. 0) Whatsapp (Some ''default''),
      StartProviderCalled ?off (\<lambda>a. 0) Telegram (Some ''default''),
      StartResumed 0 10,
      StartResumed 0 11,
      StopProviderCalled demo_cfg Whatsapp (Some ''default''),
      TaskSettles demo_fmt 20 0 (Rejected (JsError ''teardown failed'')),
      StopResumed 0 21,
      MarkWhatsAppLoggedOut ''default'' True None,
      GetRuntimeSnapshot (\<lambda>p. 0) demo_cfg] initial_sched"
    by (simp only: orderly.simps t1 t2 t3 t4 t5 t6 t7 t8 u v simp_thms)
  from snapshot_task_consistency[OF 1] 1 show ?thesis by (rule conjI[rotated])
qed


text \<open>
  The callback of \<^verbatim>\<open>stopProvider\<close> run without interruption is its turn-by-turn form with
  the awaited task settling in between.
\<close>

lemma stop_account_in_turns:
  "stop_account plugin cfg fmt answers p a m =
     (case stop_account_called plugin cfg p a m of
        (Returned, m1) \<Rightarrow> (None, m1)
      | (Threw e, m1) \<Rightarrow> (Some e, m1)
      | (Awaits t, m1) \<Rightarrow>
          (None, stop_account_resumed p a (stopped_at (answers a))
                   (case t of
                      None \<Rightarrow> m1
                    | Some n \<Rightarrow> settle_task fmt (handlers_at (answers a)) n (task_ends (answers a)) m1)))"
  unfolding stop_account_def stop_account_called_def stop_account_resumed_def Let_def
  by (auto split: option.splits sum.splits)

theorem stop_postcondition_witness:
  "stopProvider demo_providers demo_cfg demo_fmt demo_answers Signal (Some ''default'')
      (launch Signal ''default'' 5 initial_manager)
     = (Inr (), snd (stopProvider demo_providers demo_cfg demo_fmt demo_answers Signal (Some ''default'')
      (launch Signal ''default'' 5 initial_manager)))
   \<and> task_handle (launch Signal ''default'' 5 initial_manager) Signal ''default'' = Some 0
   \<and> task_handle (snd (stopProvider demo_providers demo_cfg demo_fmt demo_answers Signal (Some ''default'')
      (launch Signal ''default'' 5 initial_manager))) Signal ''default'' = None
   \<and> running (getRuntime Signal ''default'' (snd (stopProvider demo_providers demo_cfg demo_fmt demo_answers Signal (Some ''default'')
      (launch Signal ''default'' 5 initial_manager)))) = Some False"
proof -
  let ?m = "launch Signal ''default'' 5 initial_manager"
  let ?stop = "stopProvider demo_providers demo_cfg demo_fmt demo_answers Signal (Some ''default'') ?m"
  have ne: "''default'' \<noteq> ''''" by simp
  have t: "task_handle ?m Signal ''default'' = Some 0" by (simp add: initial_simps)
  have s: "?stop = (fst ?stop, snd ?stop)" by simp
  have h: "stop_hook demo_providers demo_cfg Signal ''default'' = None"
    by (simp add: stop_hook_def demo_lookup) (simp add: demo_plugin_def)
  note T = stop_postcondition[OF ne t s]
  from T h have r: "fst ?stop = Inr ()" by simp
  with T have "task_handle (snd ?stop) Signal ''default'' = None"
    "running (getRuntime Signal ''default'' (snd ?stop)) = Some False"
    by blast+
  with t r show ?thesis by (simp add: prod_eq_iff)
qed

subsection \<open>Started tasks are never forgotten\<close>

lemma launched_settle_task [simp]: "launched (settle_task fmt now n outcome m) = launched m"
  by (cases rule: settle_task_cases[where fmt=fmt and now=now and n=n and outcome=outcome and m=m]) simp_all

lemma launched_settle_all [simp]: "launched (settle_all fmt xs m) = launched m"
  by (induction fmt xs m rule: settle_all.induct) simp_all



lemma tracked_logged_setRuntime [simp]: "tracked_logged (setRuntime p a pt m) = tracked_logged m"
  by (simp add: tracked_logged_def)












lemma set_listProviderPlugins [simp]: "set (listProviderPlugins order PROVIDERS) = set PROVIDERS"
  by (simp add: listProviderPlugins_def)


subsection \<open>The three lifecycle errors\<close>









subsection \<open>When \<^verbatim>\<open>startProvider\<close> rejects\<close>













text \<open>
  The same holds turn by turn, whatever has happened to the manager while a callback
  waited: a resumed callback fails only with the rejection of its \<^verbatim>\<open>isConfigured\<close> promise
  or the throw of its \<^verbatim>\<open>startAccount\<close> call.
\<close>

lemma resumed_fails_only_by_plugin:
  assumes "getProviderPlugin PROVIDERS p = Some plugin" and "startAccount plugin = Some start"
    and "fst (startProvider_resumed PROVIDERS cfg now p (a, r) m) = Some e"
  shows "r = Inl e \<or> (r = Inr True \<and> start cfg a (resolveAccount plugin cfg a) = Inl e)"
proof -
  from assms have "fst (start_account_resume plugin start cfg now p (a, r) m) = Some e"
    by (simp add: startProvider_resumed_def)
  then show ?thesis
    by (cases rule: start_account_resume_cases[where r=r and a=a and m=m and now=now and p=p
        and plugin=plugin and start=start and cfg=cfg]) auto
qed

end
